theory Spec2Isabelle
  imports Main "HOL-Library.Sublist"
begin

section \<open>Positions, ranges and text documents\<close>

text \<open>
  \<^verbatim>\<open>vscode.Position\<close> and \<^verbatim>\<open>vscode.Range\<close> of the language server protocol.
  The fields \<^verbatim>\<open>start\<close> and \<^verbatim>\<open>end\<close> of a range are \<open>range_start\<close> and \<open>range_end\<close>.
\<close>

record Position =
  line :: int
  character :: int

record Range =
  range_start :: Position
  range_end :: Position

text \<open>
  A \<^verbatim>\<open>TextDocument\<close> of \<^verbatim>\<open>vscode-languageserver-textdocument\<close>. The library is not part
  of the repository: a document carries what \<^verbatim>\<open>TextDocument.create\<close> is given and its two
  conversion methods, which every definition below takes as they are (no property of
  them is assumed).
\<close>

record TextDocument =
  uri :: string
  languageId :: string
  version :: nat
  content :: string
  offsetAt :: "Position \<Rightarrow> int"
  positionAt :: "int \<Rightarrow> Position"

section \<open>The segment mapping (language-core, consumed only)\<close>

record 'd Mapping =
  sourceOffsets :: "int list"
  generatedOffsets :: "int list"
  lengths :: "int list"
  data :: 'd

datatype CodeRangeKey = SourceOffsets | GeneratedOffsets

text \<open>\<^verbatim>\<open>mapping[key]\<close> for a \<^verbatim>\<open>CodeRangeKey\<close>.\<close>

fun offsetsOf :: "CodeRangeKey \<Rightarrow> 'd Mapping \<Rightarrow> int list" where
  "offsetsOf SourceOffsets m = sourceOffsets m"
| "offsetsOf GeneratedOffsets m = generatedOffsets m"

record 'd SourceMap =
  mappings :: "'d Mapping list"

text \<open>
  Modelled from the spec: \<^verbatim>\<open>translateOffset\<close> of \<^verbatim>\<open>@volar/language-core\<close> is not under
  src/. Spec, section 3: within one segment the translation is a linear shift, an offset
  \<open>s\<close> of the segment maps to \<open>toStart + (s - fromStart)\<close>, "clamped not to exceed
  length"; section 6: \<^verbatim>\<open>translate(offset, fromRanges, toRanges, lengths) -> offset | nothing\<close>,
  piecewise over one mapping's segments. The end of a segment is included, as the spec's
  own exact-range property needs (\<open>generatedRange([0,3)) = [1,4)\<close> on the segment
  \<open>[0,3) \<rightarrow> [1,4)\<close> maps the offset 3).
\<close>

fun translateOffset :: "int \<Rightarrow> int list \<Rightarrow> int list \<Rightarrow> int list \<Rightarrow> int option" where
  "translateOffset start (fromOffset # fromOffsets) (toOffset # toOffsets) (len # lens) =
     (if start \<ge> fromOffset \<and> start \<le> fromOffset + len
      then Some (toOffset + start - fromOffset)
      else translateOffset start fromOffsets toOffsets lens)"
| "translateOffset start _ _ _ = None"

text \<open>
  Modelled from the spec: \<^verbatim>\<open>SourceMap.findMatching\<close> is not under src/. Spec, section 6:
  \<^verbatim>\<open>findMatching(offset, fromKey, toKey)\<close> is the sequence of \<open>(mappedOffset, mappingSegment)\<close>
  for all segments containing \<open>offset\<close> on the "from" side; section 4.2: the order is the
  mapping declaration order. A generator is modelled by the list of what it yields.
\<close>

definition findMatching ::
  "'d SourceMap \<Rightarrow> int \<Rightarrow> CodeRangeKey \<Rightarrow> CodeRangeKey \<Rightarrow> (int \<times> 'd Mapping) list" where
  "findMatching sm offset fromRange toRange =
     concat (map (\<lambda>mapping.
        case translateOffset offset (offsetsOf fromRange mapping) (offsetsOf toRange mapping)
               (lengths mapping) of
          None \<Rightarrow> []
        | Some mapped \<Rightarrow> [(mapped, mapping)]) (mappings sm))"

text \<open>
  Modelled from the spec: \<^verbatim>\<open>SourceMap.getSourceOffsets\<close> and \<^verbatim>\<open>getGeneratedOffsets\<close> are not
  under src/; they are the two directions of \<open>findMatching\<close> (spec, section 6).
\<close>

definition getSourceOffsets :: "'d SourceMap \<Rightarrow> int \<Rightarrow> (int \<times> 'd Mapping) list" where
  "getSourceOffsets sm generatedOffset =
     findMatching sm generatedOffset GeneratedOffsets SourceOffsets"

definition getGeneratedOffsets :: "'d SourceMap \<Rightarrow> int \<Rightarrow> (int \<times> 'd Mapping) list" where
  "getGeneratedOffsets sm sourceOffset =
     findMatching sm sourceOffset SourceOffsets GeneratedOffsets"

text \<open>
  Modelled from the spec: \<^verbatim>\<open>LinkedCodeMap.getLinkedOffsets\<close> is not under src/. Spec,
  section 4.2, mirror variant: all offsets the mapping marks as linked to the given one,
  with no source/generated distinction, so both directions are searched.
\<close>

definition getLinkedOffsets :: "'d SourceMap \<Rightarrow> int \<Rightarrow> int list" where
  "getLinkedOffsets sm offset =
     map fst (getGeneratedOffsets sm offset) @ map fst (getSourceOffsets sm offset)"

section \<open>SourceMapWithDocuments (language-service/lib/documents.ts)\<close>

record 'd SourceMapWithDocuments =
  sourceFileDocument :: TextDocument
  virtualFileDocument :: TextDocument
  map' :: "'d SourceMap"

text \<open>The first value a generator yields, or \<^verbatim>\<open>undefined\<close>: \<^verbatim>\<open>for (const r of g) { return r; }\<close>.\<close>

fun firstOf :: "'a list \<Rightarrow> 'a option" where
  "firstOf [] = None"
| "firstOf (result # _) = Some result"

definition findPositions ::
  "'d SourceMapWithDocuments \<Rightarrow> Position \<Rightarrow> ('d \<Rightarrow> bool) \<Rightarrow> TextDocument \<Rightarrow> TextDocument \<Rightarrow>
     CodeRangeKey \<Rightarrow> CodeRangeKey \<Rightarrow> (Position \<times> 'd Mapping) list" where
  "findPositions this position flt fromDoc toDoc fromKey toKey =
     map (\<lambda>mapped. (positionAt toDoc (fst mapped), snd mapped))
       (filter (\<lambda>mapped. flt (data (snd mapped)))
          (findMatching (map' this) (offsetAt fromDoc position) fromKey toKey))"

definition getSourcePositionsBase ::
  "'d SourceMapWithDocuments \<Rightarrow> Position \<Rightarrow> ('d \<Rightarrow> bool) \<Rightarrow> (Position \<times> 'd Mapping) list" where
  "getSourcePositionsBase this position flt =
     findPositions this position flt (virtualFileDocument this) (sourceFileDocument this)
       GeneratedOffsets SourceOffsets"

definition getGeneratedPositionsBase ::
  "'d SourceMapWithDocuments \<Rightarrow> Position \<Rightarrow> ('d \<Rightarrow> bool) \<Rightarrow> (Position \<times> 'd Mapping) list" where
  "getGeneratedPositionsBase this position flt =
     findPositions this position flt (sourceFileDocument this) (virtualFileDocument this)
       SourceOffsets GeneratedOffsets"

definition matchSourcePosition ::
  "'d SourceMapWithDocuments \<Rightarrow> Position \<Rightarrow> 'd Mapping \<Rightarrow> Position option" where
  "matchSourcePosition this position mapping =
     (case translateOffset (offsetAt (virtualFileDocument this) position)
             (generatedOffsets mapping) (sourceOffsets mapping) (lengths mapping) of
        Some offset \<Rightarrow> Some (positionAt (sourceFileDocument this) offset)
      | None \<Rightarrow> None)"

definition matchGeneratedPosition ::
  "'d SourceMapWithDocuments \<Rightarrow> Position \<Rightarrow> 'd Mapping \<Rightarrow> Position option" where
  "matchGeneratedPosition this position mapping =
     (case translateOffset (offsetAt (sourceFileDocument this) position)
             (sourceOffsets mapping) (generatedOffsets mapping) (lengths mapping) of
        Some offset \<Rightarrow> Some (positionAt (virtualFileDocument this) offset)
      | None \<Rightarrow> None)"

text \<open>
  The two method names \<open>findRanges\<close> is called with, and the dynamic calls
  \<^verbatim>\<open>this[api](...)\<close> and \<^verbatim>\<open>this[api2](...)\<close>.
\<close>

datatype PositionsApi = GetSourcePositionsBase | GetGeneratedPositionsBase

datatype MatchApi = MatchSourcePosition | MatchGeneratedPosition

fun callApi ::
  "PositionsApi \<Rightarrow> 'd SourceMapWithDocuments \<Rightarrow> Position \<Rightarrow> ('d \<Rightarrow> bool) \<Rightarrow>
     (Position \<times> 'd Mapping) list" where
  "callApi GetSourcePositionsBase this position flt = getSourcePositionsBase this position flt"
| "callApi GetGeneratedPositionsBase this position flt =
     getGeneratedPositionsBase this position flt"

fun callApi2 ::
  "MatchApi \<Rightarrow> 'd SourceMapWithDocuments \<Rightarrow> Position \<Rightarrow> 'd Mapping \<Rightarrow> Position option" where
  "callApi2 MatchSourcePosition this position mapping = matchSourcePosition this position mapping"
| "callApi2 MatchGeneratedPosition this position mapping =
     matchGeneratedPosition this position mapping"

text \<open>
  The first loop of \<open>findRanges\<close> over the candidates of \<^verbatim>\<open>range.start\<close>: the ranges it
  yields, and \<^verbatim>\<open>failedLookUps\<close> as it stands when the loop ends.
\<close>

fun findRangesLoop ::
  "('d Mapping \<Rightarrow> Position option) \<Rightarrow> (Position \<times> 'd Mapping) list \<Rightarrow>
     (Position \<times> 'd Mapping) list \<Rightarrow> Range list \<times> (Position \<times> 'd Mapping) list" where
  "findRangesLoop matchEnd failedLookUps [] = ([], failedLookUps)"
| "findRangesLoop matchEnd failedLookUps (mapped # rest) =
     (case matchEnd (snd mapped) of
        Some e \<Rightarrow>
          (case findRangesLoop matchEnd failedLookUps rest of
             (yielded, failed) \<Rightarrow> (\<lparr>range_start = fst mapped, range_end = e\<rparr> # yielded, failed))
      | None \<Rightarrow> findRangesLoop matchEnd (failedLookUps @ [mapped]) rest)"

definition findRanges ::
  "'d SourceMapWithDocuments \<Rightarrow> Range \<Rightarrow> ('d \<Rightarrow> bool) \<Rightarrow> PositionsApi \<Rightarrow> MatchApi \<Rightarrow> Range list" where
  "findRanges this rng flt api api2 =
     (case findRangesLoop (callApi2 api2 this (range_end rng)) [] (callApi api this (range_start rng) flt) of
        (yielded, failedLookUps) \<Rightarrow>
          yielded @
          concat (map (\<lambda>failedLookUp.
              map (\<lambda>mapped. \<lparr>range_start = fst failedLookUp, range_end = fst mapped\<rparr>)
                (callApi api this (range_end rng) flt))
            failedLookUps))"

definition getSourceRanges :: "'d SourceMapWithDocuments \<Rightarrow> Range \<Rightarrow> ('d \<Rightarrow> bool) \<Rightarrow> Range list" where
  "getSourceRanges this rng flt =
     findRanges this rng flt GetSourcePositionsBase MatchSourcePosition"

definition getGeneratedRanges :: "'d SourceMapWithDocuments \<Rightarrow> Range \<Rightarrow> ('d \<Rightarrow> bool) \<Rightarrow> Range list" where
  "getGeneratedRanges this rng flt =
     findRanges this rng flt GetGeneratedPositionsBase MatchGeneratedPosition"

definition getSourceRange :: "'d SourceMapWithDocuments \<Rightarrow> Range \<Rightarrow> ('d \<Rightarrow> bool) \<Rightarrow> Range option" where
  "getSourceRange this rng flt = firstOf (getSourceRanges this rng flt)"

definition getGeneratedRange :: "'d SourceMapWithDocuments \<Rightarrow> Range \<Rightarrow> ('d \<Rightarrow> bool) \<Rightarrow> Range option" where
  "getGeneratedRange this rng flt = firstOf (getGeneratedRanges this rng flt)"

definition getSourcePositions ::
  "'d SourceMapWithDocuments \<Rightarrow> Position \<Rightarrow> ('d \<Rightarrow> bool) \<Rightarrow> Position list" where
  "getSourcePositions this position flt = map fst (getSourcePositionsBase this position flt)"

definition getGeneratedPositions ::
  "'d SourceMapWithDocuments \<Rightarrow> Position \<Rightarrow> ('d \<Rightarrow> bool) \<Rightarrow> Position list" where
  "getGeneratedPositions this position flt = map fst (getGeneratedPositionsBase this position flt)"

definition getSourcePosition ::
  "'d SourceMapWithDocuments \<Rightarrow> Position \<Rightarrow> ('d \<Rightarrow> bool) \<Rightarrow> Position option" where
  "getSourcePosition this position flt = firstOf (getSourcePositions this position flt)"

definition getGeneratedPosition ::
  "'d SourceMapWithDocuments \<Rightarrow> Position \<Rightarrow> ('d \<Rightarrow> bool) \<Rightarrow> Position option" where
  "getGeneratedPosition this position flt = firstOf (getGeneratedPositions this position flt)"

text \<open>
  \<^verbatim>\<open>LinkedCodeMapWithDocument\<close>: the subclass built with the same document on both sides.
\<close>

definition LinkedCodeMapWithDocument :: "TextDocument \<Rightarrow> 'd SourceMap \<Rightarrow> 'd SourceMapWithDocuments" where
  "LinkedCodeMapWithDocument document linkedMap =
     \<lparr>sourceFileDocument = document, virtualFileDocument = document, map' = linkedMap\<rparr>"

definition getLinkedCodePositions :: "'d SourceMapWithDocuments \<Rightarrow> Position \<Rightarrow> Position list" where
  "getLinkedCodePositions this posotion =
     map (positionAt (sourceFileDocument this))
       (getLinkedOffsets (map' this) (offsetAt (sourceFileDocument this) posotion))"

text \<open>
  A document of one line holding \<open>n\<close> characters, for concrete inputs: a position of
  line 0 is its character, kept within \<open>0..n\<close>; a later line is the end of the text.
\<close>

definition lineDocument :: "string \<Rightarrow> string \<Rightarrow> TextDocument" where
  "lineDocument u txt =
     \<lparr>uri = u, languageId = ''plaintext'', version = 0, content = txt,
      offsetAt = (\<lambda>p. if line p \<ge> 1 then int (length txt)
                       else if line p < 0 then 0
                       else max 0 (min (character p) (int (length txt)))),
      positionAt = (\<lambda>offset. \<lparr>line = 0, character = max (min offset (int (length txt))) 0\<rparr>)\<rparr>"

text \<open>
  The two disjoint segments of the spec's boundary-fallback property, each a mapping of
  its own: A maps source \<open>[0,2)\<close> to generated \<open>[0,2)\<close>, B maps source \<open>[5,7)\<close> to
  generated \<open>[3,5)\<close>.
\<close>

definition segmentA :: "unit Mapping" where
  "segmentA = \<lparr>sourceOffsets = [0], generatedOffsets = [0], lengths = [2], data = ()\<rparr>"

definition segmentB :: "unit Mapping" where
  "segmentB = \<lparr>sourceOffsets = [5], generatedOffsets = [3], lengths = [2], data = ()\<rparr>"

definition boundaryTranslator :: "unit SourceMapWithDocuments" where
  "boundaryTranslator =
     \<lparr>sourceFileDocument = lineDocument ''file:///a.vue'' ''0123456789'',
      virtualFileDocument = lineDocument ''file:///a.vue?virtualCodeId=ts'' ''01234567'',
      map' = \<lparr>mappings = [segmentA, segmentB]\<rparr>\<rparr>"

definition at :: "int \<Rightarrow> Position" where
  "at c = \<lparr>line = 0, character = c\<rparr>"

section \<open>The result transformation (typescript/lib/node/transform.ts)\<close>

text \<open>
  \<^verbatim>\<open>ts.TextSpan\<close>; its fields \<^verbatim>\<open>start\<close> and \<^verbatim>\<open>length\<close> are \<open>span_start\<close> and
  \<open>span_length\<close>. Offsets are integers (\<^verbatim>\<open>transformRange\<close> subtracts a length from them).
\<close>

record TextSpan =
  span_start :: int
  span_length :: int

text \<open>
  Of a \<^verbatim>\<open>SourceFile\<close> the transformation reads \<^verbatim>\<open>sourceFile.snapshot.getLength()\<close> only; of
  a \<^verbatim>\<open>VirtualCode\<close> only whether there is one.
\<close>

record SourceFile =
  snapshotLength :: int

record VirtualCode =
  codeId :: string

text \<open>
  The \<^verbatim>\<open>FileRegistry\<close> of \<^verbatim>\<open>@volar/language-core\<close>, as far as the two files use it:
  \<open>resolve\<close> is the lookup behind \<^verbatim>\<open>getVirtualFileAndMap\<close>, \<open>getVirtualCode\<close> the method
  \<^verbatim>\<open>files.getVirtualCode(sourceFileUri, virtualCodeId)\<close>. Both are taken as they are.
\<close>

record 'd FileRegistry =
  resolve :: "string \<Rightarrow> (VirtualCode \<times> SourceFile \<times> 'd SourceMap) option"
  getVirtualCode :: "string \<Rightarrow> string \<Rightarrow> VirtualCode option \<times> SourceFile option"

text \<open>
  Modelled from the spec: \<^verbatim>\<open>getVirtualFileAndMap\<close> of \<^verbatim>\<open>./utils\<close> is not under src/. Spec,
  section 6: the registry lookup \<^verbatim>\<open>resolve(uri)\<close> tells whether a name is a registered
  generated document and, if so, gives its paired source file and mapping; the answer for
  any other name is \<^verbatim>\<open>[undefined, undefined, undefined]\<close>, here \<open>None\<close>.
\<close>

definition getVirtualFileAndMap ::
  "'d FileRegistry \<Rightarrow> string \<Rightarrow> (VirtualCode \<times> SourceFile \<times> 'd SourceMap) option" where
  "getVirtualFileAndMap files fileName = resolve files fileName"

text \<open>
  Modelled from the spec: \<^verbatim>\<open>notEmpty\<close> of \<^verbatim>\<open>./utils\<close> is not under src/; it keeps the
  values that are there (spec, section 4.3: what fails to map is dropped).
\<close>

definition notEmpty :: "'a option \<Rightarrow> bool" where
  "notEmpty v = (v \<noteq> None)"

text \<open>
  \<open>transformRange\<close>: the inner loop over the candidates of \<open>end\<close> for one candidate
  \<open>sourceStart\<close>, then the outer loop over the candidates of \<open>start\<close>.
\<close>

fun transformRangeEnds ::
  "(int \<times> 'd Mapping) \<Rightarrow> ('d \<Rightarrow> bool) \<Rightarrow> (int \<times> 'd Mapping) list \<Rightarrow> (int \<times> int) option" where
  "transformRangeEnds sourceStart flt [] = None"
| "transformRangeEnds sourceStart flt (sourceEnd # rest) =
     (if fst sourceEnd \<ge> fst sourceStart \<and> flt (data (snd sourceEnd))
      then Some (fst sourceStart, fst sourceEnd)
      else transformRangeEnds sourceStart flt rest)"

fun transformRangeStarts ::
  "('d \<Rightarrow> bool) \<Rightarrow> (int \<times> 'd Mapping) list \<Rightarrow> (int \<times> 'd Mapping) list \<Rightarrow> (int \<times> int) option" where
  "transformRangeStarts flt sourceEnds [] = None"
| "transformRangeStarts flt sourceEnds (sourceStart # rest) =
     (if flt (data (snd sourceStart))
      then (case transformRangeEnds sourceStart flt sourceEnds of
              Some found \<Rightarrow> Some found
            | None \<Rightarrow> transformRangeStarts flt sourceEnds rest)
      else transformRangeStarts flt sourceEnds rest)"

definition transformRange ::
  "SourceFile \<Rightarrow> 'd SourceMap \<Rightarrow> int \<Rightarrow> int \<Rightarrow> ('d \<Rightarrow> bool) \<Rightarrow> (int \<times> int) option" where
  "transformRange sourceFile m start end' flt =
     transformRangeStarts flt
       (getSourceOffsets m (end' - snapshotLength sourceFile))
       (getSourceOffsets m (start - snapshotLength sourceFile))"

text \<open>The result \<^verbatim>\<open>{ fileName, textSpan }\<close> of \<open>transformSpan\<close>.\<close>

record FileSpan =
  fs_fileName :: string
  fs_textSpan :: TextSpan

text \<open>
  \<^verbatim>\<open>!fileName\<close> holds for \<^verbatim>\<open>undefined\<close> and for the empty string; \<^verbatim>\<open>!textSpan\<close> for
  \<^verbatim>\<open>undefined\<close> only.
\<close>

definition transformSpan ::
  "'d FileRegistry \<Rightarrow> string option \<Rightarrow> TextSpan option \<Rightarrow> ('d \<Rightarrow> bool) \<Rightarrow> FileSpan option" where
  "transformSpan files fileName textSpan flt =
     (case fileName of
        None \<Rightarrow> None
      | Some fileName' \<Rightarrow>
          if fileName' = [] then None
          else
            (case textSpan of
               None \<Rightarrow> None
             | Some textSpan' \<Rightarrow>
                 (case getVirtualFileAndMap files fileName' of
                    Some (virtualFile, sourceFile, m) \<Rightarrow>
                      (case transformRange sourceFile m (span_start textSpan')
                              (span_start textSpan' + span_length textSpan') flt of
                         Some sourceRange \<Rightarrow>
                           Some \<lparr>fs_fileName = fileName',
                                 fs_textSpan = \<lparr>span_start = fst sourceRange,
                                   span_length = snd sourceRange - fst sourceRange\<rparr>\<rparr>
                       | None \<Rightarrow> None)
                  | None \<Rightarrow> Some \<lparr>fs_fileName = fileName', fs_textSpan = textSpan'\<rparr>)))"

text \<open>\<^verbatim>\<open>ts.CallHierarchyItem\<close>, and \<^verbatim>\<open>span?.textSpan ?? { start: 0, length: 0 }\<close>.\<close>

record CallHierarchyItem =
  chi_name :: string
  chi_file :: string
  chi_span :: TextSpan
  chi_selectionSpan :: TextSpan

definition textSpanOrZero :: "FileSpan option \<Rightarrow> TextSpan" where
  "textSpanOrZero span =
     (case span of Some s \<Rightarrow> fs_textSpan s | None \<Rightarrow> \<lparr>span_start = 0, span_length = 0\<rparr>)"

definition transformCallHierarchyItem ::
  "'d FileRegistry \<Rightarrow> CallHierarchyItem \<Rightarrow> ('d \<Rightarrow> bool) \<Rightarrow> CallHierarchyItem" where
  "transformCallHierarchyItem files item flt =
     (let span = transformSpan files (Some (chi_file item)) (Some (chi_span item)) flt;
          selectionSpan =
            transformSpan files (Some (chi_file item)) (Some (chi_selectionSpan item)) flt
      in item\<lparr>chi_span := textSpanOrZero span, chi_selectionSpan := textSpanOrZero selectionSpan\<rparr>)"

text \<open>\<^verbatim>\<open>ts.TextChange\<close> and \<^verbatim>\<open>ts.FileTextChanges\<close>.\<close>

record TextChange =
  tc_span :: TextSpan
  newText :: string

record FileTextChanges =
  ftc_fileName :: string
  textChanges :: "TextChange list"
  isNewFile :: "bool option"

text \<open>
  The callback of \<^verbatim>\<open>changes.textChanges.map\<close>: the edit with its span replaced, or
  \<^verbatim>\<open>undefined\<close>.
\<close>

definition transformTextChange ::
  "'d FileRegistry \<Rightarrow> string \<Rightarrow> ('d \<Rightarrow> bool) \<Rightarrow> TextChange \<Rightarrow> TextChange option" where
  "transformTextChange files fileName flt c =
     (case transformSpan files (Some fileName) (Some (tc_span c)) flt of
        Some span \<Rightarrow> Some (c\<lparr>tc_span := fs_textSpan span\<rparr>)
      | None \<Rightarrow> None)"

text \<open>
  The function is declared to return \<^verbatim>\<open>ts.FileTextChanges | undefined\<close>; both of its
  branches return an object.
\<close>

definition transformFileTextChanges ::
  "'d FileRegistry \<Rightarrow> FileTextChanges \<Rightarrow> ('d \<Rightarrow> bool) \<Rightarrow> FileTextChanges" where
  "transformFileTextChanges files changes flt =
     (case getVirtualFileAndMap files (ftc_fileName changes) of
        Some (virtualCode, source, m) \<Rightarrow>
          changes\<lparr>textChanges :=
            map the (filter notEmpty
              (map (transformTextChange files (ftc_fileName changes) flt) (textChanges changes)))\<rparr>
      | None \<Rightarrow> changes)"

text \<open>\<^verbatim>\<open>ts.DocumentSpan\<close>; \<open>ds_kind\<close> stands for what a type extending it adds.\<close>

record DocumentSpan =
  ds_textSpan :: TextSpan
  ds_fileName :: string
  ds_originalTextSpan :: "TextSpan option"
  ds_originalFileName :: "string option"
  ds_contextSpan :: "TextSpan option"
  ds_originalContextSpan :: "TextSpan option"
  ds_kind :: string

definition transformDocumentSpan ::
  "'d FileRegistry \<Rightarrow> DocumentSpan \<Rightarrow> ('d \<Rightarrow> bool) \<Rightarrow> bool option \<Rightarrow> DocumentSpan option" where
  "transformDocumentSpan files documentSpan flt shouldFallback =
     (let textSpan0 =
            transformSpan files (Some (ds_fileName documentSpan))
              (Some (ds_textSpan documentSpan)) flt;
          textSpan =
            (if textSpan0 = None \<and> shouldFallback = Some True
             then (case getVirtualFileAndMap files (ds_fileName documentSpan) of
                     Some virtualCode \<Rightarrow>
                       Some \<lparr>fs_fileName = ds_fileName documentSpan,
                             fs_textSpan = \<lparr>span_start = 0, span_length = 0\<rparr>\<rparr>
                   | None \<Rightarrow> textSpan0)
             else textSpan0)
      in case textSpan of
           None \<Rightarrow> None
         | Some textSpan' \<Rightarrow>
             (let contextSpan =
                    transformSpan files (Some (ds_fileName documentSpan))
                      (ds_contextSpan documentSpan) flt;
                  originalTextSpan =
                    transformSpan files (ds_originalFileName documentSpan)
                      (ds_originalTextSpan documentSpan) flt;
                  originalContextSpan =
                    transformSpan files (ds_originalFileName documentSpan)
                      (ds_originalContextSpan documentSpan) flt
              in Some (documentSpan\<lparr>
                   ds_fileName := fs_fileName textSpan',
                   ds_textSpan := fs_textSpan textSpan',
                   ds_contextSpan := map_option fs_textSpan contextSpan,
                   ds_originalFileName := map_option fs_fileName originalTextSpan,
                   ds_originalTextSpan := map_option fs_textSpan originalTextSpan,
                   ds_originalContextSpan := map_option fs_textSpan originalContextSpan\<rparr>)))"

subsection \<open>Diagnostics\<close>

text \<open>
  Diagnostics are objects: they refer to each other (possibly in a cycle), the memo table
  is keyed by their identity, and \<open>transformDiagnostic\<close> writes to them. A diagnostic is
  therefore a cell of an object store, its reference the index of the cell.
  \<open>diag_file\<close> is \<^verbatim>\<open>diagnostic.file\<close>, given by its \<^verbatim>\<open>fileName\<close>; \<open>diag_start\<close> and
  \<open>diag_length\<close> are \<^verbatim>\<open>start\<close> and \<^verbatim>\<open>length\<close>.
\<close>

record Diagnostic =
  diag_file :: "string option"
  diag_start :: "int option"
  diag_length :: "int option"
  messageText :: string
  relatedInformation :: "nat list option"

text \<open>
  The state \<open>transformDiagnostic\<close> works on: the object store, the module's
  \<^verbatim>\<open>WeakMap\<close> \<open>transformedDiagnostics\<close> (\<open>None\<close>: no entry; \<open>Some None\<close>: the entry
  \<^verbatim>\<open>undefined\<close>), and a trace \<open>computed\<close> that no code reads: the references for which
  the body of the \<^verbatim>\<open>if\<close> was entered, in order.
\<close>

record TransformState =
  heap :: "Diagnostic list"
  transformedDiagnostics :: "nat \<Rightarrow> nat option option"
  computed :: "nat list"

text \<open>\<^verbatim>\<open>transformedDiagnostics.get(diagnostic)\<close>.\<close>

definition cacheGet :: "TransformState \<Rightarrow> nat \<Rightarrow> nat option" where
  "cacheGet st d = (case transformedDiagnostics st d of Some r \<Rightarrow> r | None \<Rightarrow> None)"

text \<open>\<^verbatim>\<open>transformedDiagnostics.set(diagnostic, r)\<close>.\<close>

definition cacheSet :: "TransformState \<Rightarrow> nat \<Rightarrow> nat option \<Rightarrow> TransformState" where
  "cacheSet st d r = st\<lparr>transformedDiagnostics := (transformedDiagnostics st)(d \<mapsto> r)\<rparr>"

text \<open>Line 19: the slot is reserved; the trace records that the body runs for \<open>d\<close>.\<close>

definition reserveSlot :: "TransformState \<Rightarrow> nat \<Rightarrow> TransformState" where
  "reserveSlot st d = (cacheSet st d None)\<lparr>computed := computed st @ [d]\<rparr>"

text \<open>Line 24: the assignment \<^verbatim>\<open>diagnostic.relatedInformation = ...\<close>.\<close>

definition setRelatedInformation :: "TransformState \<Rightarrow> nat \<Rightarrow> nat list \<Rightarrow> TransformState" where
  "setRelatedInformation st d related =
     st\<lparr>heap := (heap st)[d := (heap st ! d)\<lparr>relatedInformation := Some related\<rparr>]\<rparr>"

text \<open>
  Lines 29 to 51: the diagnostic's own span. A translated diagnostic is a new object
  \<^verbatim>\<open>{ ...diagnostic, start, length }\<close>, a new cell at the end of the store.
\<close>

definition transformOwnSpan ::
  "'d FileRegistry \<Rightarrow> ('d \<Rightarrow> bool) \<Rightarrow> TransformState \<Rightarrow> nat \<Rightarrow> TransformState" where
  "transformOwnSpan files shouldReportDiagnostics st d =
     (let diagnostic = heap st ! d in
      if diag_file diagnostic \<noteq> None \<and> diag_start diagnostic \<noteq> None
           \<and> diag_length diagnostic \<noteq> None
      then
        (case getVirtualFileAndMap files (the (diag_file diagnostic)) of
           Some (virtualCode, sourceFile, m) \<Rightarrow>
             (case transformRange sourceFile m (the (diag_start diagnostic))
                     (the (diag_start diagnostic) + the (diag_length diagnostic))
                     shouldReportDiagnostics of
                Some sourceRange \<Rightarrow>
                  cacheSet
                    (st\<lparr>heap := heap st @
                       [diagnostic\<lparr>diag_start := Some (fst sourceRange),
                          diag_length := Some (snd sourceRange - fst sourceRange)\<rparr>]\<rparr>)
                    d (Some (length (heap st)))
              | None \<Rightarrow> st)
         | None \<Rightarrow> cacheSet st d (Some d))
      else cacheSet st d (Some d))"

text \<open>
  \<open>transformDiagnostic\<close> calls itself through \<^verbatim>\<open>relatedInformation.map\<close>, on a store that
  may hold cycles, so the model counts the depth of the calls: \<open>None\<close> is a run that
  needs more than \<open>fuel\<close> nested calls, or that meets a reference to no object (which no
  JavaScript value is). \<open>shouldReportDiagnostics\<close> of \<^verbatim>\<open>@volar/language-core\<close> is taken as
  it is. \<open>transformRelated\<close> is the \<^verbatim>\<open>map\<close> over the related diagnostics, left to right.
\<close>

fun transformDiagnostic ::
  "nat \<Rightarrow> 'd FileRegistry \<Rightarrow> ('d \<Rightarrow> bool) \<Rightarrow> TransformState \<Rightarrow> nat \<Rightarrow>
     (TransformState \<times> nat option) option"
and transformRelated ::
  "nat \<Rightarrow> 'd FileRegistry \<Rightarrow> ('d \<Rightarrow> bool) \<Rightarrow> TransformState \<Rightarrow> nat list \<Rightarrow>
     (TransformState \<times> nat option list) option" where
  "transformDiagnostic 0 files shouldReportDiagnostics st d = None"
| "transformDiagnostic (Suc fuel) files shouldReportDiagnostics st d =
     (if d \<ge> length (heap st) then None
      else if transformedDiagnostics st d \<noteq> None then Some (st, cacheGet st d)
      else
        (case (case relatedInformation (heap st ! d) of
                 None \<Rightarrow> Some (reserveSlot st d)
               | Some related \<Rightarrow>
                   (case transformRelated fuel files shouldReportDiagnostics (reserveSlot st d)
                           related of
                      None \<Rightarrow> None
                    | Some (st', results) \<Rightarrow>
                        Some (setRelatedInformation st' d (map the (filter notEmpty results))))) of
           None \<Rightarrow> None
         | Some st' \<Rightarrow>
             Some (transformOwnSpan files shouldReportDiagnostics st' d,
                   cacheGet (transformOwnSpan files shouldReportDiagnostics st' d) d)))"
| "transformRelated fuel files shouldReportDiagnostics st [] = Some (st, [])"
| "transformRelated fuel files shouldReportDiagnostics st (d # ds) =
     (case transformDiagnostic fuel files shouldReportDiagnostics st d of
        None \<Rightarrow> None
      | Some (st', r) \<Rightarrow>
          (case transformRelated fuel files shouldReportDiagnostics st' ds of
             None \<Rightarrow> None
           | Some (st'', rs) \<Rightarrow> Some (st'', r # rs)))"

section \<open>The document provider (language-service/lib/documents.ts)\<close>

text \<open>
  JavaScript's \<^verbatim>\<open>str.includes(sep)\<close> and \<^verbatim>\<open>str.split(sep)\<close> for a separator that is not
  empty: \<open>str_split\<close> cuts at every occurrence, found from the left, and always yields at
  least one piece.
\<close>

fun str_includes :: "string \<Rightarrow> string \<Rightarrow> bool" where
  "str_includes [] sep = (sep = [])"
| "str_includes (c # cs) sep = (prefix sep (c # cs) \<or> str_includes cs sep)"

function str_split :: "string \<Rightarrow> string \<Rightarrow> string list" where
  "str_split [] sep = [[]]"
| "str_split (c # cs) sep =
     (if sep \<noteq> [] \<and> prefix sep (c # cs)
      then [] # str_split (drop (length sep) (c # cs)) sep
      else (case str_split cs sep of
              piece # pieces \<Rightarrow> (c # piece) # pieces
            | [] \<Rightarrow> [[c]]))"
  by pat_completeness auto
termination
  by (relation "measure (\<lambda>(str, sep). length str)") (auto simp: neq_Nil_conv)

definition virtualCodeIdMarker :: string where
  "virtualCodeIdMarker = ''?virtualCodeId=''"

definition getVirtualCodeUri :: "string \<Rightarrow> string \<Rightarrow> string" where
  "getVirtualCodeUri sourceFileUri virtualCodeId =
     sourceFileUri @ virtualCodeIdMarker @ virtualCodeId"

definition getVirtualCodeByUri ::
  "'d FileRegistry \<Rightarrow> string \<Rightarrow> VirtualCode option \<times> SourceFile option" where
  "getVirtualCodeByUri files u =
     (if str_includes u virtualCodeIdMarker
      then (let sourceFileUri = str_split u virtualCodeIdMarker ! 0;
                virtualCodeId = str_split u virtualCodeIdMarker ! 1
            in getVirtualCode files sourceFileUri virtualCodeId)
      else (None, None))"

text \<open>
  A \<^verbatim>\<open>ts.IScriptSnapshot\<close> is an object: \<open>snapshotId\<close> is its identity, the key of the
  \<^verbatim>\<open>WeakMap\<close>; \<open>snapshotText\<close> is what \<^verbatim>\<open>getText(0, getLength())\<close> returns.
\<close>

record IScriptSnapshot =
  snapshotId :: nat
  snapshotText :: string

text \<open>
  \<^verbatim>\<open>TextDocument.create\<close>: the document holds what it is given; its two conversion methods
  come from the library, taken as they are, as functions of the content.
\<close>

record TextDocumentLibrary =
  lib_offsetAt :: "string \<Rightarrow> Position \<Rightarrow> int"
  lib_positionAt :: "string \<Rightarrow> int \<Rightarrow> Position"

definition createTextDocument ::
  "TextDocumentLibrary \<Rightarrow> string \<Rightarrow> string \<Rightarrow> nat \<Rightarrow> string \<Rightarrow> TextDocument" where
  "createTextDocument lib u lang v txt =
     \<lparr>uri = u, languageId = lang, version = v, content = txt,
      offsetAt = lib_offsetAt lib txt, positionAt = lib_positionAt lib txt\<rparr>"

text \<open>
  The state of one \<open>createDocumentProvider\<close>: the counter \<open>version\<close>, the \<^verbatim>\<open>WeakMap\<close>
  \<open>snapshot2Doc\<close> from snapshot identities to maps from uris to documents, the documents
  created so far (a document's reference is its index in \<open>documentStore\<close>), and a trace
  \<open>getTextCalls\<close> that no code reads: one entry per call of \<^verbatim>\<open>snapshot.getText\<close>.
\<close>

record DocumentProvider =
  versionCounter :: nat
  snapshot2Doc :: "nat \<Rightarrow> (string \<Rightarrow> nat option) option"
  documentStore :: "TextDocument list"
  getTextCalls :: "(string \<times> nat) list"

definition createDocumentProvider :: DocumentProvider where
  "createDocumentProvider =
     \<lparr>versionCounter = 0, snapshot2Doc = Map.empty, documentStore = [], getTextCalls = []\<rparr>"

text \<open>\<open>get\<close>, lines 195 to 209; the result is the reference of the document.\<close>

definition get ::
  "TextDocumentLibrary \<Rightarrow> string \<Rightarrow> string \<Rightarrow> IScriptSnapshot \<Rightarrow> DocumentProvider \<Rightarrow>
     nat \<times> DocumentProvider" where
  "get lib u lang snapshot st =
     (let st1 = (if snapshot2Doc st (snapshotId snapshot) = None
                 then st\<lparr>snapshot2Doc := (snapshot2Doc st)(snapshotId snapshot \<mapsto> Map.empty)\<rparr>
                 else st);
          m = the (snapshot2Doc st1 (snapshotId snapshot));
          st2 = (if m u = None
                 then st1\<lparr>
                   snapshot2Doc := (snapshot2Doc st1)
                     (snapshotId snapshot \<mapsto> m(u \<mapsto> length (documentStore st1))),
                   documentStore := documentStore st1 @
                     [createTextDocument lib u lang (versionCounter st1) (snapshotText snapshot)],
                   versionCounter := versionCounter st1 + 1,
                   getTextCalls := getTextCalls st1 @ [(u, snapshotId snapshot)]\<rparr>
                 else st1)
      in (the (the (snapshot2Doc st2 (snapshotId snapshot)) u), st2))"

text \<open>A sequence of calls of \<open>get\<close> on one provider: the references returned, in order.\<close>

fun getAll ::
  "TextDocumentLibrary \<Rightarrow> (string \<times> string \<times> IScriptSnapshot) list \<Rightarrow> DocumentProvider \<Rightarrow>
     nat list \<times> DocumentProvider" where
  "getAll lib [] st = ([], st)"
| "getAll lib ((u, lang, snapshot) # calls) st =
     (case get lib u lang snapshot st of
        (doc, st') \<Rightarrow> (case getAll lib calls st' of (docs, st'') \<Rightarrow> (doc # docs, st'')))"

section \<open>Concrete inputs\<close>

text \<open>
  A registry with one generated document: the file \<^verbatim>\<open>/a.vue\<close>, whose source text has 100
  characters, so that the offset 100 of the file the analysis engine sees is the offset 0
  of the generated code. The capability data of a mapping is one flag, whether
  diagnostics may be reported through it.
\<close>

definition exampleMap :: "bool SourceMap" where
  "exampleMap = \<lparr>mappings =
     [\<lparr>sourceOffsets = [10], generatedOffsets = [0], lengths = [5], data = True\<rparr>,
      \<lparr>sourceOffsets = [40], generatedOffsets = [20], lengths = [5], data = False\<rparr>]\<rparr>"

definition exampleFiles :: "bool FileRegistry" where
  "exampleFiles =
     \<lparr>resolve = (\<lambda>fileName. if fileName = ''/a.vue''
          then Some (\<lparr>codeId = ''script_ts''\<rparr>, \<lparr>snapshotLength = 100\<rparr>, exampleMap) else None),
      getVirtualCode = (\<lambda>sourceFileUri virtualCodeId.
          if sourceFileUri = ''file:///a.vue'' \<and> virtualCodeId = ''script_ts''
          then (Some \<lparr>codeId = ''script_ts''\<rparr>, Some \<lparr>snapshotLength = 100\<rparr>) else (None, None))\<rparr>"

text \<open>Three edits of the generated document; the span of the second one maps nowhere.\<close>

definition exampleChanges :: FileTextChanges where
  "exampleChanges =
     \<lparr>ftc_fileName = ''/a.vue'',
      textChanges =
        [\<lparr>tc_span = \<lparr>span_start = 101, span_length = 3\<rparr>, newText = ''first''\<rparr>,
         \<lparr>tc_span = \<lparr>span_start = 110, span_length = 2\<rparr>, newText = ''second''\<rparr>,
         \<lparr>tc_span = \<lparr>span_start = 105, span_length = 0\<rparr>, newText = ''third''\<rparr>],
      isNewFile = None\<rparr>"

text \<open>
  A document span whose primary span and context span map nowhere, and whose original
  span maps.
\<close>

definition exampleDocumentSpan :: DocumentSpan where
  "exampleDocumentSpan =
     \<lparr>ds_textSpan = \<lparr>span_start = 110, span_length = 2\<rparr>,
      ds_fileName = ''/a.vue'',
      ds_originalTextSpan = Some \<lparr>span_start = 101, span_length = 3\<rparr>,
      ds_originalFileName = Some ''/a.vue'',
      ds_contextSpan = Some \<lparr>span_start = 112, span_length = 1\<rparr>,
      ds_originalContextSpan = Some \<lparr>span_start = 7, span_length = 1\<rparr>,
      ds_kind = ''reference''\<rparr>"

text \<open>An edit's span maps: \<open>transformSpan\<close> returns a result for it.\<close>

definition spanMaps :: "'d FileRegistry \<Rightarrow> string \<Rightarrow> ('d \<Rightarrow> bool) \<Rightarrow> TextChange \<Rightarrow> bool" where
  "spanMaps files fileName flt c =
     (transformSpan files (Some fileName) (Some (tc_span c)) flt \<noteq> None)"

text \<open>
  What the state of a provider answers for a snapshot identity and a uri, the key of a
  call of \<open>get\<close>, and the invariant of the states a provider goes through.
\<close>

definition lookupDoc :: "DocumentProvider \<Rightarrow> nat \<Rightarrow> string \<Rightarrow> nat option" where
  "lookupDoc st sid u = (case snapshot2Doc st sid of None \<Rightarrow> None | Some m \<Rightarrow> m u)"

definition callKey :: "string \<times> string \<times> IScriptSnapshot \<Rightarrow> string \<times> nat" where
  "callKey call = (fst call, snapshotId (snd (snd call)))"

definition providerInv :: "DocumentProvider \<Rightarrow> bool" where
  "providerInv st \<longleftrightarrow>
     (\<forall>sid u r. lookupDoc st sid u = Some r \<longrightarrow> r < length (documentStore st))
   \<and> (\<forall>sid u sid' u' r. lookupDoc st sid u = Some r \<and> lookupDoc st sid' u' = Some r
         \<longrightarrow> sid = sid' \<and> u = u')
   \<and> (\<forall>sid u. count_list (getTextCalls st) (u, sid) = (if lookupDoc st sid u = None then 0 else 1))"

text \<open>
  The library of one-line documents, and three calls of \<open>get\<close>: the first two with
  snapshots of the same text and different identity, the third with the first snapshot
  again.
\<close>

definition lineLibrary :: TextDocumentLibrary where
  "lineLibrary =
     \<lparr>lib_offsetAt = (\<lambda>txt. offsetAt (lineDocument [] txt)),
      lib_positionAt = (\<lambda>txt. positionAt (lineDocument [] txt))\<rparr>"

definition exampleCalls :: "(string \<times> string \<times> IScriptSnapshot) list" where
  "exampleCalls =
     [(''file:///a.ts'', ''typescript'', \<lparr>snapshotId = 1, snapshotText = ''let a''\<rparr>),
      (''file:///a.ts'', ''typescript'', \<lparr>snapshotId = 2, snapshotText = ''let a''\<rparr>),
      (''file:///a.ts'', ''javascript'', \<lparr>snapshotId = 1, snapshotText = ''let a''\<rparr>)]"

text \<open>
  Two mappings that both cover the start of the generated code: the first ends at the
  generated offset 2, the second at 4. The source text has 20 characters.
\<close>

definition overlapMap :: "bool SourceMap" where
  "overlapMap = \<lparr>mappings =
     [\<lparr>sourceOffsets = [0], generatedOffsets = [0], lengths = [2], data = True\<rparr>,
      \<lparr>sourceOffsets = [10], generatedOffsets = [0], lengths = [4], data = True\<rparr>]\<rparr>"

definition overlapSourceFile :: SourceFile where
  "overlapSourceFile = \<lparr>snapshotLength = 20\<rparr>"

definition overlapTranslator :: "bool SourceMapWithDocuments" where
  "overlapTranslator =
     \<lparr>sourceFileDocument = lineDocument ''file:///b.vue'' ''01234567890123456789'',
      virtualFileDocument = lineDocument ''file:///b.vue?virtualCodeId=ts'' ''0123'',
      map' = overlapMap\<rparr>"

definition overlapFiles :: "bool FileRegistry" where
  "overlapFiles =
     \<lparr>resolve = (\<lambda>fileName. if fileName = ''/b.vue''
          then Some (\<lparr>codeId = ''ts''\<rparr>, overlapSourceFile, overlapMap) else None),
      getVirtualCode = (\<lambda>sourceFileUri virtualCodeId. (None, None))\<rparr>"

text \<open>
  The one segment of the spec's linear round trip, source \<open>[0,3)\<close> to generated
  \<open>[1,4)\<close>, as a translator of its own.
\<close>

definition linearTranslator :: "bool SourceMapWithDocuments" where
  "linearTranslator =
     \<lparr>sourceFileDocument = lineDocument ''file:///c.vue'' ''0123456789'',
      virtualFileDocument = lineDocument ''file:///c.vue?virtualCodeId=ts'' ''01234'',
      map' = \<lparr>mappings =
        [\<lparr>sourceOffsets = [0], generatedOffsets = [1], lengths = [3], data = True\<rparr>]\<rparr>\<rparr>"

text \<open>
  No segment of the map holds the offset on the \<open>fromKey\<close> side; and every segment of
  the map lies, on the side \<open>key\<close>, between \<open>lo\<close> and \<open>hi\<close>.
\<close>

definition unmatched :: "'d SourceMap \<Rightarrow> CodeRangeKey \<Rightarrow> CodeRangeKey \<Rightarrow> int \<Rightarrow> bool" where
  "unmatched sm fromKey toKey offset = (findMatching sm offset fromKey toKey = [])"

definition segmentsWithin :: "CodeRangeKey \<Rightarrow> 'd SourceMap \<Rightarrow> int \<Rightarrow> int \<Rightarrow> bool" where
  "segmentsWithin key sm lo hi =
     list_all (\<lambda>mapping.
        list_all (\<lambda>segment. lo \<le> fst segment \<and> fst segment + snd segment \<le> hi)
          (zip (offsetsOf key mapping) (lengths mapping)))
       (mappings sm)"

text \<open>A linked-code translator: one document, offsets 0 to 2 linked with 6 to 8.\<close>

definition linkedTranslator :: "unit SourceMapWithDocuments" where
  "linkedTranslator =
     LinkedCodeMapWithDocument (lineDocument ''file:///d.ts'' ''0123456789'')
       \<lparr>mappings = [\<lparr>sourceOffsets = [0], generatedOffsets = [6], lengths = [2], data = ()\<rparr>]\<rparr>"

section \<open>States of the diagnostic transformation\<close>

text \<open>
  A diagnostic with its \<^verbatim>\<open>relatedInformation\<close> left out: what two diagnostics have in
  common when they differ in that field at most.
\<close>

definition otherFields :: "Diagnostic \<Rightarrow> Diagnostic" where
  "otherFields d = d\<lparr>relatedInformation := None\<rparr>"

text \<open>
  The number of objects of the store that have no entry in the memo table.
\<close>

definition pending :: "TransformState \<Rightarrow> nat" where
  "pending st =
     length (filter (\<lambda>a. transformedDiagnostics st a = None) [0..<length (heap st)])"

text \<open>
  The references a diagnostic holds.
\<close>

definition relatedOf :: "Diagnostic \<Rightarrow> nat list" where
  "relatedOf d = (case relatedInformation d of None \<Rightarrow> [] | Some related \<Rightarrow> related)"

text \<open>
  Every reference held by an object of the store is an object of the store.
\<close>

definition refsValid :: "TransformState \<Rightarrow> bool" where
  "refsValid st =
     list_all (\<lambda>d. list_all (\<lambda>r. r < length (heap st)) (relatedOf d)) (heap st)"

text \<open>
  Every diagnostic the memo table holds is an object of the store.
\<close>

definition cacheValid :: "TransformState \<Rightarrow> bool" where
  "cacheValid st =
     (\<forall>a r. transformedDiagnostics st a = Some (Some r) \<longrightarrow> r < length (heap st))"

text \<open>
  The trace lists, once each, the references that have an entry in the memo table.
\<close>

definition traceValid :: "TransformState \<Rightarrow> bool" where
  "traceValid st =
     (distinct (computed st) \<and> set (computed st) = {a. transformedDiagnostics st a \<noteq> None})"

text \<open>
  The states of a JavaScript run: no reference to nothing, and a trace that has
  followed the memo table from its creation.
\<close>

definition wellFormed :: "TransformState \<Rightarrow> bool" where
  "wellFormed st = (refsValid st \<and> cacheValid st \<and> traceValid st)"

text \<open>
  What one call of \<open>transformDiagnostic\<close> leaves of the state it starts from: the
  store only grows, the objects without an entry become no more, the entries that were
  there and the objects that had one are as they were, every object keeps its fields
  other than \<^verbatim>\<open>relatedInformation\<close>, and the trace is extended.
\<close>

definition frameOk :: "TransformState \<Rightarrow> TransformState \<Rightarrow> bool" where
  "frameOk st st' \<longleftrightarrow>
     wellFormed st' \<and> pending st' \<le> pending st \<and> length (heap st) \<le> length (heap st')
     \<and> (\<forall>a. transformedDiagnostics st a \<noteq> None \<longrightarrow>
            transformedDiagnostics st' a = transformedDiagnostics st a)
     \<and> (\<forall>a. transformedDiagnostics st a \<noteq> None \<longrightarrow> a < length (heap st) \<longrightarrow>
            heap st' ! a = heap st ! a)
     \<and> (\<forall>a < length (heap st). otherFields (heap st' ! a) = otherFields (heap st ! a))
     \<and> prefix (computed st) (computed st')"

text \<open>
  A diagnostic without a file whose one related diagnostic lies in the generated
  document, at a span that maps nowhere.
\<close>

definition relatedState :: TransformState where
  "relatedState =
     \<lparr>heap =
        [\<lparr>diag_file = None, diag_start = None, diag_length = None,
          messageText = ''global'', relatedInformation = Some [1]\<rparr>,
         \<lparr>diag_file = Some ''/a.vue'', diag_start = Some 110, diag_length = Some 2,
          messageText = ''related'', relatedInformation = None\<rparr>],
      transformedDiagnostics = Map.empty,
      computed = []\<rparr>"

text \<open>
  Two diagnostics in a cycle: the first lists itself and the second, the second
  lists the first.
\<close>

definition cyclicState :: TransformState where
  "cyclicState =
     \<lparr>heap =
        [\<lparr>diag_file = Some ''/a.vue'', diag_start = Some 101, diag_length = Some 3,
          messageText = ''first'', relatedInformation = Some [0, 1]\<rparr>,
         \<lparr>diag_file = None, diag_start = None, diag_length = None,
          messageText = ''second'', relatedInformation = Some [0]\<rparr>],
      transformedDiagnostics = Map.empty,
      computed = []\<rparr>"

section \<open>The range search in the words of the specification\<close>

text \<open>
  Section 4.2 of the specification, not the code: for every filtered candidate of
  \<^verbatim>\<open>range.start\<close>, the end is resolved again through the mapping that produced the
  candidate, and a success is yielded as the exact pair; after all of them, every
  candidate whose mapping failed on the end is paired with every filtered candidate of
  \<^verbatim>\<open>range.end\<close>, resolved anew through any mapping. \<open>getSourceRanges\<close> and
  \<open>getGeneratedRanges\<close> are compared with it below.
\<close>

definition twoPassSearch ::
  "TextDocument \<Rightarrow> TextDocument \<Rightarrow> 'd SourceMap \<Rightarrow> CodeRangeKey \<Rightarrow> CodeRangeKey \<Rightarrow>
     Range \<Rightarrow> ('d \<Rightarrow> bool) \<Rightarrow> Range list" where
  "twoPassSearch fromDoc toDoc sm fromKey toKey rng flt =
     (let candidates = (\<lambda>position.
            filter (\<lambda>c. flt (data (snd c)))
              (findMatching sm (offsetAt fromDoc position) fromKey toKey));
          sameMapping = (\<lambda>c.
            translateOffset (offsetAt fromDoc (range_end rng))
              (offsetsOf fromKey (snd c)) (offsetsOf toKey (snd c)) (lengths (snd c)))
      in concat (map (\<lambda>c. case sameMapping c of
                     Some mappedEnd \<Rightarrow>
                       [\<lparr>range_start = positionAt toDoc (fst c),
                         range_end = positionAt toDoc mappedEnd\<rparr>]
                   | None \<Rightarrow> [])
           (candidates (range_start rng)))
         @ concat (map (\<lambda>failed.
                map (\<lambda>c. \<lparr>range_start = positionAt toDoc (fst failed),
                           range_end = positionAt toDoc (fst c)\<rparr>)
                  (candidates (range_end rng)))
             (filter (\<lambda>c. sameMapping c = None) (candidates (range_start rng)))))"

text \<open>
  One mapping of two segments that maps the later generated segment to the earlier source
  one: a generated range over both has its source end below its source start.
\<close>

definition invertedTranslator :: "bool SourceMapWithDocuments" where
  "invertedTranslator =
     \<lparr>sourceFileDocument = lineDocument ''file:///e.vue'' ''01234567890123456789'',
      virtualFileDocument = lineDocument ''file:///e.vue?virtualCodeId=ts'' ''0123456789'',
      map' = \<lparr>mappings =
        [\<lparr>sourceOffsets = [10, 0], generatedOffsets = [0, 5], lengths = [2, 2], data = True\<rparr>]\<rparr>\<rparr>"

text \<open>The filtered source candidates of a generated offset.\<close>

definition sourceCandidates :: "'d SourceMap \<Rightarrow> ('d \<Rightarrow> bool) \<Rightarrow> int \<Rightarrow> (int \<times> 'd Mapping) list" where
  "sourceCandidates m flt generatedOffset =
     filter (\<lambda>c. flt (data (snd c))) (getSourceOffsets m generatedOffset)"

section \<open>Results as objects\<close>

text \<open>
  What \<open>transformOwnSpan\<close> does with a diagnostic, read off its file and span: it is kept
  as it is (no file or span, or a file that is no generated document), it is copied with a
  translated span, or its span has no translation.
\<close>

datatype OwnSpan = Unchanged | Translated int int | Untranslatable

definition ownSpanOf :: "'d FileRegistry \<Rightarrow> ('d \<Rightarrow> bool) \<Rightarrow> Diagnostic \<Rightarrow> OwnSpan" where
  "ownSpanOf files shouldReportDiagnostics diagnostic =
     (if diag_file diagnostic \<noteq> None \<and> diag_start diagnostic \<noteq> None
           \<and> diag_length diagnostic \<noteq> None
      then (case getVirtualFileAndMap files (the (diag_file diagnostic)) of
              None \<Rightarrow> Unchanged
            | Some (virtualCode, sourceFile, m) \<Rightarrow>
                (case transformRange sourceFile m (the (diag_start diagnostic))
                        (the (diag_start diagnostic) + the (diag_length diagnostic))
                        shouldReportDiagnostics of
                   None \<Rightarrow> Untranslatable
                 | Some sourceRange \<Rightarrow>
                     Translated (fst sourceRange) (snd sourceRange - fst sourceRange)))
      else Unchanged)"

text \<open>
  The other transformations on a store of objects, to tell a new object from the one
  passed in: an object literal of the source (\<^verbatim>\<open>{ ...changes, textChanges: ... }\<close>, line 59;
  \<^verbatim>\<open>{ ...documentSpan, ... }\<close>, line 94; \<^verbatim>\<open>{ ...item, ... }\<close>, line 10) is a new cell at the end
  of the store, \<^verbatim>\<open>return changes\<close> (line 73) is the reference passed in, and none of the
  three functions holds an assignment to a field.
\<close>

definition transformFileTextChangesAt ::
  "'d FileRegistry \<Rightarrow> FileTextChanges list \<Rightarrow> nat \<Rightarrow> ('d \<Rightarrow> bool) \<Rightarrow> FileTextChanges list \<times> nat" where
  "transformFileTextChangesAt files store changes flt =
     (case getVirtualFileAndMap files (ftc_fileName (store ! changes)) of
        Some (virtualCode, source, m) \<Rightarrow>
          (store @ [transformFileTextChanges files (store ! changes) flt], length store)
      | None \<Rightarrow> (store, changes))"

definition transformDocumentSpanAt ::
  "'d FileRegistry \<Rightarrow> DocumentSpan list \<Rightarrow> nat \<Rightarrow> ('d \<Rightarrow> bool) \<Rightarrow> bool option \<Rightarrow>
     DocumentSpan list \<times> nat option" where
  "transformDocumentSpanAt files store documentSpan flt shouldFallback =
     (case transformDocumentSpan files (store ! documentSpan) flt shouldFallback of
        Some transformed \<Rightarrow> (store @ [transformed], Some (length store))
      | None \<Rightarrow> (store, None))"

definition transformCallHierarchyItemAt ::
  "'d FileRegistry \<Rightarrow> CallHierarchyItem list \<Rightarrow> nat \<Rightarrow> ('d \<Rightarrow> bool) \<Rightarrow>
     CallHierarchyItem list \<times> nat" where
  "transformCallHierarchyItemAt files store item flt =
     (store @ [transformCallHierarchyItem files (store ! item) flt], length store)"

text \<open>A call hierarchy item of the generated document whose selection span maps nowhere.\<close>

definition exampleItem :: CallHierarchyItem where
  "exampleItem =
     \<lparr>chi_name = ''f'', chi_file = ''/a.vue'',
      chi_span = \<lparr>span_start = 101, span_length = 3\<rparr>,
      chi_selectionSpan = \<lparr>span_start = 110, span_length = 2\<rparr>\<rparr>"

section \<open>The translator with collaborators that may throw\<close>

text \<open>
  The queries of \<open>SourceMapWithDocuments\<close> once more, from the same source lines, with
  every call that leaves the class able to throw: the documents' \<^verbatim>\<open>offsetAt\<close> and
  \<^verbatim>\<open>positionAt\<close>, the map's \<^verbatim>\<open>findMatching\<close> and \<^verbatim>\<open>getLinkedOffsets\<close>, \<^verbatim>\<open>translateOffset\<close>
  and the filter. A call returns a value or throws; a generator yields values and then
  ends or throws, and what it yields before it throws has been yielded. The class itself
  has no \<^verbatim>\<open>throw\<close>: an exception of a query is one of a collaborator, met when the loop
  reaches it.
\<close>

text \<open>The outcome of a call, and the run of a generator.\<close>

datatype 'a outcome = Returns 'a | Throws

datatype 'a gen = Done | Yield 'a "'a gen" | Thrown

text \<open>The generator that yields the elements of a list and ends.\<close>

fun ofList :: "'a list \<Rightarrow> 'a gen" where
  "ofList [] = Done"
| "ofList (x # xs) = Yield x (ofList xs)"

text \<open>One generator after another; the second is not reached when the first throws.\<close>

fun appendX :: "'a gen \<Rightarrow> 'a gen \<Rightarrow> 'a gen" where
  "appendX Done h = h"
| "appendX (Yield x g) h = Yield x (appendX g h)"
| "appendX Thrown h = Thrown"

text \<open>\<^verbatim>\<open>for (const x of g) { body }\<close>, where the body yields and may throw.\<close>

fun forX :: "('a \<Rightarrow> 'b gen) \<Rightarrow> 'a gen \<Rightarrow> 'b gen" where
  "forX body Done = Done"
| "forX body (Yield x g) = appendX (body x) (forX body g)"
| "forX body Thrown = Thrown"

text \<open>\<^verbatim>\<open>for (const r of g) { return r; }\<close>: what follows the first value is never run.\<close>

fun firstX :: "'a gen \<Rightarrow> 'a option outcome" where
  "firstX Done = Returns None"
| "firstX (Yield result _) = Returns (Some result)"
| "firstX Thrown = Throws"

text \<open>The collaborators, and the filter the caller passes.\<close>

record 'd Collaborators =
  co_offsetAt :: "TextDocument \<Rightarrow> Position \<Rightarrow> int outcome"
  co_positionAt :: "TextDocument \<Rightarrow> int \<Rightarrow> Position outcome"
  co_findMatching :: "'d SourceMap \<Rightarrow> int \<Rightarrow> CodeRangeKey \<Rightarrow> CodeRangeKey \<Rightarrow> (int \<times> 'd Mapping) gen"
  co_translateOffset :: "int \<Rightarrow> int list \<Rightarrow> int list \<Rightarrow> int list \<Rightarrow> int option outcome"
  co_getLinkedOffsets :: "'d SourceMap \<Rightarrow> int \<Rightarrow> int gen"
  co_filter :: "'d \<Rightarrow> bool outcome"

definition findPositionsX ::
  "'d Collaborators \<Rightarrow> 'd SourceMapWithDocuments \<Rightarrow> Position \<Rightarrow> TextDocument \<Rightarrow> TextDocument \<Rightarrow>
     CodeRangeKey \<Rightarrow> CodeRangeKey \<Rightarrow> (Position \<times> 'd Mapping) gen" where
  "findPositionsX co this position fromDoc toDoc fromKey toKey =
     (case co_offsetAt co fromDoc position of
        Throws \<Rightarrow> Thrown
      | Returns offset \<Rightarrow>
          forX (\<lambda>mapped.
              case co_filter co (data (snd mapped)) of
                Throws \<Rightarrow> Thrown
              | Returns accepted \<Rightarrow>
                  if \<not> accepted then Done
                  else (case co_positionAt co toDoc (fst mapped) of
                          Throws \<Rightarrow> Thrown
                        | Returns p \<Rightarrow> Yield (p, snd mapped) Done))
            (co_findMatching co (map' this) offset fromKey toKey))"

definition getSourcePositionsBaseX ::
  "'d Collaborators \<Rightarrow> 'd SourceMapWithDocuments \<Rightarrow> Position \<Rightarrow> (Position \<times> 'd Mapping) gen" where
  "getSourcePositionsBaseX co this position =
     findPositionsX co this position (virtualFileDocument this) (sourceFileDocument this)
       GeneratedOffsets SourceOffsets"

definition getGeneratedPositionsBaseX ::
  "'d Collaborators \<Rightarrow> 'd SourceMapWithDocuments \<Rightarrow> Position \<Rightarrow> (Position \<times> 'd Mapping) gen" where
  "getGeneratedPositionsBaseX co this position =
     findPositionsX co this position (sourceFileDocument this) (virtualFileDocument this)
       SourceOffsets GeneratedOffsets"

text \<open>The body shared by \<open>matchSourcePosition\<close> and \<open>matchGeneratedPosition\<close>.\<close>

definition matchPositionX ::
  "'d Collaborators \<Rightarrow> TextDocument \<Rightarrow> TextDocument \<Rightarrow> Position \<Rightarrow> int list \<Rightarrow> int list \<Rightarrow> int list \<Rightarrow>
     Position option outcome" where
  "matchPositionX co fromDoc toDoc position fromOffsets toOffsets lens =
     (case co_offsetAt co fromDoc position of
        Throws \<Rightarrow> Throws
      | Returns start \<Rightarrow>
          (case co_translateOffset co start fromOffsets toOffsets lens of
             Throws \<Rightarrow> Throws
           | Returns None \<Rightarrow> Returns None
           | Returns (Some offset) \<Rightarrow>
               (case co_positionAt co toDoc offset of
                  Throws \<Rightarrow> Throws
                | Returns p \<Rightarrow> Returns (Some p))))"

definition matchSourcePositionX ::
  "'d Collaborators \<Rightarrow> 'd SourceMapWithDocuments \<Rightarrow> Position \<Rightarrow> 'd Mapping \<Rightarrow> Position option outcome" where
  "matchSourcePositionX co this position mapping =
     matchPositionX co (virtualFileDocument this) (sourceFileDocument this) position
       (generatedOffsets mapping) (sourceOffsets mapping) (lengths mapping)"

definition matchGeneratedPositionX ::
  "'d Collaborators \<Rightarrow> 'd SourceMapWithDocuments \<Rightarrow> Position \<Rightarrow> 'd Mapping \<Rightarrow> Position option outcome" where
  "matchGeneratedPositionX co this position mapping =
     matchPositionX co (sourceFileDocument this) (virtualFileDocument this) position
       (sourceOffsets mapping) (generatedOffsets mapping) (lengths mapping)"

fun callApiX ::
  "PositionsApi \<Rightarrow> 'd Collaborators \<Rightarrow> 'd SourceMapWithDocuments \<Rightarrow> Position \<Rightarrow>
     (Position \<times> 'd Mapping) gen" where
  "callApiX GetSourcePositionsBase co this position = getSourcePositionsBaseX co this position"
| "callApiX GetGeneratedPositionsBase co this position = getGeneratedPositionsBaseX co this position"

fun callApi2X ::
  "MatchApi \<Rightarrow> 'd Collaborators \<Rightarrow> 'd SourceMapWithDocuments \<Rightarrow> Position \<Rightarrow> 'd Mapping \<Rightarrow>
     Position option outcome" where
  "callApi2X MatchSourcePosition co this position mapping = matchSourcePositionX co this position mapping"
| "callApi2X MatchGeneratedPosition co this position mapping =
     matchGeneratedPositionX co this position mapping"

text \<open>The first loop of \<open>findRanges\<close>, followed by the second one on the failures recorded.\<close>

fun findRangesLoopX ::
  "('d Mapping \<Rightarrow> Position option outcome) \<Rightarrow> ((Position \<times> 'd Mapping) list \<Rightarrow> Range gen) \<Rightarrow>
     (Position \<times> 'd Mapping) list \<Rightarrow> (Position \<times> 'd Mapping) gen \<Rightarrow> Range gen" where
  "findRangesLoopX matchEnd secondLoop failedLookUps Done = secondLoop failedLookUps"
| "findRangesLoopX matchEnd secondLoop failedLookUps Thrown = Thrown"
| "findRangesLoopX matchEnd secondLoop failedLookUps (Yield mapped rest) =
     (case matchEnd (snd mapped) of
        Throws \<Rightarrow> Thrown
      | Returns None \<Rightarrow> findRangesLoopX matchEnd secondLoop (failedLookUps @ [mapped]) rest
      | Returns (Some e) \<Rightarrow>
          Yield \<lparr>range_start = fst mapped, range_end = e\<rparr>
            (findRangesLoopX matchEnd secondLoop failedLookUps rest))"

definition findRangesX ::
  "'d Collaborators \<Rightarrow> 'd SourceMapWithDocuments \<Rightarrow> Range \<Rightarrow> PositionsApi \<Rightarrow> MatchApi \<Rightarrow> Range gen" where
  "findRangesX co this rng api api2 =
     findRangesLoopX (callApi2X api2 co this (range_end rng))
       (\<lambda>failedLookUps.
          forX (\<lambda>failedLookUp.
              forX (\<lambda>mapped. Yield \<lparr>range_start = fst failedLookUp, range_end = fst mapped\<rparr> Done)
                (callApiX api co this (range_end rng)))
            (ofList failedLookUps))
       [] (callApiX api co this (range_start rng))"

definition getSourceRangesX :: "'d Collaborators \<Rightarrow> 'd SourceMapWithDocuments \<Rightarrow> Range \<Rightarrow> Range gen" where
  "getSourceRangesX co this rng =
     forX (\<lambda>result. Yield result Done)
       (findRangesX co this rng GetSourcePositionsBase MatchSourcePosition)"

definition getGeneratedRangesX :: "'d Collaborators \<Rightarrow> 'd SourceMapWithDocuments \<Rightarrow> Range \<Rightarrow> Range gen" where
  "getGeneratedRangesX co this rng =
     forX (\<lambda>result. Yield result Done)
       (findRangesX co this rng GetGeneratedPositionsBase MatchGeneratedPosition)"

definition getSourceRangeX ::
  "'d Collaborators \<Rightarrow> 'd SourceMapWithDocuments \<Rightarrow> Range \<Rightarrow> Range option outcome" where
  "getSourceRangeX co this rng = firstX (getSourceRangesX co this rng)"

definition getGeneratedRangeX ::
  "'d Collaborators \<Rightarrow> 'd SourceMapWithDocuments \<Rightarrow> Range \<Rightarrow> Range option outcome" where
  "getGeneratedRangeX co this rng = firstX (getGeneratedRangesX co this rng)"

definition getSourcePositionsX ::
  "'d Collaborators \<Rightarrow> 'd SourceMapWithDocuments \<Rightarrow> Position \<Rightarrow> Position gen" where
  "getSourcePositionsX co this position =
     forX (\<lambda>mapped. Yield (fst mapped) Done) (getSourcePositionsBaseX co this position)"

definition getGeneratedPositionsX ::
  "'d Collaborators \<Rightarrow> 'd SourceMapWithDocuments \<Rightarrow> Position \<Rightarrow> Position gen" where
  "getGeneratedPositionsX co this position =
     forX (\<lambda>mapped. Yield (fst mapped) Done) (getGeneratedPositionsBaseX co this position)"

definition getSourcePositionX ::
  "'d Collaborators \<Rightarrow> 'd SourceMapWithDocuments \<Rightarrow> Position \<Rightarrow> Position option outcome" where
  "getSourcePositionX co this position = firstX (getSourcePositionsX co this position)"

definition getGeneratedPositionX ::
  "'d Collaborators \<Rightarrow> 'd SourceMapWithDocuments \<Rightarrow> Position \<Rightarrow> Position option outcome" where
  "getGeneratedPositionX co this position = firstX (getGeneratedPositionsX co this position)"

definition getLinkedCodePositionsX ::
  "'d Collaborators \<Rightarrow> 'd SourceMapWithDocuments \<Rightarrow> Position \<Rightarrow> Position gen" where
  "getLinkedCodePositionsX co this posotion =
     (case co_offsetAt co (sourceFileDocument this) posotion of
        Throws \<Rightarrow> Thrown
      | Returns offset \<Rightarrow>
          forX (\<lambda>linkedPosition.
              case co_positionAt co (sourceFileDocument this) linkedPosition of
                Throws \<Rightarrow> Thrown
              | Returns p \<Rightarrow> Yield p Done)
            (co_getLinkedOffsets co (map' this) offset))"

text \<open>The collaborators that return for every input: those of the sections above.\<close>

definition returning :: "('d \<Rightarrow> bool) \<Rightarrow> 'd Collaborators" where
  "returning flt =
     \<lparr>co_offsetAt = (\<lambda>doc position. Returns (offsetAt doc position)),
      co_positionAt = (\<lambda>doc offset. Returns (positionAt doc offset)),
      co_findMatching = (\<lambda>sm offset fromKey toKey. ofList (findMatching sm offset fromKey toKey)),
      co_translateOffset = (\<lambda>start fromOffsets toOffsets lens.
         Returns (translateOffset start fromOffsets toOffsets lens)),
      co_getLinkedOffsets = (\<lambda>sm offset. ofList (getLinkedOffsets sm offset)),
      co_filter = (\<lambda>d. Returns (flt d))\<rparr>"

text \<open>A generator that ends in an exception.\<close>

fun throwsX :: "'a gen \<Rightarrow> bool" where
  "throwsX Done = False"
| "throwsX (Yield _ g) = throwsX g"
| "throwsX Thrown = True"

text \<open>No collaborator throws, whatever it is called with.\<close>

definition collaboratorsReturn :: "'d Collaborators \<Rightarrow> bool" where
  "collaboratorsReturn co \<longleftrightarrow>
     (\<forall>doc position. co_offsetAt co doc position \<noteq> Throws)
     \<and> (\<forall>doc offset. co_positionAt co doc offset \<noteq> Throws)
     \<and> (\<forall>sm offset fromKey toKey. \<not> throwsX (co_findMatching co sm offset fromKey toKey))
     \<and> (\<forall>start fromOffsets toOffsets lens.
           co_translateOffset co start fromOffsets toOffsets lens \<noteq> Throws)
     \<and> (\<forall>sm offset. \<not> throwsX (co_getLinkedOffsets co sm offset))
     \<and> (\<forall>d. co_filter co d \<noteq> Throws)"

section \<open>The range search\<close>

lemma findRangesLoop_eq:
  "findRangesLoop matchEnd failed cands =
     (concat (map (\<lambda>c. case matchEnd (snd c) of
                          Some e \<Rightarrow> [\<lparr>range_start = fst c, range_end = e\<rparr>] | None \<Rightarrow> []) cands),
      failed @ filter (\<lambda>c. matchEnd (snd c) = None) cands)"
  by (induction cands arbitrary: failed) (auto split: option.splits)

lemma findRanges_unfold:
  "findRanges this rng flt api api2 =
     concat (map (\<lambda>c. case callApi2 api2 this (range_end rng) (snd c) of
                         Some e \<Rightarrow> [\<lparr>range_start = fst c, range_end = e\<rparr>] | None \<Rightarrow> [])
               (callApi api this (range_start rng) flt))
     @ concat (map (\<lambda>failedLookUp.
                 map (\<lambda>mapped. \<lparr>range_start = fst failedLookUp, range_end = fst mapped\<rparr>)
                   (callApi api this (range_end rng) flt))
               (filter (\<lambda>c. callApi2 api2 this (range_end rng) (snd c) = None)
                  (callApi api this (range_start rng) flt)))"
  by (simp add: findRanges_def findRangesLoop_eq)

lemma firstPass_positions:
  "concat (map (\<lambda>c. case (case tr (snd c) of Some offset \<Rightarrow> Some (pos offset) | None \<Rightarrow> None) of
                      Some e \<Rightarrow> [\<lparr>range_start = fst c, range_end = e\<rparr>] | None \<Rightarrow> [])
            (map (\<lambda>mapped. (pos (fst mapped), snd mapped)) xs))
   = concat (map (\<lambda>c. case tr (snd c) of
                      Some mappedEnd \<Rightarrow> [\<lparr>range_start = pos (fst c), range_end = pos mappedEnd\<rparr>]
                    | None \<Rightarrow> []) xs)"
  by (induction xs) (auto split: option.splits)

lemma secondPass_positions:
  "concat (map (\<lambda>failedLookUp.
              map (\<lambda>mapped. \<lparr>range_start = fst failedLookUp, range_end = fst mapped\<rparr>)
                (map (\<lambda>mapped. (pos (fst mapped), snd mapped)) ys))
            (filter (\<lambda>c. (case tr (snd c) of Some offset \<Rightarrow> Some (pos offset) | None \<Rightarrow> None) = None)
               (map (\<lambda>mapped. (pos (fst mapped), snd mapped)) xs)))
   = concat (map (\<lambda>failed.
              map (\<lambda>c. \<lparr>range_start = pos (fst failed), range_end = pos (fst c)\<rparr>) ys)
            (filter (\<lambda>c. tr (snd c) = None) xs))"
  by (induction xs) (auto simp: o_def split: option.splits)

lemma getSourceRanges_twoPass:
  "getSourceRanges this rng flt =
     twoPassSearch (virtualFileDocument this) (sourceFileDocument this) (map' this)
       GeneratedOffsets SourceOffsets rng flt"
  unfolding getSourceRanges_def findRanges_unfold twoPassSearch_def Let_def callApi.simps
    callApi2.simps getSourcePositionsBase_def findPositions_def matchSourcePosition_def
    offsetsOf.simps
  by (simp only:
      firstPass_positions [where pos = "positionAt (sourceFileDocument this)" and tr = "\<lambda>m.
        translateOffset (offsetAt (virtualFileDocument this) (range_end rng))
          (generatedOffsets m) (sourceOffsets m) (lengths m)"]
      secondPass_positions [where pos = "positionAt (sourceFileDocument this)" and tr = "\<lambda>m.
        translateOffset (offsetAt (virtualFileDocument this) (range_end rng))
          (generatedOffsets m) (sourceOffsets m) (lengths m)"])

lemma getGeneratedRanges_twoPass:
  "getGeneratedRanges this rng flt =
     twoPassSearch (sourceFileDocument this) (virtualFileDocument this) (map' this)
       SourceOffsets GeneratedOffsets rng flt"
  unfolding getGeneratedRanges_def findRanges_unfold twoPassSearch_def Let_def callApi.simps
    callApi2.simps getGeneratedPositionsBase_def findPositions_def matchGeneratedPosition_def
    offsetsOf.simps
  by (simp only:
      firstPass_positions [where pos = "positionAt (virtualFileDocument this)" and tr = "\<lambda>m.
        translateOffset (offsetAt (sourceFileDocument this) (range_end rng))
          (sourceOffsets m) (generatedOffsets m) (lengths m)"]
      secondPass_positions [where pos = "positionAt (virtualFileDocument this)" and tr = "\<lambda>m.
        translateOffset (offsetAt (sourceFileDocument this) (range_end rng))
          (sourceOffsets m) (generatedOffsets m) (lengths m)"])

text \<open>
  C1. \<open>getSourceRanges\<close> and \<open>getGeneratedRanges\<close> (through \<open>findRanges\<close>) are the
  two-pass search of the specification: first, in candidate order, for every candidate
  of \<^verbatim>\<open>range.start\<close> that passes the filter, the pair of its mapped start and of
  \<^verbatim>\<open>range.end\<close> translated again through the very mapping that produced the candidate,
  whenever that mapping translates it; then, for every candidate whose mapping failed on
  the end, its mapped start paired with every filtered candidate of \<^verbatim>\<open>range.end\<close> found
  through any mapping. The single-result queries return the first of these. On the
  disjoint segments A and B, \<open>getGeneratedRanges\<close> of \<open>[1,6)\<close> is the one range from A's
  start 1 to B's end 4, found by the second pass; on the segment \<open>[0,3) \<rightarrow> [1,4)\<close> the
  first pass gives the exact range in both directions, and nothing when the filter rejects
  the segment; on two overlapping mappings the exact range comes before the best-effort
  one.
\<close>

theorem findRanges_two_pass:
  "getSourceRanges this rng flt =
     twoPassSearch (virtualFileDocument this) (sourceFileDocument this) (map' this)
       GeneratedOffsets SourceOffsets rng flt
   \<and> getGeneratedRanges this rng flt =
     twoPassSearch (sourceFileDocument this) (virtualFileDocument this) (map' this)
       SourceOffsets GeneratedOffsets rng flt
   \<and> getSourceRange this rng flt =
     firstOf (twoPassSearch (virtualFileDocument this) (sourceFileDocument this) (map' this)
       GeneratedOffsets SourceOffsets rng flt)
   \<and> getGeneratedRange this rng flt =
     firstOf (twoPassSearch (sourceFileDocument this) (virtualFileDocument this) (map' this)
       SourceOffsets GeneratedOffsets rng flt)
   \<and> getGeneratedRanges boundaryTranslator \<lparr>range_start = at 1, range_end = at 6\<rparr> (\<lambda>_. True)
       = [\<lparr>range_start = at 1, range_end = at 4\<rparr>]
   \<and> matchGeneratedPosition boundaryTranslator (at 6) segmentA = None
   \<and> getGeneratedPositionsBase boundaryTranslator (at 1) (\<lambda>_. True) = [(at 1, segmentA)]
   \<and> getGeneratedPositionsBase boundaryTranslator (at 6) (\<lambda>_. True) = [(at 4, segmentB)]
   \<and> getGeneratedRanges linearTranslator \<lparr>range_start = at 0, range_end = at 3\<rparr> (\<lambda>_. True)
       = [\<lparr>range_start = at 1, range_end = at 4\<rparr>]
   \<and> getSourceRanges linearTranslator \<lparr>range_start = at 1, range_end = at 4\<rparr> (\<lambda>_. True)
       = [\<lparr>range_start = at 0, range_end = at 3\<rparr>]
   \<and> getGeneratedRanges linearTranslator \<lparr>range_start = at 0, range_end = at 3\<rparr> (\<lambda>_. False)
       = []
   \<and> getSourceRanges overlapTranslator \<lparr>range_start = at 1, range_end = at 3\<rparr> (\<lambda>_. True)
       = [\<lparr>range_start = at 11, range_end = at 13\<rparr>, \<lparr>range_start = at 1, range_end = at 13\<rparr>]"
proof (intro conjI)
  show "getSourceRanges this rng flt =
     twoPassSearch (virtualFileDocument this) (sourceFileDocument this) (map' this)
       GeneratedOffsets SourceOffsets rng flt"
    by (rule getSourceRanges_twoPass)
  show "getGeneratedRanges this rng flt =
     twoPassSearch (sourceFileDocument this) (virtualFileDocument this) (map' this)
       SourceOffsets GeneratedOffsets rng flt"
    by (rule getGeneratedRanges_twoPass)
  show "getSourceRange this rng flt =
     firstOf (twoPassSearch (virtualFileDocument this) (sourceFileDocument this) (map' this)
       GeneratedOffsets SourceOffsets rng flt)"
    by (simp only: getSourceRange_def getSourceRanges_twoPass)
  show "getGeneratedRange this rng flt =
     firstOf (twoPassSearch (sourceFileDocument this) (virtualFileDocument this) (map' this)
       SourceOffsets GeneratedOffsets rng flt)"
    by (simp only: getGeneratedRange_def getGeneratedRanges_twoPass)
  have pos1: "getGeneratedPositionsBase boundaryTranslator (at 1) (\<lambda>_. True) = [(at 1, segmentA)]"
    by (simp add: getGeneratedPositionsBase_def findPositions_def findMatching_def
        boundaryTranslator_def lineDocument_def at_def segmentA_def segmentB_def)
  have pos6: "getGeneratedPositionsBase boundaryTranslator (at 6) (\<lambda>_. True) = [(at 4, segmentB)]"
    by (simp add: getGeneratedPositionsBase_def findPositions_def findMatching_def
        boundaryTranslator_def lineDocument_def at_def segmentA_def segmentB_def)
  have m6: "matchGeneratedPosition boundaryTranslator (at 6) segmentA = None"
    by (simp add: matchGeneratedPosition_def boundaryTranslator_def lineDocument_def at_def
        segmentA_def)
  show "getGeneratedPositionsBase boundaryTranslator (at 1) (\<lambda>_. True) = [(at 1, segmentA)]"
    by (rule pos1)
  show "getGeneratedPositionsBase boundaryTranslator (at 6) (\<lambda>_. True) = [(at 4, segmentB)]"
    by (rule pos6)
  show "matchGeneratedPosition boundaryTranslator (at 6) segmentA = None"
    by (rule m6)
  show "getGeneratedRanges boundaryTranslator \<lparr>range_start = at 1, range_end = at 6\<rparr> (\<lambda>_. True)
       = [\<lparr>range_start = at 1, range_end = at 4\<rparr>]"
    by (simp add: getGeneratedRanges_def findRanges_def pos1 pos6 m6)
  show "getGeneratedRanges linearTranslator \<lparr>range_start = at 0, range_end = at 3\<rparr> (\<lambda>_. True)
       = [\<lparr>range_start = at 1, range_end = at 4\<rparr>]"
    by (simp add: getGeneratedRanges_twoPass twoPassSearch_def findMatching_def
        linearTranslator_def lineDocument_def at_def)
  show "getSourceRanges linearTranslator \<lparr>range_start = at 1, range_end = at 4\<rparr> (\<lambda>_. True)
       = [\<lparr>range_start = at 0, range_end = at 3\<rparr>]"
    by (simp add: getSourceRanges_twoPass twoPassSearch_def findMatching_def
        linearTranslator_def lineDocument_def at_def)
  show "getGeneratedRanges linearTranslator \<lparr>range_start = at 0, range_end = at 3\<rparr> (\<lambda>_. False)
       = []"
    by (simp add: getGeneratedRanges_twoPass twoPassSearch_def)
  show "getSourceRanges overlapTranslator \<lparr>range_start = at 1, range_end = at 3\<rparr> (\<lambda>_. True)
       = [\<lparr>range_start = at 11, range_end = at 13\<rparr>, \<lparr>range_start = at 1, range_end = at 13\<rparr>]"
    by (simp add: getSourceRanges_twoPass twoPassSearch_def findMatching_def
        overlapTranslator_def overlapMap_def lineDocument_def at_def)
qed

section \<open>The span transformations\<close>

lemma transformRangeEnds_Some:
  "transformRangeEnds sourceStart flt sourceEnds = Some r \<Longrightarrow>
     fst r = fst sourceStart \<and> fst r \<le> snd r"
  by (induction sourceEnds) (auto split: if_splits)

lemma transformRangeStarts_Some:
  "transformRangeStarts flt sourceEnds sourceStarts = Some r \<Longrightarrow> fst r \<le> snd r"
  by (induction sourceStarts) (auto split: if_splits option.splits dest: transformRangeEnds_Some)

lemma transformRange_Some:
  "transformRange sourceFile m start end' flt = Some r \<Longrightarrow> fst r \<le> snd r"
  unfolding transformRange_def by (rule transformRangeStarts_Some)

text \<open>
  C9. For a file name that is a registered generated document, every result of
  \<open>transformSpan\<close> has a span of length at least 0: \<open>transformRange\<close> returns a
  source end only if it is not below the source start it chose.
\<close>

theorem transformSpan_length_nonneg:
  "getVirtualFileAndMap files fileName \<noteq> None \<Longrightarrow>
   transformSpan files (Some fileName) (Some textSpan) flt = Some r \<Longrightarrow>
   0 \<le> span_length (fs_textSpan r)"
  by (auto simp: transformSpan_def split: if_splits option.splits dest: transformRange_Some)

lemma example_span:
  "transformSpan exampleFiles (Some ''/a.vue'') (Some \<lparr>span_start = 101, span_length = 3\<rparr>) (\<lambda>_. True)
     = Some \<lparr>fs_fileName = ''/a.vue'', fs_textSpan = \<lparr>span_start = 11, span_length = 3\<rparr>\<rparr>"
  by (simp add: transformSpan_def getVirtualFileAndMap_def exampleFiles_def exampleMap_def
      transformRange_def getSourceOffsets_def findMatching_def)

theorem transformSpan_length_nonneg_witness:
  "getVirtualFileAndMap exampleFiles ''/a.vue'' \<noteq> None
   \<and> transformSpan exampleFiles (Some ''/a.vue'') (Some \<lparr>span_start = 101, span_length = 3\<rparr>) (\<lambda>_. True)
       = Some \<lparr>fs_fileName = ''/a.vue'', fs_textSpan = \<lparr>span_start = 11, span_length = 3\<rparr>\<rparr>
   \<and> 0 \<le> span_length (fs_textSpan \<lparr>fs_fileName = ''/a.vue'', fs_textSpan = \<lparr>span_start = 11, span_length = 3\<rparr>\<rparr>)"
proof -
  have reg: "getVirtualFileAndMap exampleFiles ''/a.vue'' \<noteq> None"
    by (simp add: getVirtualFileAndMap_def exampleFiles_def)
  show ?thesis
    using reg example_span transformSpan_length_nonneg [OF reg example_span] by simp
qed

lemma map_the_filter_notEmpty:
  "map the (filter notEmpty (map f xs)) = map (\<lambda>x. the (f x)) (filter (\<lambda>x. f x \<noteq> None) xs)"
  by (induction xs) (auto simp: notEmpty_def)

text \<open>
  C7. For a batch whose file name is a registered generated document,
  \<open>transformFileTextChanges\<close> keeps exactly the edits whose span \<open>transformSpan\<close> maps,
  in their order, each with its span replaced by the mapped one and everything else of
  it, the replacement text too, as it was; the edits whose span does not map are dropped.
  For any other file name the batch is returned as it is.
\<close>

theorem transformFileTextChanges_keeps_mappable:
  "(getVirtualFileAndMap files (ftc_fileName changes) \<noteq> None \<longrightarrow>
      transformFileTextChanges files changes flt =
        changes\<lparr>textChanges :=
          map (\<lambda>c. c\<lparr>tc_span := fs_textSpan (the (transformSpan files
                       (Some (ftc_fileName changes)) (Some (tc_span c)) flt))\<rparr>)
            (filter (spanMaps files (ftc_fileName changes) flt) (textChanges changes))\<rparr>
      \<and> map newText (textChanges (transformFileTextChanges files changes flt)) =
          map newText (filter (spanMaps files (ftc_fileName changes) flt) (textChanges changes)))
   \<and> (getVirtualFileAndMap files (ftc_fileName changes) = None \<longrightarrow>
        transformFileTextChanges files changes flt = changes)"
proof -
  have each: "\<And>c. transformTextChange files (ftc_fileName changes) flt c \<noteq> None
                \<longleftrightarrow> spanMaps files (ftc_fileName changes) flt c"
    by (simp add: transformTextChange_def spanMaps_def split: option.splits)
  have the_each: "\<And>c. spanMaps files (ftc_fileName changes) flt c \<Longrightarrow>
        the (transformTextChange files (ftc_fileName changes) flt c)
          = c\<lparr>tc_span := fs_textSpan (the (transformSpan files
                       (Some (ftc_fileName changes)) (Some (tc_span c)) flt))\<rparr>"
    by (auto simp: transformTextChange_def spanMaps_def split: option.splits)
  have kept: "map the (filter notEmpty
              (map (transformTextChange files (ftc_fileName changes) flt) (textChanges changes)))
      = map (\<lambda>c. c\<lparr>tc_span := fs_textSpan (the (transformSpan files
                       (Some (ftc_fileName changes)) (Some (tc_span c)) flt))\<rparr>)
            (filter (spanMaps files (ftc_fileName changes) flt) (textChanges changes))"
    unfolding map_the_filter_notEmpty each
    by (rule map_cong) (auto simp: the_each)
  show ?thesis
    by (auto simp: transformFileTextChanges_def kept o_def split: option.splits)
qed

theorem transformFileTextChanges_keeps_mappable_witness:
  "getVirtualFileAndMap exampleFiles (ftc_fileName exampleChanges) \<noteq> None
   \<and> textChanges (transformFileTextChanges exampleFiles exampleChanges (\<lambda>verification. verification)) =
       [\<lparr>tc_span = \<lparr>span_start = 11, span_length = 3\<rparr>, newText = ''first''\<rparr>,
         \<lparr>tc_span = \<lparr>span_start = 15, span_length = 0\<rparr>, newText = ''third''\<rparr>]
   \<and> getVirtualFileAndMap exampleFiles ''/b.ts'' = None
   \<and> transformFileTextChanges exampleFiles (exampleChanges\<lparr>ftc_fileName := ''/b.ts''\<rparr>) (\<lambda>_. True)
       = exampleChanges\<lparr>ftc_fileName := ''/b.ts''\<rparr>"
proof -
  have reg: "getVirtualFileAndMap exampleFiles (ftc_fileName exampleChanges) \<noteq> None"
    by (simp add: getVirtualFileAndMap_def exampleFiles_def exampleChanges_def)
  have unreg: "getVirtualFileAndMap exampleFiles ''/b.ts'' = None"
    by (simp add: getVirtualFileAndMap_def exampleFiles_def)
  have spans: "transformSpan exampleFiles (Some ''/a.vue'') (Some \<lparr>span_start = 101, span_length = 3\<rparr>) (\<lambda>v. v)
                 = Some \<lparr>fs_fileName = ''/a.vue'', fs_textSpan = \<lparr>span_start = 11, span_length = 3\<rparr>\<rparr>"
      "transformSpan exampleFiles (Some ''/a.vue'') (Some \<lparr>span_start = 110, span_length = 2\<rparr>) (\<lambda>v. v)
                 = None"
      "transformSpan exampleFiles (Some ''/a.vue'') (Some \<lparr>span_start = 105, span_length = 0\<rparr>) (\<lambda>v. v)
                 = Some \<lparr>fs_fileName = ''/a.vue'', fs_textSpan = \<lparr>span_start = 15, span_length = 0\<rparr>\<rparr>"
    by (simp_all add: transformSpan_def getVirtualFileAndMap_def exampleFiles_def exampleMap_def
      transformRange_def getSourceOffsets_def findMatching_def)
  have a: "transformFileTextChanges exampleFiles exampleChanges (\<lambda>v. v) =
        exampleChanges\<lparr>textChanges :=
          map (\<lambda>c. c\<lparr>tc_span := fs_textSpan (the (transformSpan exampleFiles
                       (Some (ftc_fileName exampleChanges)) (Some (tc_span c)) (\<lambda>v. v)))\<rparr>)
            (filter (spanMaps exampleFiles (ftc_fileName exampleChanges) (\<lambda>v. v)) (textChanges exampleChanges))\<rparr>"
    using reg transformFileTextChanges_keeps_mappable [of exampleFiles exampleChanges "\<lambda>v. v"]
    by blast
  have b: "transformFileTextChanges exampleFiles (exampleChanges\<lparr>ftc_fileName := ''/b.ts''\<rparr>) (\<lambda>_. True)
       = exampleChanges\<lparr>ftc_fileName := ''/b.ts''\<rparr>"
    using unreg
      transformFileTextChanges_keeps_mappable [of exampleFiles "exampleChanges\<lparr>ftc_fileName := ''/b.ts''\<rparr>" "\<lambda>_. True"]
    by simp
  have c: "textChanges (transformFileTextChanges exampleFiles exampleChanges (\<lambda>v. v)) =
       [\<lparr>tc_span = \<lparr>span_start = 11, span_length = 3\<rparr>, newText = ''first''\<rparr>,
         \<lparr>tc_span = \<lparr>span_start = 15, span_length = 0\<rparr>, newText = ''third''\<rparr>]"
    unfolding a by (simp add: spanMaps_def exampleChanges_def spans)
  show ?thesis using reg unreg b c by simp
qed

text \<open>
  C6. When the primary span of a document span fails to transform,
  \<open>transformDocumentSpan\<close> returns nothing unless fallback is asked for; with fallback, and
  the file name a registered generated document, it returns the item with the primary span
  replaced by the empty span at offset 0 and each of the three optional spans replaced by
  its own transform, an optional span that fails being left out of the item.
\<close>

theorem transformDocumentSpan_primary_fails:
  "transformSpan files (Some (ds_fileName documentSpan)) (Some (ds_textSpan documentSpan)) flt = None
   \<Longrightarrow>
   (shouldFallback \<noteq> Some True \<longrightarrow>
      transformDocumentSpan files documentSpan flt shouldFallback = None)
   \<and> (shouldFallback = Some True \<and> getVirtualFileAndMap files (ds_fileName documentSpan) \<noteq> None \<longrightarrow>
      transformDocumentSpan files documentSpan flt shouldFallback =
        Some (documentSpan\<lparr>
          ds_textSpan := \<lparr>span_start = 0, span_length = 0\<rparr>,
          ds_contextSpan := map_option fs_textSpan
            (transformSpan files (Some (ds_fileName documentSpan)) (ds_contextSpan documentSpan) flt),
          ds_originalFileName := map_option fs_fileName
            (transformSpan files (ds_originalFileName documentSpan)
               (ds_originalTextSpan documentSpan) flt),
          ds_originalTextSpan := map_option fs_textSpan
            (transformSpan files (ds_originalFileName documentSpan)
               (ds_originalTextSpan documentSpan) flt),
          ds_originalContextSpan := map_option fs_textSpan
            (transformSpan files (ds_originalFileName documentSpan)
               (ds_originalContextSpan documentSpan) flt)\<rparr>))"
  by (auto simp: transformDocumentSpan_def Let_def split: option.splits)

theorem transformDocumentSpan_primary_fails_witness:
  "transformSpan exampleFiles (Some (ds_fileName exampleDocumentSpan))
      (Some (ds_textSpan exampleDocumentSpan)) (\<lambda>_. True) = None
   \<and> transformDocumentSpan exampleFiles exampleDocumentSpan (\<lambda>_. True) None = None
   \<and> transformDocumentSpan exampleFiles exampleDocumentSpan (\<lambda>_. True) (Some False) = None
   \<and> transformDocumentSpan exampleFiles exampleDocumentSpan (\<lambda>_. True) (Some True) =
       Some \<lparr>ds_textSpan = \<lparr>span_start = 0, span_length = 0\<rparr>,
             ds_fileName = ''/a.vue'',
             ds_originalTextSpan = Some \<lparr>span_start = 11, span_length = 3\<rparr>,
             ds_originalFileName = Some ''/a.vue'',
             ds_contextSpan = None,
             ds_originalContextSpan = None,
             ds_kind = ''reference''\<rparr>"
proof -
  have spans:
    "transformSpan exampleFiles (Some ''/a.vue'') (Some \<lparr>span_start = 110, span_length = 2\<rparr>) (\<lambda>_. True) = None"
    "transformSpan exampleFiles (Some ''/a.vue'') (Some \<lparr>span_start = 112, span_length = 1\<rparr>) (\<lambda>_. True) = None"
    "transformSpan exampleFiles (Some ''/a.vue'') (Some \<lparr>span_start = 7, span_length = 1\<rparr>) (\<lambda>_. True) = None"
    "transformSpan exampleFiles (Some ''/a.vue'') (Some \<lparr>span_start = 101, span_length = 3\<rparr>) (\<lambda>_. True)
       = Some \<lparr>fs_fileName = ''/a.vue'', fs_textSpan = \<lparr>span_start = 11, span_length = 3\<rparr>\<rparr>"
    by (simp_all add: transformSpan_def getVirtualFileAndMap_def exampleFiles_def exampleMap_def
      transformRange_def getSourceOffsets_def findMatching_def)
  have fails: "transformSpan exampleFiles (Some (ds_fileName exampleDocumentSpan))
      (Some (ds_textSpan exampleDocumentSpan)) (\<lambda>_. True) = None"
    by (simp add: exampleDocumentSpan_def spans)
  have reg: "getVirtualFileAndMap exampleFiles (ds_fileName exampleDocumentSpan) \<noteq> None"
    by (simp add: getVirtualFileAndMap_def exampleFiles_def exampleDocumentSpan_def)
  have a: "transformDocumentSpan exampleFiles exampleDocumentSpan (\<lambda>_. True) None = None"
    using transformDocumentSpan_primary_fails [OF fails, of None] by simp
  have b: "transformDocumentSpan exampleFiles exampleDocumentSpan (\<lambda>_. True) (Some False) = None"
    using transformDocumentSpan_primary_fails [OF fails, of "Some False"] by simp
  have c: "transformDocumentSpan exampleFiles exampleDocumentSpan (\<lambda>_. True) (Some True) =
       Some \<lparr>ds_textSpan = \<lparr>span_start = 0, span_length = 0\<rparr>,
             ds_fileName = ''/a.vue'',
             ds_originalTextSpan = Some \<lparr>span_start = 11, span_length = 3\<rparr>,
             ds_originalFileName = Some ''/a.vue'',
             ds_contextSpan = None,
             ds_originalContextSpan = None,
             ds_kind = ''reference''\<rparr>"
    using transformDocumentSpan_primary_fails [OF fails, of "Some True"] reg
    by (simp add: exampleDocumentSpan_def spans)
  show ?thesis using fails a b c by simp
qed

section \<open>Virtual code uris\<close>

lemma str_split_not_Nil: "str_split str sep \<noteq> []"
  by (induction str sep rule: str_split.induct) (auto split: list.splits)

lemma str_split_without: "\<not> str_includes str sep \<Longrightarrow> str_split str sep = [str]"
  by (induction str) auto

lemma str_includes_prefix: "prefix sep str \<Longrightarrow> str_includes str sep"
  by (cases str) auto

lemma str_includes_append: "str_includes (s @ sep @ v) sep"
  by (induction s) (auto simp: str_includes_prefix)

lemma str_split_two_pieces:
  "sep \<noteq> [] \<Longrightarrow> str_includes str sep \<Longrightarrow> 2 \<le> length (str_split str sep)"
proof (induction str)
  case Nil
  then show ?case by simp
next
  case (Cons c cs)
  show ?case
  proof (cases "prefix sep (c # cs)")
    case True
    obtain p ps where "str_split (drop (length sep) (c # cs)) sep = p # ps"
      using str_split_not_Nil by (cases "str_split (drop (length sep) (c # cs)) sep") auto
    with True Cons.prems show ?thesis by simp
  next
    case False
    with Cons have "2 \<le> length (str_split cs sep)" by simp
    with False show ?thesis by (auto split: list.splits)
  qed
qed

lemma no_straddle:
  assumes sep: "sep \<noteq> []" "hd sep \<notin> set (tl sep)"
    and s: "s \<noteq> []" "\<not> prefix sep s"
  shows "\<not> prefix sep (s @ sep @ v)"
proof
  assume p: "prefix sep (s @ sep @ v)"
  show False
  proof (cases "length sep \<le> length s")
    case True
    from p have "take (length sep) (s @ sep @ v) = sep"
      by (metis append_eq_conv_conj prefix_def)
    with True have "take (length sep) s = sep" by simp
    then have "prefix sep s" by (metis take_is_prefix)
    with s show False by simp
  next
    case False
    then have k: "length s < length sep" by simp
    from p obtain zs where zs: "s @ sep @ v = sep @ zs"
      by (auto simp: prefix_def)
    have "(sep @ zs) ! length s = sep ! length s"
      using k by (simp add: nth_append)
    moreover have "(s @ sep @ v) ! length s = hd sep"
      using sep by (simp add: nth_append hd_conv_nth)
    ultimately have "sep ! length s = hd sep"
      using zs by simp
    moreover have "sep ! length s \<in> set (tl sep)"
    proof -
      from s have "0 < length s" by simp
      then obtain j where j: "length s = Suc j" by (cases "length s") auto
      with k have "j < length (tl sep)" by simp
      moreover have "sep ! Suc j = tl sep ! j"
        using sep by (cases sep) auto
      ultimately show ?thesis using j by (metis nth_mem)
    qed
    ultimately show False using sep by simp
  qed
qed

lemma str_split_at_first:
  assumes sep: "sep \<noteq> []" "hd sep \<notin> set (tl sep)"
  shows "\<not> str_includes s sep \<Longrightarrow> str_split (s @ sep @ v) sep = s # str_split v sep"
proof (induction s)
  case Nil
  obtain c cs where c: "sep = c # cs" using sep by (cases sep) auto
  have "str_split (sep @ v) sep = [] # str_split (drop (length sep) (sep @ v)) sep"
    unfolding c by simp
  then show ?case by simp
next
  case (Cons c cs)
  then have np: "\<not> prefix sep (c # cs)" and ni: "\<not> str_includes cs sep" by auto
  have "\<not> prefix sep ((c # cs) @ sep @ v)"
    by (rule no_straddle [OF sep _ np]) simp
  with Cons.IH [OF ni] show ?case by simp
qed

text \<open>
  C10. For a source file uri and a virtual code id that do not contain
  \<^verbatim>\<open>?virtualCodeId=\<close>, the uri built by \<open>getVirtualCodeUri\<close> splits back into exactly
  the two, and \<open>getVirtualCodeByUri\<close> of it is the registry's answer for them; for a uri
  that does not contain the marker \<open>getVirtualCodeByUri\<close> is the pair of two
  \<^verbatim>\<open>undefined\<close>.
\<close>

theorem virtualCodeUri_round_trip:
  "(\<not> str_includes sourceFileUri virtualCodeIdMarker \<and>
    \<not> str_includes virtualCodeId virtualCodeIdMarker \<longrightarrow>
      str_split (getVirtualCodeUri sourceFileUri virtualCodeId) virtualCodeIdMarker
        = [sourceFileUri, virtualCodeId]
      \<and> getVirtualCodeByUri files (getVirtualCodeUri sourceFileUri virtualCodeId)
        = getVirtualCode files sourceFileUri virtualCodeId)
   \<and> (\<not> str_includes u virtualCodeIdMarker \<longrightarrow> getVirtualCodeByUri files u = (None, None))"
proof -
  have sep: "virtualCodeIdMarker \<noteq> []" "hd virtualCodeIdMarker \<notin> set (tl virtualCodeIdMarker)"
    by (simp_all add: virtualCodeIdMarker_def)
  {
    assume s: "\<not> str_includes sourceFileUri virtualCodeIdMarker"
      and v: "\<not> str_includes virtualCodeId virtualCodeIdMarker"
    have split: "str_split (getVirtualCodeUri sourceFileUri virtualCodeId) virtualCodeIdMarker
        = [sourceFileUri, virtualCodeId]"
      unfolding getVirtualCodeUri_def
      by (simp add: str_split_at_first [OF sep s] str_split_without [OF v])
    have "str_includes (getVirtualCodeUri sourceFileUri virtualCodeId) virtualCodeIdMarker"
      unfolding getVirtualCodeUri_def by (rule str_includes_append)
    then have "getVirtualCodeByUri files (getVirtualCodeUri sourceFileUri virtualCodeId)
        = getVirtualCode files sourceFileUri virtualCodeId"
      by (simp add: getVirtualCodeByUri_def split)
    note split this
  }
  then show ?thesis by (simp add: getVirtualCodeByUri_def)
qed

theorem virtualCodeUri_round_trip_witness:
  "\<not> str_includes ''file:///a.vue'' virtualCodeIdMarker
   \<and> \<not> str_includes ''script_ts'' virtualCodeIdMarker
   \<and> getVirtualCodeUri ''file:///a.vue'' ''script_ts'' = ''file:///a.vue?virtualCodeId=script_ts''
   \<and> getVirtualCodeByUri exampleFiles ''file:///a.vue?virtualCodeId=script_ts''
       = (Some \<lparr>codeId = ''script_ts''\<rparr>, Some \<lparr>snapshotLength = 100\<rparr>)
   \<and> getVirtualCodeByUri exampleFiles ''file:///a.vue'' = (None, None)"
proof -
  have s: "\<not> str_includes ''file:///a.vue'' virtualCodeIdMarker"
    by (simp add: virtualCodeIdMarker_def)
  have v: "\<not> str_includes ''script_ts'' virtualCodeIdMarker"
    by (simp add: virtualCodeIdMarker_def)
  have u: "getVirtualCodeUri ''file:///a.vue'' ''script_ts'' = ''file:///a.vue?virtualCodeId=script_ts''"
    by (simp add: getVirtualCodeUri_def virtualCodeIdMarker_def)
  have g: "getVirtualCode exampleFiles ''file:///a.vue'' ''script_ts''
            = (Some \<lparr>codeId = ''script_ts''\<rparr>, Some \<lparr>snapshotLength = 100\<rparr>)"
    by (simp add: exampleFiles_def)
  show ?thesis
    using s v g
      virtualCodeUri_round_trip [of "''file:///a.vue''" "''script_ts''" exampleFiles "''file:///a.vue''"]
    by (simp add: u)
qed

section \<open>The document store\<close>

lemma get_hit:
  "lookupDoc st (snapshotId snapshot) u = Some r \<Longrightarrow> get lib u lang snapshot st = (r, st)"
  by (auto simp: get_def lookupDoc_def Let_def split: option.splits)

lemma get_miss_eq:
  "lookupDoc st (snapshotId snapshot) u = None \<Longrightarrow>
   get lib u lang snapshot st =
     (length (documentStore st),
      st\<lparr>snapshot2Doc := (snapshot2Doc st)(snapshotId snapshot \<mapsto>
            (case snapshot2Doc st (snapshotId snapshot) of None \<Rightarrow> Map.empty | Some m \<Rightarrow> m)
              (u \<mapsto> length (documentStore st))),
         documentStore := documentStore st @
           [createTextDocument lib u lang (versionCounter st) (snapshotText snapshot)],
         versionCounter := versionCounter st + 1,
         getTextCalls := getTextCalls st @ [(u, snapshotId snapshot)]\<rparr>)"
  by (auto simp: get_def lookupDoc_def Let_def split: option.splits)

lemma get_miss:
  assumes "lookupDoc st (snapshotId snapshot) u = None"
    and "get lib u lang snapshot st = (r, st')"
  shows "r = length (documentStore st)"
    and "lookupDoc st' = (\<lambda>sid' u'. if sid' = snapshotId snapshot \<and> u' = u then Some r
                                     else lookupDoc st sid' u')"
    and "documentStore st' = documentStore st @
           [createTextDocument lib u lang (versionCounter st) (snapshotText snapshot)]"
    and "getTextCalls st' = getTextCalls st @ [(u, snapshotId snapshot)]"
    and "versionCounter st' = versionCounter st + 1"
proof -
  note e = assms(2) [unfolded get_miss_eq [OF assms(1)]]
  from e show "r = length (documentStore st)" by simp
  from e show "documentStore st' = documentStore st @
           [createTextDocument lib u lang (versionCounter st) (snapshotText snapshot)]" by auto
  from e show "getTextCalls st' = getTextCalls st @ [(u, snapshotId snapshot)]" by auto
  from e show "versionCounter st' = versionCounter st + 1" by auto
  from e have "snapshot2Doc st' = (snapshot2Doc st)(snapshotId snapshot \<mapsto>
            (case snapshot2Doc st (snapshotId snapshot) of None \<Rightarrow> Map.empty | Some m \<Rightarrow> m)
              (u \<mapsto> r))" by auto
  then show "lookupDoc st' = (\<lambda>sid' u'. if sid' = snapshotId snapshot \<and> u' = u then Some r
                                     else lookupDoc st sid' u')"
    by (auto simp: lookupDoc_def fun_eq_iff split: option.splits)
qed

lemma get_inv:
  assumes inv: "providerInv st" and g: "get lib u lang snapshot st = (r, st')"
  shows "providerInv st'"
    and "lookupDoc st' (snapshotId snapshot) u = Some r"
    and "lookupDoc st sid' u' = Some r' \<Longrightarrow> lookupDoc st' sid' u' = Some r'"
    and "lookupDoc st' sid' u' \<noteq> None \<longleftrightarrow>
           lookupDoc st sid' u' \<noteq> None \<or> (u', sid') = (u, snapshotId snapshot)"
proof -
  show "providerInv st'"
  proof (cases "lookupDoc st (snapshotId snapshot) u")
    case None
    note m = get_miss [OF None g]
    from inv show ?thesis
      unfolding providerInv_def m by (auto simp: None split: if_splits) fastforce+
  next
    case (Some x)
    with g inv show ?thesis by (simp add: get_hit)
  qed
  show "lookupDoc st' (snapshotId snapshot) u = Some r"
  proof (cases "lookupDoc st (snapshotId snapshot) u")
    case None
    show ?thesis by (simp add: get_miss(2) [OF None g])
  next
    case (Some x)
    with g show ?thesis by (simp add: get_hit)
  qed
  show "lookupDoc st sid' u' = Some r' \<Longrightarrow> lookupDoc st' sid' u' = Some r'"
  proof (cases "lookupDoc st (snapshotId snapshot) u")
    case None
    assume "lookupDoc st sid' u' = Some r'"
    with None show ?thesis by (auto simp: get_miss(2) [OF None g])
  next
    case (Some x)
    assume "lookupDoc st sid' u' = Some r'"
    with Some g show ?thesis by (simp add: get_hit)
  qed
  show "lookupDoc st' sid' u' \<noteq> None \<longleftrightarrow>
           lookupDoc st sid' u' \<noteq> None \<or> (u', sid') = (u, snapshotId snapshot)"
  proof (cases "lookupDoc st (snapshotId snapshot) u")
    case None
    show ?thesis by (auto simp: get_miss(2) [OF None g])
  next
    case (Some x)
    with g show ?thesis by (auto simp: get_hit)
  qed
qed

lemma getAll_inv:
  "providerInv st \<Longrightarrow> getAll lib calls st = (docs, st') \<Longrightarrow>
     providerInv st'
     \<and> map (\<lambda>call. lookupDoc st' (snd (callKey call)) (fst (callKey call))) calls = map Some docs
     \<and> (\<forall>sid u r. lookupDoc st sid u = Some r \<longrightarrow> lookupDoc st' sid u = Some r)
     \<and> (\<forall>sid u. lookupDoc st' sid u \<noteq> None \<longleftrightarrow>
           lookupDoc st sid u \<noteq> None \<or> (u, sid) \<in> callKey ` set calls)"
proof (induction calls arbitrary: st docs st')
  case Nil
  then show ?case by simp
next
  case (Cons call calls)
  obtain u lang snapshot where call: "call = (u, lang, snapshot)" by (cases call) auto
  obtain r st1 where g: "get lib u lang snapshot st = (r, st1)" by (cases "get lib u lang snapshot st")
  obtain rs st2 where ga: "getAll lib calls st1 = (rs, st2)" by (cases "getAll lib calls st1")
  from Cons.prems(2) have res: "docs = r # rs" "st' = st2"
    by (simp_all add: call g ga)
  note i1 = get_inv [OF Cons.prems(1) g]
  from Cons.IH [OF i1(1) ga]
  have ih: "providerInv st2"
    "map (\<lambda>call. lookupDoc st2 (snd (callKey call)) (fst (callKey call))) calls = map Some rs"
    "\<And>sid u r. lookupDoc st1 sid u = Some r \<Longrightarrow> lookupDoc st2 sid u = Some r"
    "\<And>sid u. lookupDoc st2 sid u \<noteq> None \<longleftrightarrow>
           lookupDoc st1 sid u \<noteq> None \<or> (u, sid) \<in> callKey ` set calls"
    by blast+
  have head: "lookupDoc st2 (snapshotId snapshot) u = Some r"
    by (rule ih(3) [OF i1(2)])
  have mono: "\<forall>sid u r. lookupDoc st sid u = Some r \<longrightarrow> lookupDoc st2 sid u = Some r"
    using i1(3) ih(3) by blast
  have dom: "\<forall>sid u'. lookupDoc st2 sid u' \<noteq> None \<longleftrightarrow>
           lookupDoc st sid u' \<noteq> None \<or> (u', sid) \<in> callKey ` set (call # calls)"
    using i1(4) ih(4) by (auto simp: call callKey_def)
  show ?case
    unfolding res using ih(1) ih(2) head mono dom by (simp add: call callKey_def)
qed

lemma providerInv_initial: "providerInv createDocumentProvider"
  by (simp add: providerInv_def createDocumentProvider_def lookupDoc_def)

text \<open>
  C5. Over any sequence of calls of \<open>get\<close> on a new provider, two calls return the same
  document reference exactly when they have the same uri and the same snapshot identity,
  whatever the texts of the snapshots are; every reference returned is a document of the
  store; and \<^verbatim>\<open>snapshot.getText\<close> has been called exactly once for every pair
  \<open>(uri, snapshot)\<close> that was asked for, and never for another pair.
\<close>

theorem get_keyed_by_snapshot_identity:
  "getAll lib calls createDocumentProvider = (docs, st) \<Longrightarrow>
     length docs = length calls
     \<and> (\<forall>i < length calls. \<forall>j < length calls.
          (docs ! i = docs ! j) = (callKey (calls ! i) = callKey (calls ! j)))
     \<and> (\<forall>i < length calls. docs ! i < length (documentStore st))
     \<and> (\<forall>k. count_list (getTextCalls st) k = (if k \<in> callKey ` set calls then 1 else 0))"
proof -
  assume run: "getAll lib calls createDocumentProvider = (docs, st)"
  note r = getAll_inv [OF providerInv_initial run]
  from r have inv: "providerInv st" by blast
  from r have m: "map (\<lambda>call. lookupDoc st (snd (callKey call)) (fst (callKey call))) calls
      = map Some docs" by blast
  from r have dom: "\<And>sid u. lookupDoc st sid u \<noteq> None \<longleftrightarrow> (u, sid) \<in> callKey ` set calls"
    by (simp add: createDocumentProvider_def lookupDoc_def)
  from m have len: "length docs = length calls"
    by (metis length_map)
  have at: "lookupDoc st (snd (callKey (calls ! i))) (fst (callKey (calls ! i))) = Some (docs ! i)"
    if "i < length calls" for i
  proof -
    have "map (\<lambda>call. lookupDoc st (snd (callKey call)) (fst (callKey call))) calls ! i
        = map Some docs ! i" by (simp only: m)
    with that len show ?thesis by simp
  qed
  have same: "(docs ! i = docs ! j) = (callKey (calls ! i) = callKey (calls ! j))"
    if "i < length calls" "j < length calls" for i j
  proof
    assume "docs ! i = docs ! j"
    with at [OF that(1)] at [OF that(2)] inv
    have "snd (callKey (calls ! i)) = snd (callKey (calls ! j))
        \<and> fst (callKey (calls ! i)) = fst (callKey (calls ! j))"
      unfolding providerInv_def by metis
    then show "callKey (calls ! i) = callKey (calls ! j)"
      by (simp add: prod_eq_iff)
  next
    assume "callKey (calls ! i) = callKey (calls ! j)"
    with at [OF that(1)] at [OF that(2)] show "docs ! i = docs ! j" by simp
  qed
  have bound: "docs ! i < length (documentStore st)" if "i < length calls" for i
    using at [OF that] inv unfolding providerInv_def by blast
  have cnt: "count_list (getTextCalls st) k = (if k \<in> callKey ` set calls then 1 else 0)" for k
  proof -
    obtain u sid where k: "k = (u, sid)" by (cases k)
    from inv have "count_list (getTextCalls st) (u, sid) = (if lookupDoc st sid u = None then 0 else 1)"
      unfolding providerInv_def by blast
    with dom [of sid u] show ?thesis unfolding k by auto
  qed
  show ?thesis using len same bound cnt by blast
qed

lemma exampleCalls_run:
  "fst (getAll lineLibrary exampleCalls createDocumentProvider) = [0, 1, 0]"
  "getTextCalls (snd (getAll lineLibrary exampleCalls createDocumentProvider))
     = [(''file:///a.ts'', 1), (''file:///a.ts'', 2)]"
  by (simp_all add: exampleCalls_def createDocumentProvider_def get_def Let_def)

theorem get_keyed_by_snapshot_identity_witness:
  "fst (getAll lineLibrary exampleCalls createDocumentProvider) = [0, 1, 0]
   \<and> callKey (exampleCalls ! 0) \<noteq> callKey (exampleCalls ! 1)
   \<and> callKey (exampleCalls ! 0) = callKey (exampleCalls ! 2)
   \<and> count_list (getTextCalls (snd (getAll lineLibrary exampleCalls createDocumentProvider)))
        (''file:///a.ts'', 1) = 1
   \<and> count_list (getTextCalls (snd (getAll lineLibrary exampleCalls createDocumentProvider)))
        (''file:///a.ts'', 3) = 0"
proof -
  have run: "getAll lineLibrary exampleCalls createDocumentProvider =
      (fst (getAll lineLibrary exampleCalls createDocumentProvider),
       snd (getAll lineLibrary exampleCalls createDocumentProvider))" by simp
  note t = get_keyed_by_snapshot_identity [OF run]
  have keys: "callKey (exampleCalls ! 0) \<noteq> callKey (exampleCalls ! 1)"
    "callKey (exampleCalls ! 0) = callKey (exampleCalls ! 2)"
    "(''file:///a.ts'', 1) \<in> callKey ` set exampleCalls"
    "(''file:///a.ts'', 3) \<notin> callKey ` set exampleCalls"
    by (simp_all add: exampleCalls_def callKey_def)
  from t have "\<And>k. count_list (getTextCalls (snd (getAll lineLibrary exampleCalls createDocumentProvider))) k
     = (if k \<in> callKey ` set exampleCalls then 1 else 0)" by blast
  with keys exampleCalls_run(1) show ?thesis by simp
qed

section \<open>The resolution rule of transformSpan\<close>

text \<open>
  C2, as stated, fails. On two overlapping mappings the pipeline's \<open>transformRange\<close>
  pairs the start found through the first mapping with the end found through the second
  one, where the translator's \<open>getSourceRange\<close> yields first the range that one mapping
  translates at both ends.
\<close>

theorem transformRange_is_not_getSourceRange:
  "transformSpan overlapFiles (Some ''/b.vue'') (Some \<lparr>span_start = 21, span_length = 2\<rparr>) (\<lambda>_. True)
     = Some \<lparr>fs_fileName = ''/b.vue'', fs_textSpan = \<lparr>span_start = 1, span_length = 12\<rparr>\<rparr>
   \<and> transformRange overlapSourceFile overlapMap 21 23 (\<lambda>_. True) = Some (1, 13)
   \<and> getSourceRange overlapTranslator
         \<lparr>range_start = positionAt (virtualFileDocument overlapTranslator) (21 - 20),
          range_end = positionAt (virtualFileDocument overlapTranslator) (23 - 20)\<rparr> (\<lambda>_. True)
       = Some \<lparr>range_start = positionAt (sourceFileDocument overlapTranslator) 11,
               range_end = positionAt (sourceFileDocument overlapTranslator) 13\<rparr>
   \<and> positionAt (sourceFileDocument overlapTranslator) 11
       \<noteq> positionAt (sourceFileDocument overlapTranslator) 1"
  by (simp add: transformSpan_def getVirtualFileAndMap_def overlapFiles_def overlapMap_def
      overlapSourceFile_def transformRange_def getSourceOffsets_def findMatching_def
      getSourceRange_def getSourceRanges_def findRanges_def getSourcePositionsBase_def
      findPositions_def matchSourcePosition_def overlapTranslator_def lineDocument_def)

lemma firstOf_append:
  "firstOf (xs @ ys) = (case firstOf xs of Some x \<Rightarrow> Some x | None \<Rightarrow> firstOf ys)"
  by (cases xs) auto

lemma transformRangeEnds_eq:
  "transformRangeEnds sourceStart flt sourceEnds =
     firstOf [(fst sourceStart, fst e). e \<leftarrow> sourceEnds,
                fst e \<ge> fst sourceStart \<and> flt (data (snd e))]"
  by (induction sourceEnds) auto

lemma transformRangeStarts_eq:
  "transformRangeStarts flt sourceEnds sourceStarts =
     firstOf [(fst s, fst e). s \<leftarrow> sourceStarts, flt (data (snd s)),
                e \<leftarrow> sourceEnds, fst e \<ge> fst s \<and> flt (data (snd e))]"
  by (induction sourceStarts) (auto simp: firstOf_append transformRangeEnds_eq split: option.splits)

lemma transformRangeEnds_filter:
  "transformRangeEnds sourceStart flt (filter (\<lambda>c. flt (data (snd c))) sourceEnds)
     = transformRangeEnds sourceStart flt sourceEnds"
  by (induction sourceEnds) auto

lemma transformRangeStarts_filter:
  "transformRangeStarts flt (filter (\<lambda>c. flt (data (snd c))) sourceEnds)
       (filter (\<lambda>c. flt (data (snd c))) sourceStarts)
     = transformRangeStarts flt sourceEnds sourceStarts"
  by (induction sourceStarts) (auto simp: transformRangeEnds_filter split: option.splits)

lemma transformRange_candidates:
  "transformRange sourceFile m start end' flt =
     transformRangeStarts flt
       (sourceCandidates m flt (end' - snapshotLength sourceFile))
       (sourceCandidates m flt (start - snapshotLength sourceFile))"
  by (simp add: transformRange_def sourceCandidates_def transformRangeStarts_filter)

lemma translateOffset_candidate:
  "mp \<in> set (mappings sm) \<Longrightarrow>
   translateOffset x (offsetsOf fromKey mp) (offsetsOf toKey mp) (lengths mp) = Some y \<Longrightarrow>
   (y, mp) \<in> set (findMatching sm x fromKey toKey)"
  by (auto simp: findMatching_def split: option.splits)

lemma findMatching_mapping:
  "c \<in> set (findMatching sm offset fromKey toKey) \<Longrightarrow> snd c \<in> set (mappings sm)"
  by (auto simp: findMatching_def split: option.splits)

lemma getSourceRanges_candidates:
  assumes p: "offsetAt (virtualFileDocument this) p = x"
    and q: "offsetAt (virtualFileDocument this) q = y"
  shows "getSourceRanges this \<lparr>range_start = p, range_end = q\<rparr> flt =
     concat (map (\<lambda>c. case translateOffset y (generatedOffsets (snd c)) (sourceOffsets (snd c))
                            (lengths (snd c)) of
                     Some mappedEnd \<Rightarrow>
                       [\<lparr>range_start = positionAt (sourceFileDocument this) (fst c),
                         range_end = positionAt (sourceFileDocument this) mappedEnd\<rparr>]
                   | None \<Rightarrow> [])
           (sourceCandidates (map' this) flt x))
     @ concat (map (\<lambda>failed.
                map (\<lambda>c. \<lparr>range_start = positionAt (sourceFileDocument this) (fst failed),
                           range_end = positionAt (sourceFileDocument this) (fst c)\<rparr>)
                  (sourceCandidates (map' this) flt y))
             (filter (\<lambda>c. translateOffset y (generatedOffsets (snd c)) (sourceOffsets (snd c))
                            (lengths (snd c)) = None)
                (sourceCandidates (map' this) flt x)))"
  by (simp add: getSourceRanges_twoPass twoPassSearch_def sourceCandidates_def
      getSourceOffsets_def p q)

lemma one_candidate_agrees:
  assumes s1: "length (sourceCandidates (map' this) flt (start - snapshotLength sourceFile)) \<le> 1"
    and e1: "length (sourceCandidates (map' this) flt (end' - snapshotLength sourceFile)) \<le> 1"
    and p: "offsetAt (virtualFileDocument this) p = start - snapshotLength sourceFile"
    and q: "offsetAt (virtualFileDocument this) q = end' - snapshotLength sourceFile"
  shows "transformRange sourceFile (map' this) start end' flt = Some found \<Longrightarrow>
         getSourceRange this \<lparr>range_start = p, range_end = q\<rparr> flt =
           Some \<lparr>range_start = positionAt (sourceFileDocument this) (fst found),
                 range_end = positionAt (sourceFileDocument this) (snd found)\<rparr>"
    and "transformRange sourceFile (map' this) start end' flt = None \<Longrightarrow>
         getSourceRange this \<lparr>range_start = p, range_end = q\<rparr> flt = None
         \<or> (sourceCandidates (map' this) flt (start - snapshotLength sourceFile) \<noteq> []
            \<and> sourceCandidates (map' this) flt (end' - snapshotLength sourceFile) \<noteq> []
            \<and> fst (hd (sourceCandidates (map' this) flt (end' - snapshotLength sourceFile)))
                < fst (hd (sourceCandidates (map' this) flt (start - snapshotLength sourceFile))))"
proof -
  let ?S = "sourceCandidates (map' this) flt (start - snapshotLength sourceFile)"
  let ?E = "sourceCandidates (map' this) flt (end' - snapshotLength sourceFile)"
  let ?y = "end' - snapshotLength sourceFile"
  let ?via = "\<lambda>c. translateOffset ?y (generatedOffsets (snd c)) (sourceOffsets (snd c)) (lengths (snd c))"
  note gr = getSourceRanges_candidates [OF p q, of flt]
  note tr = transformRange_candidates [of sourceFile "map' this" start end' flt]
  have via: "?E = [(e, snd cs)]" if "cs \<in> set ?S" "?via cs = Some e" for cs e
  proof -
    from that(1) have m: "snd cs \<in> set (mappings (map' this))" and f: "flt (data (snd cs))"
      by (auto simp: sourceCandidates_def getSourceOffsets_def dest: findMatching_mapping)
    from translateOffset_candidate [OF m, of ?y GeneratedOffsets SourceOffsets e] that(2)
    have "(e, snd cs) \<in> set (findMatching (map' this) ?y GeneratedOffsets SourceOffsets)"
      by simp
    with f have "(e, snd cs) \<in> set ?E"
      by (simp add: sourceCandidates_def getSourceOffsets_def)
    with e1 show ?thesis by (cases ?E) auto
  qed
  have viaNone: "?via cs = None" if "cs \<in> set ?S" "?E = []" for cs
  proof (cases "?via cs")
    case (Some e)
    from via [OF that(1) Some] that(2) show ?thesis by simp
  qed simp
  {
    assume t: "transformRange sourceFile (map' this) start end' flt = Some found"
    from t tr s1 obtain cs where S: "?S = [cs]"
      by (cases ?S) auto
    from t tr S e1 obtain ce where E: "?E = [ce]"
      by (cases ?E) (auto split: if_splits)
    from t tr S E have found: "found = (fst cs, fst ce)"
      by (auto split: if_splits)
    show "getSourceRange this \<lparr>range_start = p, range_end = q\<rparr> flt =
           Some \<lparr>range_start = positionAt (sourceFileDocument this) (fst found),
                 range_end = positionAt (sourceFileDocument this) (snd found)\<rparr>"
    proof (cases "?via cs")
      case None
      then show ?thesis
        by (simp add: getSourceRange_def gr S E found)
    next
      case (Some e)
      from via [of cs e] S Some E have "ce = (e, snd cs)" by simp
      with Some show ?thesis
        by (simp add: getSourceRange_def gr S E found)
    qed
  }
  {
    assume t: "transformRange sourceFile (map' this) start end' flt = None"
    show "getSourceRange this \<lparr>range_start = p, range_end = q\<rparr> flt = None
         \<or> (?S \<noteq> [] \<and> ?E \<noteq> [] \<and> fst (hd ?E) < fst (hd ?S))"
    proof (cases ?S)
      case Nil
      then show ?thesis by (simp add: getSourceRange_def gr)
    next
      case (Cons cs rest)
      with s1 have S: "?S = [cs]" by simp
      show ?thesis
      proof (cases ?E)
        case Nil
        with viaNone [of cs] S have "?via cs = None" by simp
        with Nil S show ?thesis by (simp add: getSourceRange_def gr)
      next
        case (Cons ce rest')
        with e1 have E: "?E = [ce]" by simp
        have "flt (data (snd cs))" "flt (data (snd ce))"
          using S E by (auto simp: sourceCandidates_def filter_eq_Cons_iff)
        with t tr S E have "fst ce < fst cs" by (auto split: if_splits)
        with S E show ?thesis by simp
      qed
    qed
  }
qed

text \<open>
  C2, amended. \<open>transformSpan\<close> returns nothing for a file name that is undefined or
  empty and for an undefined span; for any other file name that is not a registered
  generated document it returns the span as it is; otherwise it returns the offsets
  \<open>transformRange\<close> finds, the length being their difference. \<open>transformRange\<close> does
  not run the translator's range search: with the length of the source snapshot taken
  off both offsets, it returns the first pair, in candidate order, of a filtered source
  candidate of the start and a filtered source candidate of the end, from any mapping,
  that is not below it. Whenever each of the two generated offsets has at most one
  filtered source candidate (no two mappings claim it), a pair \<open>transformRange\<close> returns
  is the first result of \<open>getSourceRange\<close> for the corresponding range under the same
  filter; and when \<open>transformRange\<close> returns nothing, \<open>getSourceRange\<close> has no result
  either, unless the end is mapped below the start.
\<close>

theorem transformSpan_resolution:
  "(fileName = None \<or> fileName = Some [] \<or> textSpan = None \<longrightarrow>
      transformSpan files fileName textSpan flt = None)
   \<and> (name \<noteq> [] \<and> getVirtualFileAndMap files name = None \<longrightarrow>
        transformSpan files (Some name) (Some span) flt
          = Some \<lparr>fs_fileName = name, fs_textSpan = span\<rparr>)
   \<and> (name \<noteq> [] \<and> getVirtualFileAndMap files name = Some (virtualFile, sourceFile, m) \<longrightarrow>
        transformSpan files (Some name) (Some span) flt
          = map_option (\<lambda>r. \<lparr>fs_fileName = name,
                fs_textSpan = \<lparr>span_start = fst r, span_length = snd r - fst r\<rparr>\<rparr>)
              (transformRange sourceFile m (span_start span) (span_start span + span_length span) flt))
   \<and> transformRange sourceFile m start end' flt =
        firstOf [(fst s, fst e).
                   s \<leftarrow> getSourceOffsets m (start - snapshotLength sourceFile), flt (data (snd s)),
                   e \<leftarrow> getSourceOffsets m (end' - snapshotLength sourceFile),
                   fst e \<ge> fst s \<and> flt (data (snd e))]
   \<and> (length (sourceCandidates (map' this) flt (start - snapshotLength sourceFile)) \<le> 1
        \<and> length (sourceCandidates (map' this) flt (end' - snapshotLength sourceFile)) \<le> 1
        \<and> offsetAt (virtualFileDocument this) p = start - snapshotLength sourceFile
        \<and> offsetAt (virtualFileDocument this) q = end' - snapshotLength sourceFile \<longrightarrow>
        (transformRange sourceFile (map' this) start end' flt = Some found \<longrightarrow>
           getSourceRange this \<lparr>range_start = p, range_end = q\<rparr> flt =
             Some \<lparr>range_start = positionAt (sourceFileDocument this) (fst found),
                   range_end = positionAt (sourceFileDocument this) (snd found)\<rparr>)
        \<and> (transformRange sourceFile (map' this) start end' flt = None \<longrightarrow>
           getSourceRange this \<lparr>range_start = p, range_end = q\<rparr> flt = None
           \<or> (sourceCandidates (map' this) flt (start - snapshotLength sourceFile) \<noteq> []
              \<and> sourceCandidates (map' this) flt (end' - snapshotLength sourceFile) \<noteq> []
              \<and> fst (hd (sourceCandidates (map' this) flt (end' - snapshotLength sourceFile)))
                  < fst (hd (sourceCandidates (map' this) flt (start - snapshotLength sourceFile))))))"
proof (intro conjI)
  show "fileName = None \<or> fileName = Some [] \<or> textSpan = None \<longrightarrow>
      transformSpan files fileName textSpan flt = None"
    by (auto simp: transformSpan_def split: option.splits)
  show "name \<noteq> [] \<and> getVirtualFileAndMap files name = None \<longrightarrow>
        transformSpan files (Some name) (Some span) flt
          = Some \<lparr>fs_fileName = name, fs_textSpan = span\<rparr>"
    by (simp add: transformSpan_def)
  show "name \<noteq> [] \<and> getVirtualFileAndMap files name = Some (virtualFile, sourceFile, m) \<longrightarrow>
        transformSpan files (Some name) (Some span) flt
          = map_option (\<lambda>r. \<lparr>fs_fileName = name,
                fs_textSpan = \<lparr>span_start = fst r, span_length = snd r - fst r\<rparr>\<rparr>)
              (transformRange sourceFile m (span_start span) (span_start span + span_length span) flt)"
    by (simp add: transformSpan_def split: option.splits)
  show "transformRange sourceFile m start end' flt =
        firstOf [(fst s, fst e).
                   s \<leftarrow> getSourceOffsets m (start - snapshotLength sourceFile), flt (data (snd s)),
                   e \<leftarrow> getSourceOffsets m (end' - snapshotLength sourceFile),
                   fst e \<ge> fst s \<and> flt (data (snd e))]"
    by (simp add: transformRange_def transformRangeStarts_eq)
  show "length (sourceCandidates (map' this) flt (start - snapshotLength sourceFile)) \<le> 1
        \<and> length (sourceCandidates (map' this) flt (end' - snapshotLength sourceFile)) \<le> 1
        \<and> offsetAt (virtualFileDocument this) p = start - snapshotLength sourceFile
        \<and> offsetAt (virtualFileDocument this) q = end' - snapshotLength sourceFile \<longrightarrow>
        (transformRange sourceFile (map' this) start end' flt = Some found \<longrightarrow>
           getSourceRange this \<lparr>range_start = p, range_end = q\<rparr> flt =
             Some \<lparr>range_start = positionAt (sourceFileDocument this) (fst found),
                   range_end = positionAt (sourceFileDocument this) (snd found)\<rparr>)
        \<and> (transformRange sourceFile (map' this) start end' flt = None \<longrightarrow>
           getSourceRange this \<lparr>range_start = p, range_end = q\<rparr> flt = None
           \<or> (sourceCandidates (map' this) flt (start - snapshotLength sourceFile) \<noteq> []
              \<and> sourceCandidates (map' this) flt (end' - snapshotLength sourceFile) \<noteq> []
              \<and> fst (hd (sourceCandidates (map' this) flt (end' - snapshotLength sourceFile)))
                  < fst (hd (sourceCandidates (map' this) flt (start - snapshotLength sourceFile)))))"
    using one_candidate_agrees(1) [of this flt start sourceFile end' p q found]
      one_candidate_agrees(2) [of this flt start sourceFile end' p q]
    by blast
qed

theorem transformSpan_resolution_witness:
  "transformSpan exampleFiles None (Some \<lparr>span_start = 101, span_length = 3\<rparr>) (\<lambda>_. True) = None
   \<and> transformSpan exampleFiles (Some []) (Some \<lparr>span_start = 101, span_length = 3\<rparr>) (\<lambda>_. True) = None
   \<and> getVirtualFileAndMap exampleFiles ''/b.ts'' = None
   \<and> transformSpan exampleFiles (Some ''/b.ts'') (Some \<lparr>span_start = 101, span_length = 3\<rparr>) (\<lambda>_. True)
       = Some \<lparr>fs_fileName = ''/b.ts'', fs_textSpan = \<lparr>span_start = 101, span_length = 3\<rparr>\<rparr>
   \<and> getVirtualFileAndMap exampleFiles ''/a.vue''
       = Some (\<lparr>codeId = ''script_ts''\<rparr>, \<lparr>snapshotLength = 100\<rparr>, exampleMap)
   \<and> transformSpan exampleFiles (Some ''/a.vue'') (Some \<lparr>span_start = 101, span_length = 3\<rparr>) (\<lambda>_. True)
       = Some \<lparr>fs_fileName = ''/a.vue'', fs_textSpan = \<lparr>span_start = 11, span_length = 3\<rparr>\<rparr>
   \<and> mappings (map' boundaryTranslator) = [segmentA, segmentB]
   \<and> sourceCandidates (map' boundaryTranslator) (\<lambda>_. True) (11 - 10) = [(1, segmentA)]
   \<and> sourceCandidates (map' boundaryTranslator) (\<lambda>_. True) (14 - 10) = [(6, segmentB)]
   \<and> transformRange \<lparr>snapshotLength = 10\<rparr> (map' boundaryTranslator) 11 14 (\<lambda>_. True) = Some (1, 6)
   \<and> getSourceRange boundaryTranslator \<lparr>range_start = at 1, range_end = at 4\<rparr> (\<lambda>_. True)
       = Some \<lparr>range_start = at 1, range_end = at 6\<rparr>
   \<and> transformRange \<lparr>snapshotLength = 20\<rparr> (map' invertedTranslator) 21 26 (\<lambda>_. True) = None
   \<and> getSourceRange invertedTranslator \<lparr>range_start = at 1, range_end = at 6\<rparr> (\<lambda>_. True)
       = Some \<lparr>range_start = at 11, range_end = at 1\<rparr>
   \<and> fst (hd (sourceCandidates (map' invertedTranslator) (\<lambda>_. True) (26 - 20)))
       < fst (hd (sourceCandidates (map' invertedTranslator) (\<lambda>_. True) (21 - 20)))"
proof -
  have unreg: "getVirtualFileAndMap exampleFiles ''/b.ts'' = None"
    by (simp add: getVirtualFileAndMap_def exampleFiles_def)
  have reg: "getVirtualFileAndMap exampleFiles ''/a.vue''
       = Some (\<lparr>codeId = ''script_ts''\<rparr>, \<lparr>snapshotLength = 100\<rparr>, exampleMap)"
    by (simp add: getVirtualFileAndMap_def exampleFiles_def)
  have range: "transformRange \<lparr>snapshotLength = 100\<rparr> exampleMap 101 104 (\<lambda>_. True) = Some (11, 14)"
    by (simp add: transformRange_def getSourceOffsets_def findMatching_def exampleMap_def)
  have ab: "mappings (map' boundaryTranslator) = [segmentA, segmentB]"
    "sourceCandidates (map' boundaryTranslator) (\<lambda>_. True) (11 - 10) = [(1, segmentA)]"
    "sourceCandidates (map' boundaryTranslator) (\<lambda>_. True) (14 - 10) = [(6, segmentB)]"
    "transformRange \<lparr>snapshotLength = 10\<rparr> (map' boundaryTranslator) 11 14 (\<lambda>_. True) = Some (1, 6)"
    "offsetAt (virtualFileDocument boundaryTranslator) (at 1) = 11 - snapshotLength \<lparr>snapshotLength = 10\<rparr>"
    "offsetAt (virtualFileDocument boundaryTranslator) (at 4) = 14 - snapshotLength \<lparr>snapshotLength = 10\<rparr>"
    "positionAt (sourceFileDocument boundaryTranslator) 1 = at 1"
    "positionAt (sourceFileDocument boundaryTranslator) 6 = at 6"
    by (simp_all add: boundaryTranslator_def sourceCandidates_def transformRange_def
        getSourceOffsets_def findMatching_def lineDocument_def at_def segmentA_def segmentB_def)
  have inv: "sourceCandidates (map' invertedTranslator) (\<lambda>_. True) (21 - 20)
      = [(11, \<lparr>sourceOffsets = [10, 0], generatedOffsets = [0, 5], lengths = [2, 2], data = True\<rparr>)]"
    "sourceCandidates (map' invertedTranslator) (\<lambda>_. True) (26 - 20)
      = [(1, \<lparr>sourceOffsets = [10, 0], generatedOffsets = [0, 5], lengths = [2, 2], data = True\<rparr>)]"
    "transformRange \<lparr>snapshotLength = 20\<rparr> (map' invertedTranslator) 21 26 (\<lambda>_. True) = None"
    "offsetAt (virtualFileDocument invertedTranslator) (at 1) = 21 - snapshotLength \<lparr>snapshotLength = 20\<rparr>"
    "offsetAt (virtualFileDocument invertedTranslator) (at 6) = 26 - snapshotLength \<lparr>snapshotLength = 20\<rparr>"
    "getSourceRange invertedTranslator \<lparr>range_start = at 1, range_end = at 6\<rparr> (\<lambda>_. True)
       = Some \<lparr>range_start = at 11, range_end = at 1\<rparr>"
    by (simp_all add: invertedTranslator_def sourceCandidates_def transformRange_def
        getSourceOffsets_def findMatching_def lineDocument_def at_def
        getSourceRange_def getSourceRanges_def findRanges_def getSourcePositionsBase_def
        findPositions_def matchSourcePosition_def)
  note t1 = transformSpan_resolution [of None "Some \<lparr>span_start = 101, span_length = 3\<rparr>"
      exampleFiles "\<lambda>_. True" "''/b.ts''" "\<lparr>span_start = 101, span_length = 3\<rparr>"]
  note t2 = transformSpan_resolution [of "Some []" "Some \<lparr>span_start = 101, span_length = 3\<rparr>"
      exampleFiles "\<lambda>_. True" "''/a.vue''" "\<lparr>span_start = 101, span_length = 3\<rparr>"
      "\<lparr>codeId = ''script_ts''\<rparr>" "\<lparr>snapshotLength = 100\<rparr>" exampleMap]
  note t3 = transformSpan_resolution [where this = boundaryTranslator
      and sourceFile = "\<lparr>snapshotLength = 10\<rparr>" and start = 11 and end' = 14
      and flt = "\<lambda>_. True" and found = "(1, 6)" and p = "at 1" and q = "at 4"]
  note t4 = transformSpan_resolution [where this = invertedTranslator
      and sourceFile = "\<lparr>snapshotLength = 20\<rparr>" and start = 21 and end' = 26
      and flt = "\<lambda>_. True" and p = "at 1" and q = "at 6"]
  have a: "transformSpan exampleFiles None (Some \<lparr>span_start = 101, span_length = 3\<rparr>) (\<lambda>_. True) = None"
    using t1 by simp
  have b: "transformSpan exampleFiles (Some []) (Some \<lparr>span_start = 101, span_length = 3\<rparr>) (\<lambda>_. True) = None"
    using t2 by simp
  have c: "transformSpan exampleFiles (Some ''/b.ts'') (Some \<lparr>span_start = 101, span_length = 3\<rparr>) (\<lambda>_. True)
       = Some \<lparr>fs_fileName = ''/b.ts'', fs_textSpan = \<lparr>span_start = 101, span_length = 3\<rparr>\<rparr>"
    using t1 unreg by simp
  have d: "transformSpan exampleFiles (Some ''/a.vue'') (Some \<lparr>span_start = 101, span_length = 3\<rparr>) (\<lambda>_. True)
       = Some \<lparr>fs_fileName = ''/a.vue'', fs_textSpan = \<lparr>span_start = 11, span_length = 3\<rparr>\<rparr>"
    using t2 reg range by simp
  have e: "getSourceRange boundaryTranslator \<lparr>range_start = at 1, range_end = at 4\<rparr> (\<lambda>_. True)
       = Some \<lparr>range_start = at 1, range_end = at 6\<rparr>"
    using t3 ab by simp
  have f: "fst (hd (sourceCandidates (map' invertedTranslator) (\<lambda>_. True) (26 - 20)))
       < fst (hd (sourceCandidates (map' invertedTranslator) (\<lambda>_. True) (21 - 20)))"
    using t4 inv by simp
  show ?thesis using a b c d e f unreg reg ab(1-4) inv(3,6) by simp
qed

section \<open>Queries without a match\<close>

lemma findMatching_Nil_iff:
  "findMatching sm offset fromKey toKey = [] \<longleftrightarrow>
     (\<forall>mp \<in> set (mappings sm).
        translateOffset offset (offsetsOf fromKey mp) (offsetsOf toKey mp) (lengths mp) = None)"
  by (auto simp: findMatching_def split: option.splits)

lemma findPositions_mapping:
  "c \<in> set (findPositions this position flt fromDoc toDoc fromKey toKey) \<Longrightarrow>
     snd c \<in> set (mappings (map' this))"
  by (auto simp: findPositions_def dest: findMatching_mapping)

lemma translateOffset_outside:
  "list_all (\<lambda>segment. lo \<le> fst segment \<and> fst segment + snd segment \<le> hi) (zip fromOffsets lens)
   \<Longrightarrow> offset < lo \<or> hi < offset
   \<Longrightarrow> translateOffset offset fromOffsets toOffsets lens = None"
  by (induction offset fromOffsets toOffsets lens rule: translateOffset.induct) auto

lemma outside_unmatched:
  "segmentsWithin fromKey sm lo hi \<Longrightarrow> offset < lo \<or> hi < offset \<Longrightarrow>
     unmatched sm fromKey toKey offset"
  unfolding unmatched_def findMatching_Nil_iff segmentsWithin_def
  by (auto simp: list_all_iff intro!: translateOffset_outside)

lemma unmatched_source:
  assumes "unmatched (map' this) GeneratedOffsets SourceOffsets (offsetAt (virtualFileDocument this) p)"
  shows "getSourcePositionsBase this p flt = []"
    and "c \<in> set (getSourcePositionsBase this q flt) \<Longrightarrow> matchSourcePosition this p (snd c) = None"
proof -
  show "getSourcePositionsBase this p flt = []"
    using assms by (simp add: unmatched_def getSourcePositionsBase_def findPositions_def)
  assume "c \<in> set (getSourcePositionsBase this q flt)"
  then have "snd c \<in> set (mappings (map' this))"
    unfolding getSourcePositionsBase_def by (rule findPositions_mapping)
  with assms show "matchSourcePosition this p (snd c) = None"
    unfolding unmatched_def findMatching_Nil_iff by (auto simp: matchSourcePosition_def)
qed

lemma unmatched_generated:
  assumes "unmatched (map' this) SourceOffsets GeneratedOffsets (offsetAt (sourceFileDocument this) p)"
  shows "getGeneratedPositionsBase this p flt = []"
    and "c \<in> set (getGeneratedPositionsBase this q flt) \<Longrightarrow> matchGeneratedPosition this p (snd c) = None"
proof -
  show "getGeneratedPositionsBase this p flt = []"
    using assms by (simp add: unmatched_def getGeneratedPositionsBase_def findPositions_def)
  assume "c \<in> set (getGeneratedPositionsBase this q flt)"
  then have "snd c \<in> set (mappings (map' this))"
    unfolding getGeneratedPositionsBase_def by (rule findPositions_mapping)
  with assms show "matchGeneratedPosition this p (snd c) = None"
    unfolding unmatched_def findMatching_Nil_iff by (auto simp: matchGeneratedPosition_def)
qed

lemma concat_map_all_Nil: "(\<And>x. x \<in> set xs \<Longrightarrow> f x = []) \<Longrightarrow> concat (map f xs) = []"
  by (induction xs) auto

lemma unmatched_source_ranges:
  assumes u: "unmatched (map' this) GeneratedOffsets SourceOffsets (offsetAt (virtualFileDocument this) p)"
  shows "getSourceRanges this \<lparr>range_start = p, range_end = q\<rparr> flt = []"
    and "getSourceRanges this \<lparr>range_start = q, range_end = p\<rparr> flt = []"
proof -
  show "getSourceRanges this \<lparr>range_start = p, range_end = q\<rparr> flt = []"
    by (simp add: getSourceRanges_def findRanges_unfold unmatched_source(1) [OF u])
  have "concat (map (\<lambda>c. case matchSourcePosition this p (snd c) of
                         Some e \<Rightarrow> [\<lparr>range_start = fst c, range_end = e\<rparr>] | None \<Rightarrow> [])
               (getSourcePositionsBase this q flt)) = []"
    by (rule concat_map_all_Nil) (simp add: unmatched_source(2) [OF u])
  then show "getSourceRanges this \<lparr>range_start = q, range_end = p\<rparr> flt = []"
    by (simp add: getSourceRanges_def findRanges_unfold unmatched_source(1) [OF u])
qed

lemma unmatched_generated_ranges:
  assumes u: "unmatched (map' this) SourceOffsets GeneratedOffsets (offsetAt (sourceFileDocument this) p)"
  shows "getGeneratedRanges this \<lparr>range_start = p, range_end = q\<rparr> flt = []"
    and "getGeneratedRanges this \<lparr>range_start = q, range_end = p\<rparr> flt = []"
proof -
  show "getGeneratedRanges this \<lparr>range_start = p, range_end = q\<rparr> flt = []"
    by (simp add: getGeneratedRanges_def findRanges_unfold unmatched_generated(1) [OF u])
  have "concat (map (\<lambda>c. case matchGeneratedPosition this p (snd c) of
                         Some e \<Rightarrow> [\<lparr>range_start = fst c, range_end = e\<rparr>] | None \<Rightarrow> [])
               (getGeneratedPositionsBase this q flt)) = []"
    by (rule concat_map_all_Nil) (simp add: unmatched_generated(2) [OF u])
  then show "getGeneratedRanges this \<lparr>range_start = q, range_end = p\<rparr> flt = []"
    by (simp add: getGeneratedRanges_def findRanges_unfold unmatched_generated(1) [OF u])
qed

subsection \<open>No query throws\<close>

lemma throwsX_ofList: "\<not> throwsX (ofList xs)"
  by (induction xs) auto

lemma throwsX_appendX: "throwsX (appendX g h) \<longleftrightarrow> throwsX g \<or> throwsX h \<and> \<not> throwsX g"
  by (induction g) auto

lemma throwsX_forX:
  "\<not> throwsX g \<Longrightarrow> (\<And>x. \<not> throwsX (body x)) \<Longrightarrow> \<not> throwsX (forX body g)"
  by (induction g) (auto simp: throwsX_appendX)

lemma firstX_returns: "\<not> throwsX g \<Longrightarrow> firstX g \<noteq> Throws"
  by (cases g) auto

lemma throwsX_findRangesLoopX:
  "\<not> throwsX g \<Longrightarrow> (\<And>mapping. matchEnd mapping \<noteq> Throws) \<Longrightarrow>
     (\<And>failed. \<not> throwsX (secondLoop failed)) \<Longrightarrow>
     \<not> throwsX (findRangesLoopX matchEnd secondLoop failedLookUps g)"
proof (induction g arbitrary: failedLookUps)
  case (Yield mapped rest)
  then show ?case
    by (cases "matchEnd (snd mapped)") (auto split: option.splits)
qed auto

lemma outcome_cases: "(x \<noteq> Throws) = (\<exists>y. x = Returns y)"
  by (cases x) auto

lemma collaboratorsReturn_calls:
  assumes "collaboratorsReturn co"
  shows "\<exists>offset. co_offsetAt co doc position = Returns offset"
    and "\<exists>p. co_positionAt co doc offset = Returns p"
    and "\<exists>r. co_translateOffset co start fromOffsets toOffsets lens = Returns r"
    and "\<exists>accepted. co_filter co d = Returns accepted"
    and "\<not> throwsX (co_findMatching co sm offset fromKey toKey)"
    and "\<not> throwsX (co_getLinkedOffsets co sm offset)"
  using assms by (simp_all add: collaboratorsReturn_def outcome_cases)

lemma findPositionsX_returns:
  fixes co :: "'d Collaborators"
  assumes "collaboratorsReturn co"
  shows "\<not> throwsX (findPositionsX co this position fromDoc toDoc fromKey toKey)"
proof -
  obtain offset where o: "co_offsetAt co fromDoc position = Returns offset"
    using collaboratorsReturn_calls(1) [OF assms] by blast
  have body: "\<not> throwsX (case co_filter co (data (snd mapped)) of
                Throws \<Rightarrow> Thrown
              | Returns accepted \<Rightarrow>
                  if \<not> accepted then Done
                  else (case co_positionAt co toDoc (fst mapped) of
                          Throws \<Rightarrow> Thrown
                        | Returns p \<Rightarrow> Yield (p, snd mapped) Done))"
    for mapped :: "int \<times> 'd Mapping"
  proof -
    obtain accepted where a: "co_filter co (data (snd mapped)) = Returns accepted"
      using collaboratorsReturn_calls(4) [OF assms] by blast
    obtain p where p: "co_positionAt co toDoc (fst mapped) = Returns p"
      using collaboratorsReturn_calls(2) [OF assms] by blast
    show ?thesis by (simp add: a p)
  qed
  have "\<not> throwsX (co_findMatching co (map' this) offset fromKey toKey)"
    by (rule collaboratorsReturn_calls(5) [OF assms])
  then show ?thesis
    unfolding findPositionsX_def o by (simp add: throwsX_forX body)
qed

lemma matchPositionX_returns:
  assumes "collaboratorsReturn co"
  shows "matchPositionX co fromDoc toDoc position fromOffsets toOffsets lens \<noteq> Throws"
proof -
  obtain start where o: "co_offsetAt co fromDoc position = Returns start"
    using collaboratorsReturn_calls(1) [OF assms] by blast
  obtain r where t: "co_translateOffset co start fromOffsets toOffsets lens = Returns r"
    using collaboratorsReturn_calls(3) [OF assms] by blast
  show ?thesis
  proof (cases r)
    case None
    then show ?thesis by (simp add: matchPositionX_def o t)
  next
    case (Some offset)
    obtain p where p: "co_positionAt co toDoc offset = Returns p"
      using collaboratorsReturn_calls(2) [OF assms] by blast
    show ?thesis by (simp add: matchPositionX_def o t Some p)
  qed
qed

lemma callApiX_returns:
  "collaboratorsReturn co \<Longrightarrow> \<not> throwsX (callApiX api co this position)"
  by (cases api)
    (simp_all add: getSourcePositionsBaseX_def getGeneratedPositionsBaseX_def findPositionsX_returns)

lemma callApi2X_returns:
  "collaboratorsReturn co \<Longrightarrow> callApi2X api2 co this position mapping \<noteq> Throws"
  by (cases api2)
    (simp_all add: matchSourcePositionX_def matchGeneratedPositionX_def matchPositionX_returns)

lemma findRangesX_returns:
  fixes co :: "'d Collaborators"
  assumes "collaboratorsReturn co"
  shows "\<not> throwsX (findRangesX co this rng api api2)"
  unfolding findRangesX_def
proof (rule throwsX_findRangesLoopX)
  show "\<not> throwsX (callApiX api co this (range_start rng))"
    by (rule callApiX_returns [OF assms])
  show "callApi2X api2 co this (range_end rng) mapping \<noteq> Throws" for mapping
    by (rule callApi2X_returns [OF assms])
  show "\<not> throwsX (forX (\<lambda>failedLookUp.
              forX (\<lambda>mapped. Yield \<lparr>range_start = fst failedLookUp, range_end = fst mapped\<rparr> Done)
                (callApiX api co this (range_end rng)))
            (ofList failed))" for failed :: "(Position \<times> 'd Mapping) list"
    by (intro throwsX_forX throwsX_ofList callApiX_returns [OF assms]) simp
qed

lemma getLinkedCodePositionsX_returns:
  assumes "collaboratorsReturn co"
  shows "\<not> throwsX (getLinkedCodePositionsX co this position)"
proof -
  obtain offset where o: "co_offsetAt co (sourceFileDocument this) position = Returns offset"
    using collaboratorsReturn_calls(1) [OF assms] by blast
  have body: "\<not> throwsX (case co_positionAt co (sourceFileDocument this) linkedPosition of
                Throws \<Rightarrow> Thrown
              | Returns p \<Rightarrow> Yield p Done)" for linkedPosition
  proof -
    obtain p where p: "co_positionAt co (sourceFileDocument this) linkedPosition = Returns p"
      using collaboratorsReturn_calls(2) [OF assms] by blast
    show ?thesis by (simp add: p)
  qed
  have "\<not> throwsX (co_getLinkedOffsets co (map' this) offset)"
    by (rule collaboratorsReturn_calls(6) [OF assms])
  then show ?thesis
    unfolding getLinkedCodePositionsX_def o by (simp add: throwsX_forX body)
qed

lemma queries_do_not_throw:
  assumes co: "collaboratorsReturn co"
  shows "\<not> throwsX (getSourcePositionsX co this p)"
    and "\<not> throwsX (getGeneratedPositionsX co this p)"
    and "getSourcePositionX co this p \<noteq> Throws"
    and "getGeneratedPositionX co this p \<noteq> Throws"
    and "\<not> throwsX (getSourceRangesX co this rng)"
    and "\<not> throwsX (getGeneratedRangesX co this rng)"
    and "getSourceRangeX co this rng \<noteq> Throws"
    and "getGeneratedRangeX co this rng \<noteq> Throws"
    and "\<not> throwsX (getLinkedCodePositionsX co this p)"
proof -
  show s: "\<not> throwsX (getSourcePositionsX co this p)"
    unfolding getSourcePositionsX_def getSourcePositionsBaseX_def
    by (intro throwsX_forX findPositionsX_returns [OF co]) simp
  show g: "\<not> throwsX (getGeneratedPositionsX co this p)"
    unfolding getGeneratedPositionsX_def getGeneratedPositionsBaseX_def
    by (intro throwsX_forX findPositionsX_returns [OF co]) simp
  show "getSourcePositionX co this p \<noteq> Throws"
    unfolding getSourcePositionX_def by (rule firstX_returns [OF s])
  show "getGeneratedPositionX co this p \<noteq> Throws"
    unfolding getGeneratedPositionX_def by (rule firstX_returns [OF g])
  show sr: "\<not> throwsX (getSourceRangesX co this rng)"
    unfolding getSourceRangesX_def
    by (intro throwsX_forX findRangesX_returns [OF co]) simp
  show gr: "\<not> throwsX (getGeneratedRangesX co this rng)"
    unfolding getGeneratedRangesX_def
    by (intro throwsX_forX findRangesX_returns [OF co]) simp
  show "getSourceRangeX co this rng \<noteq> Throws"
    unfolding getSourceRangeX_def by (rule firstX_returns [OF sr])
  show "getGeneratedRangeX co this rng \<noteq> Throws"
    unfolding getGeneratedRangeX_def by (rule firstX_returns [OF gr])
  show "\<not> throwsX (getLinkedCodePositionsX co this p)"
    by (rule getLinkedCodePositionsX_returns [OF co])
qed

lemma collaboratorsReturn_returning: "collaboratorsReturn (returning flt)"
  by (simp add: collaboratorsReturn_def returning_def throwsX_ofList)

subsection \<open>With collaborators that return, the queries are those of the sections above\<close>

lemma appendX_ofList: "appendX (ofList xs) (ofList ys) = ofList (xs @ ys)"
  by (induction xs) auto

lemma forX_ofList:
  "(\<And>x. x \<in> set xs \<Longrightarrow> body x = ofList (f x)) \<Longrightarrow>
     forX body (ofList xs) = ofList (concat (map f xs))"
  by (induction xs) (auto simp: appendX_ofList)

lemma firstX_ofList: "firstX (ofList xs) = Returns (firstOf xs)"
  by (cases xs) auto

lemma forX_yield_ofList: "forX (\<lambda>x. Yield (f x) Done) (ofList xs) = ofList (map f xs)"
  by (induction xs) auto

lemma returning_simps:
  "co_offsetAt (returning flt) doc position = Returns (offsetAt doc position)"
  "co_positionAt (returning flt) doc offset = Returns (positionAt doc offset)"
  "co_findMatching (returning flt) sm offset fromKey toKey =
     ofList (findMatching sm offset fromKey toKey)"
  "co_translateOffset (returning flt) start fromOffsets toOffsets lens =
     Returns (translateOffset start fromOffsets toOffsets lens)"
  "co_getLinkedOffsets (returning flt) sm offset = ofList (getLinkedOffsets sm offset)"
  "co_filter (returning flt) d = Returns (flt d)"
  by (simp_all add: returning_def)

lemma findPositionsX_returning:
  fixes flt :: "'d \<Rightarrow> bool"
  shows "findPositionsX (returning flt) this position fromDoc toDoc fromKey toKey =
     ofList (findPositions this position flt fromDoc toDoc fromKey toKey)"
proof -
  have "forX (\<lambda>mapped.
              case co_filter (returning flt) (data (snd mapped)) of
                Throws \<Rightarrow> Thrown
              | Returns accepted \<Rightarrow>
                  if \<not> accepted then Done
                  else (case co_positionAt (returning flt) toDoc (fst mapped) of
                          Throws \<Rightarrow> Thrown
                        | Returns p \<Rightarrow> Yield (p, snd mapped) Done)) (ofList xs)
      = ofList (map (\<lambda>mapped. (positionAt toDoc (fst mapped), snd mapped))
                 (filter (\<lambda>mapped. flt (data (snd mapped))) xs))"
    for xs :: "(int \<times> 'd Mapping) list"
    by (induction xs) (auto simp: returning_simps)
  then show ?thesis
    by (simp add: findPositionsX_def returning_simps findPositions_def)
qed

lemma matchX_returning:
  "matchSourcePositionX (returning flt) this position mapping =
     Returns (matchSourcePosition this position mapping)"
  "matchGeneratedPositionX (returning flt) this position mapping =
     Returns (matchGeneratedPosition this position mapping)"
  by (simp_all add: matchSourcePositionX_def matchGeneratedPositionX_def matchPositionX_def
      returning_simps matchSourcePosition_def matchGeneratedPosition_def split: option.splits)

lemma callApiX_returning:
  "callApiX api (returning flt) this position = ofList (callApi api this position flt)"
  by (cases api)
    (simp_all add: getSourcePositionsBaseX_def getGeneratedPositionsBaseX_def
      getSourcePositionsBase_def getGeneratedPositionsBase_def findPositionsX_returning)

lemma callApi2X_returning:
  "callApi2X api2 (returning flt) this position mapping =
     Returns (callApi2 api2 this position mapping)"
  by (cases api2) (simp_all add: matchX_returning)

lemma findRangesLoopX_ofList:
  "findRangesLoopX (\<lambda>mapping. Returns (matchEnd mapping)) secondLoop failed (ofList cands) =
     appendX (ofList (fst (findRangesLoop matchEnd failed cands)))
       (secondLoop (snd (findRangesLoop matchEnd failed cands)))"
  by (induction cands arbitrary: failed) (auto split: option.splits prod.splits)

lemma findRangesX_returning:
  "findRangesX (returning flt) this rng api api2 = ofList (findRanges this rng flt api api2)"
proof -
  have second: "forX (\<lambda>failedLookUp.
              forX (\<lambda>mapped. Yield \<lparr>range_start = fst failedLookUp, range_end = fst mapped\<rparr> Done)
                (ofList ends))
            (ofList failed)
      = ofList (concat (map (\<lambda>failedLookUp.
              map (\<lambda>mapped. \<lparr>range_start = fst failedLookUp, range_end = fst mapped\<rparr>) ends)
            failed))" for ends :: "(Position \<times> 'd Mapping) list" and failed :: "(Position \<times> 'd Mapping) list"
    by (rule forX_ofList) (simp add: forX_yield_ofList)
  show ?thesis
    unfolding findRangesX_def callApiX_returning callApi2X_returning findRangesLoopX_ofList second
    by (simp add: findRanges_def appendX_ofList split: prod.splits)
qed

lemma queries_refine:
  "getSourcePositionsX (returning flt) this p = ofList (getSourcePositions this p flt)
   \<and> getGeneratedPositionsX (returning flt) this p = ofList (getGeneratedPositions this p flt)
   \<and> getSourcePositionX (returning flt) this p = Returns (getSourcePosition this p flt)
   \<and> getGeneratedPositionX (returning flt) this p = Returns (getGeneratedPosition this p flt)
   \<and> getSourceRangesX (returning flt) this rng = ofList (getSourceRanges this rng flt)
   \<and> getGeneratedRangesX (returning flt) this rng = ofList (getGeneratedRanges this rng flt)
   \<and> getSourceRangeX (returning flt) this rng = Returns (getSourceRange this rng flt)
   \<and> getGeneratedRangeX (returning flt) this rng = Returns (getGeneratedRange this rng flt)
   \<and> getLinkedCodePositionsX (returning flt) this p = ofList (getLinkedCodePositions this p)"
proof -
  have id: "forX (\<lambda>result. Yield result Done) (ofList xs) = ofList xs" for xs :: "'a list"
    using forX_yield_ofList [of "\<lambda>x. x" xs] by simp
  have "forX (\<lambda>linkedPosition.
              case co_positionAt (returning flt) (sourceFileDocument this) linkedPosition of
                Throws \<Rightarrow> Thrown
              | Returns p \<Rightarrow> Yield p Done) (ofList xs)
      = ofList (map (positionAt (sourceFileDocument this)) xs)" for xs
    by (induction xs) (auto simp: returning_simps)
  then have linked:
    "getLinkedCodePositionsX (returning flt) this p = ofList (getLinkedCodePositions this p)"
    by (simp add: getLinkedCodePositionsX_def getLinkedCodePositions_def returning_simps)
  show ?thesis
    by (simp add: getSourcePositionsX_def getGeneratedPositionsX_def getSourcePositionX_def
        getGeneratedPositionX_def getSourceRangesX_def getGeneratedRangesX_def getSourceRangeX_def
        getGeneratedRangeX_def getSourcePositionsBaseX_def getGeneratedPositionsBaseX_def
        findPositionsX_returning findRangesX_returning forX_yield_ofList id firstX_ofList linked
        getSourcePositions_def getGeneratedPositions_def getSourcePosition_def
        getGeneratedPosition_def getSourceRanges_def getGeneratedRanges_def getSourceRange_def
        getGeneratedRange_def getSourcePositionsBase_def getGeneratedPositionsBase_def)
qed
subsection \<open>A position counts through its offset\<close>

lemma same_offset_source:
  assumes "offsetAt (virtualFileDocument this) p = offsetAt (virtualFileDocument this) p'"
  shows "getSourcePositionsBase this p flt = getSourcePositionsBase this p' flt"
    and "matchSourcePosition this p = matchSourcePosition this p'"
  using assms
  by (simp_all add: getSourcePositionsBase_def findPositions_def matchSourcePosition_def fun_eq_iff)

lemma same_offset_generated:
  assumes "offsetAt (sourceFileDocument this) p = offsetAt (sourceFileDocument this) p'"
  shows "getGeneratedPositionsBase this p flt = getGeneratedPositionsBase this p' flt"
    and "matchGeneratedPosition this p = matchGeneratedPosition this p'"
  using assms
  by (simp_all add: getGeneratedPositionsBase_def findPositions_def matchGeneratedPosition_def
      fun_eq_iff)

lemma same_offset_source_queries:
  assumes e: "offsetAt (virtualFileDocument this) p = offsetAt (virtualFileDocument this) p'"
  shows "getSourcePositions this p flt = getSourcePositions this p' flt"
    and "getSourcePosition this p flt = getSourcePosition this p' flt"
    and "getSourceRanges this \<lparr>range_start = p, range_end = q\<rparr> flt =
         getSourceRanges this \<lparr>range_start = p', range_end = q\<rparr> flt"
    and "getSourceRanges this \<lparr>range_start = q, range_end = p\<rparr> flt =
         getSourceRanges this \<lparr>range_start = q, range_end = p'\<rparr> flt"
    and "getSourceRange this \<lparr>range_start = p, range_end = q\<rparr> flt =
         getSourceRange this \<lparr>range_start = p', range_end = q\<rparr> flt"
    and "getSourceRange this \<lparr>range_start = q, range_end = p\<rparr> flt =
         getSourceRange this \<lparr>range_start = q, range_end = p'\<rparr> flt"
  by (simp_all add: getSourcePositions_def getSourcePosition_def getSourceRanges_def
      getSourceRange_def findRanges_unfold same_offset_source [OF e])

lemma same_offset_generated_queries:
  assumes e: "offsetAt (sourceFileDocument this) p = offsetAt (sourceFileDocument this) p'"
  shows "getGeneratedPositions this p flt = getGeneratedPositions this p' flt"
    and "getGeneratedPosition this p flt = getGeneratedPosition this p' flt"
    and "getGeneratedRanges this \<lparr>range_start = p, range_end = q\<rparr> flt =
         getGeneratedRanges this \<lparr>range_start = p', range_end = q\<rparr> flt"
    and "getGeneratedRanges this \<lparr>range_start = q, range_end = p\<rparr> flt =
         getGeneratedRanges this \<lparr>range_start = q, range_end = p'\<rparr> flt"
    and "getGeneratedRange this \<lparr>range_start = p, range_end = q\<rparr> flt =
         getGeneratedRange this \<lparr>range_start = p', range_end = q\<rparr> flt"
    and "getGeneratedRange this \<lparr>range_start = q, range_end = p\<rparr> flt =
         getGeneratedRange this \<lparr>range_start = q, range_end = p'\<rparr> flt"
    and "getLinkedCodePositions this p = getLinkedCodePositions this p'"
  by (simp_all add: getGeneratedPositions_def getGeneratedPosition_def getGeneratedRanges_def
      getGeneratedRange_def findRanges_unfold same_offset_generated [OF e]
      getLinkedCodePositions_def e)

text \<open>
  C8, as stated, fails. A position outside the text is not left without a result. The
  document's \<^verbatim>\<open>offsetAt\<close> brings it into the text, and the query answers for the offset
  it gets: a position at character \<open>-1\<close>, or on line \<open>-1\<close>, is answered as offset 0, which
  segment A maps; a position at character 99, or on line 7, of a generated text of 4
  characters is answered as offset 4, the end of a segment.
\<close>

theorem out_of_bounds_position_is_answered:
  "character \<lparr>line = 0, character = - 1\<rparr> < 0
   \<and> getGeneratedPosition boundaryTranslator \<lparr>line = 0, character = - 1\<rparr> (\<lambda>_. True) = Some (at 0)
   \<and> getGeneratedPositions boundaryTranslator \<lparr>line = - 1, character = 0\<rparr> (\<lambda>_. True) = [at 0]
   \<and> int (length (content (virtualFileDocument overlapTranslator))) < 99
   \<and> getSourcePositions overlapTranslator (at 99) (\<lambda>_. True) = [at 14]
   \<and> getSourceRange overlapTranslator
        \<lparr>range_start = at 99, range_end = \<lparr>line = 7, character = 0\<rparr>\<rparr> (\<lambda>_. True)
      = Some \<lparr>range_start = at 14, range_end = at 14\<rparr>"
proof -
  have "getGeneratedPosition boundaryTranslator \<lparr>line = 0, character = - 1\<rparr> (\<lambda>_. True) = Some (at 0)"
    "getGeneratedPositions boundaryTranslator \<lparr>line = - 1, character = 0\<rparr> (\<lambda>_. True) = [at 0]"
    by (simp_all add: getGeneratedPosition_def getGeneratedPositions_def
        getGeneratedPositionsBase_def findPositions_def findMatching_def boundaryTranslator_def
        segmentA_def segmentB_def lineDocument_def at_def)
  moreover have "getSourcePositions overlapTranslator (at 99) (\<lambda>_. True) = [at 14]"
    by (simp add: getSourcePositions_def getSourcePositionsBase_def findPositions_def
        findMatching_def overlapTranslator_def overlapMap_def lineDocument_def at_def)
  moreover have "getSourceRange overlapTranslator
        \<lparr>range_start = at 99, range_end = \<lparr>line = 7, character = 0\<rparr>\<rparr> (\<lambda>_. True)
      = Some \<lparr>range_start = at 14, range_end = at 14\<rparr>"
    by (simp add: getSourceRange_def getSourceRanges_def findRanges_unfold
        getSourcePositionsBase_def matchSourcePosition_def findPositions_def findMatching_def
        overlapTranslator_def overlapMap_def lineDocument_def at_def)
  moreover have "int (length (content (virtualFileDocument overlapTranslator))) < 99"
    by (simp add: overlapTranslator_def lineDocument_def)
  ultimately show ?thesis by simp
qed

text \<open>
  C8, amended. No query of a translator throws as long as what it calls returns: the
  documents' \<^verbatim>\<open>offsetAt\<close> and \<^verbatim>\<open>positionAt\<close>, the map's \<^verbatim>\<open>findMatching\<close> and
  \<^verbatim>\<open>getLinkedOffsets\<close>, \<^verbatim>\<open>translateOffset\<close> and the filter; the class has no exception of
  its own, and with the collaborators of this development each query is the list or the
  optional value computed above. Absence of a match is an empty sequence or an empty
  optional: when no segment holds the offset of a position, every query on it is empty,
  the position queries and the range queries with that position as start or as end, in
  both directions, and the linked positions. A position outside the text is not refused
  and is not always without result: a query reads a position only through \<^verbatim>\<open>offsetAt\<close>, so
  two positions with the same offset get the same answers, and a position the document
  clamps is answered as the position it is clamped to. An offset outside the bounds that
  hold every segment is in no segment, and yields nothing.
\<close>

theorem translator_queries_return:
  "(collaboratorsReturn co \<longrightarrow>
      \<not> throwsX (getSourcePositionsX co this p) \<and> \<not> throwsX (getGeneratedPositionsX co this p)
      \<and> getSourcePositionX co this p \<noteq> Throws \<and> getGeneratedPositionX co this p \<noteq> Throws
      \<and> \<not> throwsX (getSourceRangesX co this rng) \<and> \<not> throwsX (getGeneratedRangesX co this rng)
      \<and> getSourceRangeX co this rng \<noteq> Throws \<and> getGeneratedRangeX co this rng \<noteq> Throws
      \<and> \<not> throwsX (getLinkedCodePositionsX co this p))
   \<and> (collaboratorsReturn (returning flt)
      \<and> getSourcePositionsX (returning flt) this p = ofList (getSourcePositions this p flt)
      \<and> getGeneratedPositionsX (returning flt) this p = ofList (getGeneratedPositions this p flt)
      \<and> getSourcePositionX (returning flt) this p = Returns (getSourcePosition this p flt)
      \<and> getGeneratedPositionX (returning flt) this p = Returns (getGeneratedPosition this p flt)
      \<and> getSourceRangesX (returning flt) this rng = ofList (getSourceRanges this rng flt)
      \<and> getGeneratedRangesX (returning flt) this rng = ofList (getGeneratedRanges this rng flt)
      \<and> getSourceRangeX (returning flt) this rng = Returns (getSourceRange this rng flt)
      \<and> getGeneratedRangeX (returning flt) this rng = Returns (getGeneratedRange this rng flt)
      \<and> getLinkedCodePositionsX (returning flt) this p = ofList (getLinkedCodePositions this p))
   \<and> (unmatched (map' this) GeneratedOffsets SourceOffsets (offsetAt (virtualFileDocument this) p) \<longrightarrow>
      getSourcePositions this p flt = [] \<and> getSourcePosition this p flt = None
      \<and> getSourceRanges this \<lparr>range_start = p, range_end = q\<rparr> flt = []
      \<and> getSourceRanges this \<lparr>range_start = q, range_end = p\<rparr> flt = []
      \<and> getSourceRange this \<lparr>range_start = p, range_end = q\<rparr> flt = None
      \<and> getSourceRange this \<lparr>range_start = q, range_end = p\<rparr> flt = None)
   \<and> (unmatched (map' this) SourceOffsets GeneratedOffsets (offsetAt (sourceFileDocument this) p) \<longrightarrow>
      getGeneratedPositions this p flt = [] \<and> getGeneratedPosition this p flt = None
      \<and> getGeneratedRanges this \<lparr>range_start = p, range_end = q\<rparr> flt = []
      \<and> getGeneratedRanges this \<lparr>range_start = q, range_end = p\<rparr> flt = []
      \<and> getGeneratedRange this \<lparr>range_start = p, range_end = q\<rparr> flt = None
      \<and> getGeneratedRange this \<lparr>range_start = q, range_end = p\<rparr> flt = None)
   \<and> (unmatched (map' this) SourceOffsets GeneratedOffsets (offsetAt (sourceFileDocument this) p)
      \<and> unmatched (map' this) GeneratedOffsets SourceOffsets (offsetAt (sourceFileDocument this) p) \<longrightarrow>
      getLinkedCodePositions this p = [])
   \<and> (offsetAt (virtualFileDocument this) p = offsetAt (virtualFileDocument this) p' \<longrightarrow>
      getSourcePositions this p flt = getSourcePositions this p' flt
      \<and> getSourcePosition this p flt = getSourcePosition this p' flt
      \<and> getSourceRanges this \<lparr>range_start = p, range_end = q\<rparr> flt =
          getSourceRanges this \<lparr>range_start = p', range_end = q\<rparr> flt
      \<and> getSourceRanges this \<lparr>range_start = q, range_end = p\<rparr> flt =
          getSourceRanges this \<lparr>range_start = q, range_end = p'\<rparr> flt
      \<and> getSourceRange this \<lparr>range_start = p, range_end = q\<rparr> flt =
          getSourceRange this \<lparr>range_start = p', range_end = q\<rparr> flt
      \<and> getSourceRange this \<lparr>range_start = q, range_end = p\<rparr> flt =
          getSourceRange this \<lparr>range_start = q, range_end = p'\<rparr> flt)
   \<and> (offsetAt (sourceFileDocument this) p = offsetAt (sourceFileDocument this) p' \<longrightarrow>
      getGeneratedPositions this p flt = getGeneratedPositions this p' flt
      \<and> getGeneratedPosition this p flt = getGeneratedPosition this p' flt
      \<and> getGeneratedRanges this \<lparr>range_start = p, range_end = q\<rparr> flt =
          getGeneratedRanges this \<lparr>range_start = p', range_end = q\<rparr> flt
      \<and> getGeneratedRanges this \<lparr>range_start = q, range_end = p\<rparr> flt =
          getGeneratedRanges this \<lparr>range_start = q, range_end = p'\<rparr> flt
      \<and> getGeneratedRange this \<lparr>range_start = p, range_end = q\<rparr> flt =
          getGeneratedRange this \<lparr>range_start = p', range_end = q\<rparr> flt
      \<and> getGeneratedRange this \<lparr>range_start = q, range_end = p\<rparr> flt =
          getGeneratedRange this \<lparr>range_start = q, range_end = p'\<rparr> flt
      \<and> getLinkedCodePositions this p = getLinkedCodePositions this p')
   \<and> (segmentsWithin fromKey sm lo hi \<and> (offset < lo \<or> hi < offset) \<longrightarrow>
      unmatched sm fromKey toKey offset)"
proof -
  have throws: "collaboratorsReturn co \<longrightarrow>
      \<not> throwsX (getSourcePositionsX co this p) \<and> \<not> throwsX (getGeneratedPositionsX co this p)
      \<and> getSourcePositionX co this p \<noteq> Throws \<and> getGeneratedPositionX co this p \<noteq> Throws
      \<and> \<not> throwsX (getSourceRangesX co this rng) \<and> \<not> throwsX (getGeneratedRangesX co this rng)
      \<and> getSourceRangeX co this rng \<noteq> Throws \<and> getGeneratedRangeX co this rng \<noteq> Throws
      \<and> \<not> throwsX (getLinkedCodePositionsX co this p)"
    by (intro impI conjI queries_do_not_throw)
  have source: "getSourcePositions this p flt = [] \<and> getSourcePosition this p flt = None
      \<and> getSourceRanges this \<lparr>range_start = p, range_end = q\<rparr> flt = []
      \<and> getSourceRanges this \<lparr>range_start = q, range_end = p\<rparr> flt = []
      \<and> getSourceRange this \<lparr>range_start = p, range_end = q\<rparr> flt = None
      \<and> getSourceRange this \<lparr>range_start = q, range_end = p\<rparr> flt = None"
    if u: "unmatched (map' this) GeneratedOffsets SourceOffsets (offsetAt (virtualFileDocument this) p)"
    by (simp add: getSourcePosition_def getSourcePositions_def unmatched_source(1) [OF u]
        getSourceRange_def unmatched_source_ranges [OF u])
  have generated: "getGeneratedPositions this p flt = [] \<and> getGeneratedPosition this p flt = None
      \<and> getGeneratedRanges this \<lparr>range_start = p, range_end = q\<rparr> flt = []
      \<and> getGeneratedRanges this \<lparr>range_start = q, range_end = p\<rparr> flt = []
      \<and> getGeneratedRange this \<lparr>range_start = p, range_end = q\<rparr> flt = None
      \<and> getGeneratedRange this \<lparr>range_start = q, range_end = p\<rparr> flt = None"
    if u: "unmatched (map' this) SourceOffsets GeneratedOffsets (offsetAt (sourceFileDocument this) p)"
    by (simp add: getGeneratedPosition_def getGeneratedPositions_def unmatched_generated(1) [OF u]
        getGeneratedRange_def unmatched_generated_ranges [OF u])
  have linked: "getLinkedCodePositions this p = []"
    if "unmatched (map' this) SourceOffsets GeneratedOffsets (offsetAt (sourceFileDocument this) p)
      \<and> unmatched (map' this) GeneratedOffsets SourceOffsets (offsetAt (sourceFileDocument this) p)"
    using that
    by (simp add: getLinkedCodePositions_def getLinkedOffsets_def getGeneratedOffsets_def
        getSourceOffsets_def unmatched_def)
  have outside: "unmatched sm fromKey toKey offset"
    if "segmentsWithin fromKey sm lo hi \<and> (offset < lo \<or> hi < offset)"
    using that by (blast intro: outside_unmatched)
  show ?thesis
    by (intro conjI impI throws [rule_format] collaboratorsReturn_returning
        queries_refine [THEN conjunct1]
        queries_refine [THEN conjunct2, THEN conjunct1]
        queries_refine [THEN conjunct2, THEN conjunct2, THEN conjunct1]
        same_offset_source_queries same_offset_generated_queries)
      (auto simp: queries_refine source generated linked outside)
qed

theorem translator_queries_return_witness:
  "collaboratorsReturn (returning (\<lambda>_. True) :: unit Collaborators)
   \<and> \<not> throwsX (getGeneratedRangesX (returning (\<lambda>_. True)) boundaryTranslator
          \<lparr>range_start = at 1, range_end = at 6\<rparr>)
   \<and> getGeneratedPositionX (returning (\<lambda>_. True)) boundaryTranslator \<lparr>line = 0, character = - 1\<rparr>
      = Returns (Some (at 0))
   \<and> getGeneratedPositionX (returning (\<lambda>_. True)) boundaryTranslator (at 3) = Returns None
   \<and> unmatched (map' linearTranslator) GeneratedOffsets SourceOffsets
      (offsetAt (virtualFileDocument linearTranslator) (at 0))
   \<and> getSourcePosition linearTranslator (at 0) (\<lambda>_. True) = None
   \<and> getSourceRanges linearTranslator \<lparr>range_start = at 2, range_end = at 0\<rparr> (\<lambda>_. True) = []
   \<and> unmatched (map' linearTranslator) SourceOffsets GeneratedOffsets
      (offsetAt (sourceFileDocument linearTranslator) (at 5))
   \<and> getGeneratedPositions linearTranslator (at 5) (\<lambda>_. True) = []
   \<and> getGeneratedRange linearTranslator \<lparr>range_start = at 5, range_end = at 1\<rparr> (\<lambda>_. True) = None
   \<and> unmatched (map' linkedTranslator) SourceOffsets GeneratedOffsets
      (offsetAt (sourceFileDocument linkedTranslator) (at 4))
   \<and> unmatched (map' linkedTranslator) GeneratedOffsets SourceOffsets
      (offsetAt (sourceFileDocument linkedTranslator) (at 4))
   \<and> getLinkedCodePositions linkedTranslator (at 4) = []
   \<and> getLinkedCodePositions linkedTranslator (at 1) = [at 7]
   \<and> offsetAt (virtualFileDocument overlapTranslator) (at 4)
      = offsetAt (virtualFileDocument overlapTranslator) (at 99)
   \<and> getSourcePositions overlapTranslator (at 99) (\<lambda>_. True) = [at 14]
   \<and> getSourceRange overlapTranslator \<lparr>range_start = at 1, range_end = at 99\<rparr> (\<lambda>_. True)
      = Some \<lparr>range_start = at 11, range_end = at 14\<rparr>
   \<and> offsetAt (sourceFileDocument boundaryTranslator) (at 0)
      = offsetAt (sourceFileDocument boundaryTranslator) \<lparr>line = 0, character = - 1\<rparr>
   \<and> getGeneratedPosition boundaryTranslator \<lparr>line = 0, character = - 1\<rparr> (\<lambda>_. True) = Some (at 0)
   \<and> segmentsWithin GeneratedOffsets (map' linearTranslator) 0 5
   \<and> unmatched (map' linearTranslator) GeneratedOffsets SourceOffsets 7
   \<and> unmatched (map' linearTranslator) GeneratedOffsets SourceOffsets (- 1)"
proof -
  note a = translator_queries_return [where this = linearTranslator and p = "at 0" and q = "at 2"
      and flt = "\<lambda>_. True" and fromKey = GeneratedOffsets and toKey = SourceOffsets
      and sm = "map' linearTranslator" and lo = 0 and hi = 5 and offset = 7]
  note b = translator_queries_return [where this = linearTranslator and p = "at 5" and q = "at 1"
      and flt = "\<lambda>_. True" and fromKey = GeneratedOffsets and toKey = SourceOffsets
      and sm = "map' linearTranslator" and lo = 0 and hi = 5 and offset = "- 1"]
  note c = translator_queries_return [where this = linkedTranslator and p = "at 4"]
  note d = translator_queries_return [where this = overlapTranslator and p = "at 4"
      and p' = "at 99" and q = "at 1" and flt = "\<lambda>_. True"]
  note e = translator_queries_return [where this = boundaryTranslator and p = "at 0"
      and p' = "\<lparr>line = 0, character = - 1\<rparr>" and flt = "\<lambda>_. True"]
  note f = translator_queries_return [where this = boundaryTranslator
      and co = "returning (\<lambda>_. True)" and flt = "\<lambda>_. True"
      and rng = "\<lparr>range_start = at 1, range_end = at 6\<rparr>"]
  note g = translator_queries_return [where this = boundaryTranslator
      and p = "\<lparr>line = 0, character = - 1\<rparr>" and flt = "\<lambda>_. True"]
  note h = translator_queries_return [where this = boundaryTranslator
      and p = "at 3" and flt = "\<lambda>_. True"]
  note a3 = a [THEN conjunct2, THEN conjunct2, THEN conjunct1]
  note a8 = a [THEN conjunct2, THEN conjunct2, THEN conjunct2, THEN conjunct2, THEN conjunct2,
      THEN conjunct2, THEN conjunct2]
  note b4 = b [THEN conjunct2, THEN conjunct2, THEN conjunct2, THEN conjunct1]
  note b8 = b [THEN conjunct2, THEN conjunct2, THEN conjunct2, THEN conjunct2, THEN conjunct2,
      THEN conjunct2, THEN conjunct2]
  note c5 = c [THEN conjunct2, THEN conjunct2, THEN conjunct2, THEN conjunct2, THEN conjunct1]
  note d6 = d [THEN conjunct2, THEN conjunct2, THEN conjunct2, THEN conjunct2, THEN conjunct2,
      THEN conjunct1]
  note e7 = e [THEN conjunct2, THEN conjunct2, THEN conjunct2, THEN conjunct2, THEN conjunct2,
      THEN conjunct2, THEN conjunct1]
  note f1 = f [THEN conjunct1]
  note f2 = f [THEN conjunct2, THEN conjunct1, THEN conjunct1]
  note g2 = g [THEN conjunct2, THEN conjunct1]
  note h2 = h [THEN conjunct2, THEN conjunct1]
  have u1: "unmatched (map' linearTranslator) GeneratedOffsets SourceOffsets
      (offsetAt (virtualFileDocument linearTranslator) (at 0))"
    and u2: "unmatched (map' linearTranslator) SourceOffsets GeneratedOffsets
      (offsetAt (sourceFileDocument linearTranslator) (at 5))"
    and w: "segmentsWithin GeneratedOffsets (map' linearTranslator) 0 5"
    by (simp_all add: unmatched_def findMatching_def linearTranslator_def lineDocument_def at_def
        segmentsWithin_def)
  have u3: "unmatched (map' linkedTranslator) SourceOffsets GeneratedOffsets
      (offsetAt (sourceFileDocument linkedTranslator) (at 4))"
    and u4: "unmatched (map' linkedTranslator) GeneratedOffsets SourceOffsets
      (offsetAt (sourceFileDocument linkedTranslator) (at 4))"
    and l1: "getLinkedCodePositions linkedTranslator (at 1) = [at 7]"
    by (simp_all add: unmatched_def findMatching_def linkedTranslator_def
        LinkedCodeMapWithDocument_def lineDocument_def at_def getLinkedCodePositions_def
        getLinkedOffsets_def getGeneratedOffsets_def getSourceOffsets_def)
  have o1: "offsetAt (virtualFileDocument overlapTranslator) (at 4)
      = offsetAt (virtualFileDocument overlapTranslator) (at 99)"
    and o2: "offsetAt (sourceFileDocument boundaryTranslator) (at 0)
      = offsetAt (sourceFileDocument boundaryTranslator) \<lparr>line = 0, character = - 1\<rparr>"
    by (simp_all add: overlapTranslator_def boundaryTranslator_def lineDocument_def at_def)
  have inside: "getSourcePositions overlapTranslator (at 4) (\<lambda>_. True) = [at 14]"
    "getSourceRange overlapTranslator \<lparr>range_start = at 1, range_end = at 4\<rparr> (\<lambda>_. True)
      = Some \<lparr>range_start = at 11, range_end = at 14\<rparr>"
    "getGeneratedPosition boundaryTranslator (at 0) (\<lambda>_. True) = Some (at 0)"
    "getGeneratedPosition boundaryTranslator (at 3) (\<lambda>_. True) = None"
    by (simp_all add: getSourcePositions_def getSourceRange_def getSourceRanges_def
        findRanges_unfold getSourcePositionsBase_def matchSourcePosition_def
        getGeneratedPosition_def getGeneratedPositions_def getGeneratedPositionsBase_def
        findPositions_def findMatching_def overlapTranslator_def overlapMap_def
        boundaryTranslator_def segmentA_def segmentB_def lineDocument_def at_def)
  from a3 u1 have r1: "getSourcePosition linearTranslator (at 0) (\<lambda>_. True) = None"
    "getSourceRanges linearTranslator \<lparr>range_start = at 2, range_end = at 0\<rparr> (\<lambda>_. True) = []"
    by blast+
  from a8 w have r2: "unmatched (map' linearTranslator) GeneratedOffsets SourceOffsets 7"
    by simp
  from b4 u2 have r3: "getGeneratedPositions linearTranslator (at 5) (\<lambda>_. True) = []"
    "getGeneratedRange linearTranslator \<lparr>range_start = at 5, range_end = at 1\<rparr> (\<lambda>_. True) = None"
    by blast+
  from b8 w have r4: "unmatched (map' linearTranslator) GeneratedOffsets SourceOffsets (- 1)"
    by simp
  from c5 u3 u4 have r5: "getLinkedCodePositions linkedTranslator (at 4) = []"
    by blast
  from d6 o1 inside(1,2) have r6: "getSourcePositions overlapTranslator (at 99) (\<lambda>_. True) = [at 14]"
    "getSourceRange overlapTranslator \<lparr>range_start = at 1, range_end = at 99\<rparr> (\<lambda>_. True)
      = Some \<lparr>range_start = at 11, range_end = at 14\<rparr>"
    by simp_all
  from e7 o2 inside(3)
  have r7: "getGeneratedPosition boundaryTranslator \<lparr>line = 0, character = - 1\<rparr> (\<lambda>_. True) = Some (at 0)"
    by simp
  have co: "collaboratorsReturn (returning (\<lambda>_. True) :: unit Collaborators)"
    by (rule f2)
  from f1 co have r8: "\<not> throwsX (getGeneratedRangesX (returning (\<lambda>_. True)) boundaryTranslator
          \<lparr>range_start = at 1, range_end = at 6\<rparr>)"
    by blast
  from g2 r7 have r9: "getGeneratedPositionX (returning (\<lambda>_. True)) boundaryTranslator
      \<lparr>line = 0, character = - 1\<rparr> = Returns (Some (at 0))"
    by simp
  from h2 inside(4)
  have r10: "getGeneratedPositionX (returning (\<lambda>_. True)) boundaryTranslator (at 3) = Returns None"
    by simp
  show ?thesis
    using u1 u2 u3 u4 w l1 o1 o2 r1 r2 r3 r4 r5 r6 r7 r8 r9 r10 co by simp
qed

section \<open>The diagnostic transformation\<close>

lemma pending_card:
  "pending st = card {a. a < length (heap st) \<and> transformedDiagnostics st a = None}"
proof -
  have "{a. a < length (heap st) \<and> transformedDiagnostics st a = None}
      = set (filter (\<lambda>a. transformedDiagnostics st a = None) [0..<length (heap st)])"
    by auto
  moreover have "card (set (filter (\<lambda>a. transformedDiagnostics st a = None) [0..<length (heap st)]))
      = length (filter (\<lambda>a. transformedDiagnostics st a = None) [0..<length (heap st)])"
    by (rule distinct_card) simp
  ultimately show ?thesis
    unfolding pending_def by simp
qed

lemma reserveSlot_simps [simp]:
  "heap (reserveSlot st d) = heap st"
  "transformedDiagnostics (reserveSlot st d) = (transformedDiagnostics st)(d \<mapsto> None)"
  "computed (reserveSlot st d) = computed st @ [d]"
  by (simp_all add: reserveSlot_def cacheSet_def)

lemma reserveSlot_pending:
  assumes "transformedDiagnostics st d = None" "d < length (heap st)"
  shows "pending st = Suc (pending (reserveSlot st d))"
proof -
  let ?A = "{a. a < length (heap st) \<and> transformedDiagnostics st a = None}"
  have fin: "finite ?A" by simp
  have mem: "d \<in> ?A" using assms by simp
  have "{a. a < length (heap (reserveSlot st d)) \<and> transformedDiagnostics (reserveSlot st d) a = None}
      = ?A - {d}" by auto
  then have "pending (reserveSlot st d) = card (?A - {d})"
    by (simp only: pending_card)
  also have "\<dots> = card ?A - 1" using fin mem by simp
  finally have "pending (reserveSlot st d) = pending st - 1"
    by (simp only: pending_card)
  moreover have "0 < card ?A" using fin mem by (auto simp: card_gt_0_iff)
  ultimately show ?thesis by (simp add: pending_card)
qed

lemma reserveSlot_wellFormed:
  "wellFormed st \<Longrightarrow> transformedDiagnostics st d = None \<Longrightarrow> wellFormed (reserveSlot st d)"
  by (auto simp: wellFormed_def refsValid_def cacheValid_def traceValid_def)

lemma setRelatedInformation_simps [simp]:
  "length (heap (setRelatedInformation st d related)) = length (heap st)"
  "transformedDiagnostics (setRelatedInformation st d related) = transformedDiagnostics st"
  "computed (setRelatedInformation st d related) = computed st"
  "pending (setRelatedInformation st d related) = pending st"
  by (simp_all add: setRelatedInformation_def pending_def)

lemma setRelatedInformation_heap:
  "a \<noteq> d \<Longrightarrow> heap (setRelatedInformation st d related) ! a = heap st ! a"
  "a < length (heap st) \<Longrightarrow>
     otherFields (heap (setRelatedInformation st d related) ! a) = otherFields (heap st ! a)"
  by (cases "d < length (heap st)";
      auto simp: setRelatedInformation_def otherFields_def nth_list_update)+

lemma setRelatedInformation_wellFormed:
  assumes "wellFormed st" "\<forall>r \<in> set related. r < length (heap st)"
  shows "wellFormed (setRelatedInformation st d related)"
proof -
  have "refsValid (setRelatedInformation st d related)"
    using assms unfolding wellFormed_def refsValid_def
    by (auto simp: setRelatedInformation_def list_all_iff relatedOf_def
        dest!: set_update_subset_insert [THEN subsetD])
  moreover have "cacheValid (setRelatedInformation st d related)"
    using assms unfolding wellFormed_def cacheValid_def by simp
  moreover have "traceValid (setRelatedInformation st d related)"
    using assms unfolding wellFormed_def traceValid_def by simp
  ultimately show ?thesis by (simp add: wellFormed_def)
qed

lemma cacheSet_simps [simp]:
  "heap (cacheSet st d r) = heap st"
  "transformedDiagnostics (cacheSet st d r) = (transformedDiagnostics st)(d \<mapsto> r)"
  "computed (cacheSet st d r) = computed st"
  by (simp_all add: cacheSet_def)

lemma transformOwnSpan_cases:
  "transformOwnSpan files srd st d = st
   \<or> transformOwnSpan files srd st d = cacheSet st d (Some d)
   \<or> (\<exists>x. transformOwnSpan files srd st d =
            cacheSet (st\<lparr>heap := heap st @ [x]\<rparr>) d (Some (length (heap st)))
          \<and> relatedOf x = relatedOf (heap st ! d))"
  by (auto simp: transformOwnSpan_def Let_def relatedOf_def split: option.splits)

lemma pending_cacheSet_present:
  "transformedDiagnostics st d \<noteq> None \<Longrightarrow> pending (cacheSet st d (Some r)) = pending st"
proof -
  assume "transformedDiagnostics st d \<noteq> None"
  then have "{a. a < length (heap (cacheSet st d (Some r)))
                \<and> transformedDiagnostics (cacheSet st d (Some r)) a = None}
      = {a. a < length (heap st) \<and> transformedDiagnostics st a = None}"
    by auto
  then show ?thesis by (simp only: pending_card)
qed

lemma pending_append:
  "pending (st\<lparr>heap := heap st @ [x]\<rparr>) \<le> Suc (pending st)"
proof -
  let ?A = "{a. a < length (heap st) \<and> transformedDiagnostics st a = None}"
  have "{a. a < length (heap (st\<lparr>heap := heap st @ [x]\<rparr>))
           \<and> transformedDiagnostics (st\<lparr>heap := heap st @ [x]\<rparr>) a = None}
      \<subseteq> insert (length (heap st)) ?A"
    by auto
  then have "card {a. a < length (heap (st\<lparr>heap := heap st @ [x]\<rparr>))
           \<and> transformedDiagnostics (st\<lparr>heap := heap st @ [x]\<rparr>) a = None}
      \<le> card (insert (length (heap st)) ?A)"
    by (intro card_mono) auto
  also have "\<dots> \<le> Suc (card ?A)" by (simp add: card_insert_le_m1 card_insert_if)
  finally show ?thesis by (simp only: pending_card)
qed

lemma wellFormed_cacheSet:
  assumes "wellFormed st" "transformedDiagnostics st d \<noteq> None" "r < length (heap st)"
  shows "wellFormed (cacheSet st d (Some r))"
  using assms
  by (auto simp: wellFormed_def refsValid_def cacheValid_def traceValid_def)

lemma wellFormed_append:
  assumes "wellFormed st" "d < length (heap st)" "relatedOf x = relatedOf (heap st ! d)"
  shows "wellFormed (st\<lparr>heap := heap st @ [x]\<rparr>)"
proof -
  from assms have "\<forall>r \<in> set (relatedOf x). r < length (heap st)"
    by (auto simp: wellFormed_def refsValid_def list_all_iff)
  with assms(1) show ?thesis
    by (auto simp: wellFormed_def refsValid_def cacheValid_def traceValid_def list_all_iff
        less_Suc_eq)
qed

lemma transformOwnSpan_props:
  assumes wf: "wellFormed st" and d: "d < length (heap st)"
    and c: "transformedDiagnostics st d \<noteq> None"
  shows "wellFormed (transformOwnSpan files srd st d)"
    and "pending (transformOwnSpan files srd st d) \<le> Suc (pending st)"
    and "length (heap st) \<le> length (heap (transformOwnSpan files srd st d))"
    and "a < length (heap st) \<Longrightarrow> heap (transformOwnSpan files srd st d) ! a = heap st ! a"
    and "a \<noteq> d \<Longrightarrow> transformedDiagnostics (transformOwnSpan files srd st d) a
                     = transformedDiagnostics st a"
    and "transformedDiagnostics (transformOwnSpan files srd st d) d \<noteq> None"
    and "computed (transformOwnSpan files srd st d) = computed st"
proof -
  let ?st' = "transformOwnSpan files srd st d"
  consider (same) "?st' = st" | (self) "?st' = cacheSet st d (Some d)"
    | (new) x where "?st' = cacheSet (st\<lparr>heap := heap st @ [x]\<rparr>) d (Some (length (heap st)))"
        "relatedOf x = relatedOf (heap st ! d)"
    using transformOwnSpan_cases [of files srd st d] by blast
  then have "wellFormed ?st' \<and> pending ?st' \<le> Suc (pending st)
      \<and> length (heap st) \<le> length (heap ?st')
      \<and> (a < length (heap st) \<longrightarrow> heap ?st' ! a = heap st ! a)
      \<and> (a \<noteq> d \<longrightarrow> transformedDiagnostics ?st' a = transformedDiagnostics st a)
      \<and> transformedDiagnostics ?st' d \<noteq> None
      \<and> computed ?st' = computed st"
  proof cases
    case same
    with wf c show ?thesis by simp
  next
    case self
    with wf c d show ?thesis
      by (simp add: wellFormed_cacheSet pending_cacheSet_present)
  next
    case new
    let ?s1 = "st\<lparr>heap := heap st @ [x]\<rparr>"
    have wf1: "wellFormed ?s1" by (rule wellFormed_append [OF wf d new(2)])
    have c1: "transformedDiagnostics ?s1 d \<noteq> None" using c by simp
    have "wellFormed (cacheSet ?s1 d (Some (length (heap st))))"
      by (rule wellFormed_cacheSet [OF wf1 c1]) simp
    moreover have "pending (cacheSet ?s1 d (Some (length (heap st)))) \<le> Suc (pending st)"
      using pending_append [of st x] by (simp only: pending_cacheSet_present [OF c1])
    ultimately show ?thesis
      unfolding new(1) using c by (simp add: nth_append)
  qed
  then show "wellFormed ?st'" "pending ?st' \<le> Suc (pending st)"
    "length (heap st) \<le> length (heap ?st')"
    "a < length (heap st) \<Longrightarrow> heap ?st' ! a = heap st ! a"
    "a \<noteq> d \<Longrightarrow> transformedDiagnostics ?st' a = transformedDiagnostics st a"
    "transformedDiagnostics ?st' d \<noteq> None"
    "computed ?st' = computed st"
    by blast+
qed

lemma frameOk_refl: "wellFormed st \<Longrightarrow> frameOk st st"
  by (simp add: frameOk_def)

lemma frameOk_trans:
  assumes ab: "frameOk a b" and bc: "frameOk b c"
  shows "frameOk a c"
  unfolding frameOk_def
proof (intro conjI allI impI)
  show "wellFormed c" using bc by (simp add: frameOk_def)
  show "pending c \<le> pending a" using ab bc by (simp add: frameOk_def)
  show "length (heap a) \<le> length (heap c)" using ab bc by (simp add: frameOk_def)
  show "prefix (computed a) (computed c)"
    using ab bc by (auto simp: frameOk_def intro: prefix_order.trans)
next
  fix x assume x: "transformedDiagnostics a x \<noteq> None"
  with ab have 1: "transformedDiagnostics b x = transformedDiagnostics a x"
    by (simp add: frameOk_def)
  with x bc show 2: "transformedDiagnostics c x = transformedDiagnostics a x"
    by (simp add: frameOk_def)
  assume l: "x < length (heap a)"
  with ab x have "heap b ! x = heap a ! x" by (simp add: frameOk_def)
  moreover from ab l have "x < length (heap b)" by (simp add: frameOk_def)
  ultimately show "heap c ! x = heap a ! x"
    using bc x 1 by (simp add: frameOk_def)
next
  fix x assume l: "x < length (heap a)"
  with ab have "x < length (heap b)" by (simp add: frameOk_def)
  with bc have "otherFields (heap c ! x) = otherFields (heap b ! x)" by (simp add: frameOk_def)
  with ab l show "otherFields (heap c ! x) = otherFields (heap a ! x)" by (simp add: frameOk_def)
qed

lemma transformRelated_ok:
  assumes IH: "\<And>st d. wellFormed st \<Longrightarrow> d < length (heap st) \<Longrightarrow> pending st \<le> n \<Longrightarrow>
      \<exists>st' r. transformDiagnostic (Suc n) files srd st d = Some (st', r)
        \<and> frameOk st st' \<and> transformedDiagnostics st' d = Some r"
  shows "wellFormed st \<Longrightarrow> \<forall>x \<in> set xs. x < length (heap st) \<Longrightarrow> pending st \<le> n \<Longrightarrow>
      \<exists>st' rs. transformRelated (Suc n) files srd st xs = Some (st', rs)
        \<and> frameOk st st' \<and> (\<forall>y. Some y \<in> set rs \<longrightarrow> y < length (heap st'))"
proof (induction xs arbitrary: st)
  case Nil
  then show ?case by (simp add: frameOk_refl)
next
  case (Cons x xs)
  from Cons.prems have x: "x < length (heap st)" by simp
  from IH [OF Cons.prems(1) x Cons.prems(3)]
  obtain st1 r where h: "transformDiagnostic (Suc n) files srd st x = Some (st1, r)"
    and f1: "frameOk st st1" and c1: "transformedDiagnostics st1 x = Some r"
    by blast
  from f1 have wf1: "wellFormed st1" and p1: "pending st1 \<le> n"
    and l1: "length (heap st) \<le> length (heap st1)"
    using Cons.prems(3) by (auto simp: frameOk_def)
  from Cons.prems(2) l1 have xs1: "\<forall>x \<in> set xs. x < length (heap st1)" by auto
  from Cons.IH [OF wf1 xs1 p1]
  obtain st2 rs where t: "transformRelated (Suc n) files srd st1 xs = Some (st2, rs)"
    and f2: "frameOk st1 st2" and v2: "\<forall>y. Some y \<in> set rs \<longrightarrow> y < length (heap st2)"
    by blast
  have res: "transformRelated (Suc n) files srd st (x # xs) = Some (st2, r # rs)"
    using h t by simp
  have "\<forall>y. r = Some y \<longrightarrow> y < length (heap st2)"
  proof (intro allI impI)
    fix y assume "r = Some y"
    with c1 wf1 have "y < length (heap st1)"
      by (auto simp: wellFormed_def cacheValid_def)
    with f2 show "y < length (heap st2)" by (simp add: frameOk_def)
  qed
  with v2 have "\<forall>y. Some y \<in> set (r # rs) \<longrightarrow> y < length (heap st2)" by auto
  with res frameOk_trans [OF f1 f2] show ?case by blast
qed

lemma transformDiagnostic_hit:
  "d < length (heap st) \<Longrightarrow> transformedDiagnostics st d = Some r \<Longrightarrow>
     transformDiagnostic (Suc fuel) files srd st d = Some (st, r)"
  by (simp add: cacheGet_def)

lemma transformDiagnostic_miss:
  "d < length (heap st) \<Longrightarrow> transformedDiagnostics st d = None \<Longrightarrow>
   (case relatedInformation (heap st ! d) of
      None \<Rightarrow> Some (reserveSlot st d)
    | Some related \<Rightarrow>
        (case transformRelated fuel files srd (reserveSlot st d) related of
           None \<Rightarrow> None
         | Some (st', results) \<Rightarrow>
             Some (setRelatedInformation st' d (map the (filter notEmpty results))))) = Some st3
   \<Longrightarrow>
     transformDiagnostic (Suc fuel) files srd st d =
       Some (transformOwnSpan files srd st3 d, cacheGet (transformOwnSpan files srd st3 d) d)"
  by simp

lemma transformDiagnostic_ok:
  "wellFormed st \<Longrightarrow> d < length (heap st) \<Longrightarrow> pending st \<le> n \<Longrightarrow>
     \<exists>st' r. transformDiagnostic (Suc n) files srd st d = Some (st', r)
        \<and> frameOk st st' \<and> transformedDiagnostics st' d = Some r"
proof (induction n arbitrary: st d)
  case 0
  show ?case
  proof (cases "transformedDiagnostics st d")
    case None
    from reserveSlot_pending [OF None "0.prems"(2)] "0.prems"(3) have False by simp
    then show ?thesis ..
  next
    case (Some r)
    with transformDiagnostic_hit [OF "0.prems"(2) Some, of 0 files srd]
      frameOk_refl [OF "0.prems"(1)]
    show ?thesis by blast
  qed
next
  case (Suc n)
  note wf = Suc.prems(1) and d = Suc.prems(2) and p = Suc.prems(3)
  show ?case
  proof (cases "transformedDiagnostics st d")
    case (Some r)
    with transformDiagnostic_hit [OF d Some, of "Suc n" files srd] frameOk_refl [OF wf]
    show ?thesis by blast
  next
    case None
    let ?st1 = "reserveSlot st d"
    have wf1: "wellFormed ?st1" by (rule reserveSlot_wellFormed [OF wf None])
    have p1: "pending ?st1 \<le> n" using reserveSlot_pending [OF None d] p by simp
    have ps: "pending st = Suc (pending ?st1)" by (rule reserveSlot_pending [OF None d])
    have mid: "\<exists>st3.
      (case relatedInformation (heap st ! d) of
         None \<Rightarrow> Some ?st1
       | Some related \<Rightarrow>
          (case transformRelated (Suc n) files srd ?st1 related of
             None \<Rightarrow> None
           | Some (st', results) \<Rightarrow>
               Some (setRelatedInformation st' d (map the (filter notEmpty results))))) = Some st3
      \<and> wellFormed st3 \<and> pending st3 \<le> pending ?st1
      \<and> length (heap st) \<le> length (heap st3)
      \<and> (\<forall>a. a \<noteq> d \<longrightarrow> transformedDiagnostics st a \<noteq> None \<longrightarrow>
             transformedDiagnostics st3 a = transformedDiagnostics st a)
      \<and> transformedDiagnostics st3 d = Some None
      \<and> (\<forall>a. a \<noteq> d \<longrightarrow> transformedDiagnostics st a \<noteq> None \<longrightarrow> a < length (heap st) \<longrightarrow>
             heap st3 ! a = heap st ! a)
      \<and> (\<forall>a < length (heap st). otherFields (heap st3 ! a) = otherFields (heap st ! a))
      \<and> prefix (computed st) (computed st3)"
    proof (cases "relatedInformation (heap st ! d)")
      case None
      with wf1 show ?thesis by simp
    next
      case (Some related)
      from d have "heap st ! d \<in> set (heap st)" by simp
      with wf Some have rv: "\<forall>x \<in> set related. x < length (heap ?st1)"
        by (auto simp: wellFormed_def refsValid_def list_all_iff relatedOf_def)
      from transformRelated_ok [of n files srd ?st1 related, OF Suc.IH wf1 rv p1]
      obtain st2 rs where t: "transformRelated (Suc n) files srd ?st1 related = Some (st2, rs)"
        and f: "frameOk ?st1 st2" and v: "\<forall>y. Some y \<in> set rs \<longrightarrow> y < length (heap st2)"
        by blast
      let ?rel = "map the (filter notEmpty rs)"
      let ?st3 = "setRelatedInformation st2 d ?rel"
      from f have wf2: "wellFormed st2" by (simp add: frameOk_def)
      have "\<forall>r \<in> set ?rel. r < length (heap st2)"
        using v by (auto simp: notEmpty_def)
      then have wf3: "wellFormed ?st3" by (rule setRelatedInformation_wellFormed [OF wf2])
      have c3: "\<And>a. transformedDiagnostics ?st1 a \<noteq> None \<Longrightarrow>
          transformedDiagnostics ?st3 a = transformedDiagnostics ?st1 a"
        using f by (simp add: frameOk_def)
      have h3: "\<And>a. a \<noteq> d \<Longrightarrow> transformedDiagnostics ?st1 a \<noteq> None \<Longrightarrow> a < length (heap st)
          \<Longrightarrow> heap ?st3 ! a = heap st ! a"
        using f by (simp add: frameOk_def setRelatedInformation_heap(1))
      have o3: "\<And>a. a < length (heap st) \<Longrightarrow> otherFields (heap ?st3 ! a) = otherFields (heap st ! a)"
      proof -
        fix a assume a: "a < length (heap st)"
        with f have "a < length (heap st2)" by (simp add: frameOk_def)
        then have "otherFields (heap ?st3 ! a) = otherFields (heap st2 ! a)"
          by (rule setRelatedInformation_heap(2))
        with f a show "otherFields (heap ?st3 ! a) = otherFields (heap st ! a)"
          by (simp add: frameOk_def)
      qed
      have "pending ?st3 \<le> pending ?st1" "length (heap st) \<le> length (heap ?st3)"
        using f by (simp_all add: frameOk_def)
      moreover have "prefix (computed st) (computed ?st3)"
        using f by (auto simp: frameOk_def dest: append_prefixD)
      ultimately show ?thesis using t Some wf3 c3 h3 o3 by simp
    qed
    then obtain st3 where
      e: "(case relatedInformation (heap st ! d) of
         None \<Rightarrow> Some ?st1
       | Some related \<Rightarrow>
          (case transformRelated (Suc n) files srd ?st1 related of
             None \<Rightarrow> None
           | Some (st', results) \<Rightarrow>
               Some (setRelatedInformation st' d (map the (filter notEmpty results))))) = Some st3"
      and wf3: "wellFormed st3" and p3: "pending st3 \<le> pending ?st1"
      and l3: "length (heap st) \<le> length (heap st3)"
      and c3: "\<And>a. a \<noteq> d \<Longrightarrow> transformedDiagnostics st a \<noteq> None \<Longrightarrow>
             transformedDiagnostics st3 a = transformedDiagnostics st a"
      and cd: "transformedDiagnostics st3 d = Some None"
      and h3: "\<And>a. a \<noteq> d \<Longrightarrow> transformedDiagnostics st a \<noteq> None \<Longrightarrow> a < length (heap st) \<Longrightarrow>
             heap st3 ! a = heap st ! a"
      and o3: "\<And>a. a < length (heap st) \<Longrightarrow> otherFields (heap st3 ! a) = otherFields (heap st ! a)"
      and t3: "prefix (computed st) (computed st3)"
      by blast
    let ?st4 = "transformOwnSpan files srd st3 d"
    have d3: "d < length (heap st3)" using d l3 by simp
    have cd': "transformedDiagnostics st3 d \<noteq> None" using cd by simp
    note own = transformOwnSpan_props [OF wf3 d3 cd', where files = files and srd = srd]
    have res: "transformDiagnostic (Suc (Suc n)) files srd st d = Some (?st4, cacheGet ?st4 d)"
      by (rule transformDiagnostic_miss [OF d None e])
    have "frameOk st ?st4"
      unfolding frameOk_def
    proof (intro conjI allI impI)
      show "wellFormed ?st4" by (rule own(1))
      show "pending ?st4 \<le> pending st" using own(2) p3 ps by simp
      show "length (heap st) \<le> length (heap ?st4)" using own(3) l3 by simp
      show "prefix (computed st) (computed ?st4)" using own(7) t3 by simp
    next
      fix a assume a: "transformedDiagnostics st a \<noteq> None"
      with None have ad: "a \<noteq> d" by auto
      show "transformedDiagnostics ?st4 a = transformedDiagnostics st a"
        using own(5) [OF ad] c3 [OF ad a] by simp
      assume l: "a < length (heap st)"
      then have "a < length (heap st3)" using l3 by simp
      then show "heap ?st4 ! a = heap st ! a"
        using own(4) h3 [OF ad a l] by simp
    next
      fix a assume l: "a < length (heap st)"
      then have "a < length (heap st3)" using l3 by simp
      then show "otherFields (heap ?st4 ! a) = otherFields (heap st ! a)"
        using own(4) o3 [OF l] by simp
    qed
    moreover have "transformedDiagnostics ?st4 d = Some (cacheGet ?st4 d)"
      using own(6) by (auto simp: cacheGet_def)
    ultimately show ?thesis using res by blast
  qed
qed

lemma fuel_Suc:
  "transformDiagnostic n files srd st d = Some x \<Longrightarrow>
     transformDiagnostic (Suc n) files srd st d = Some x"
  "transformRelated n files srd st ds = Some y \<Longrightarrow>
     transformRelated (Suc n) files srd st ds = Some y"
proof (induction n files srd st d and n files srd st ds
    arbitrary: x and y rule: transformDiagnostic_transformRelated.induct)
  case (1 files srd st d)
  then show ?case by simp
next
  case (2 fuel files srd st d)
  show ?case
  proof (cases "d \<ge> length (heap st) \<or> transformedDiagnostics st d \<noteq> None")
    case True
    with "2.prems" show ?thesis by (auto split: if_splits)
  next
    case False
    then have c: "\<not> d \<ge> length (heap st)" "\<not> transformedDiagnostics st d \<noteq> None" by auto
    show ?thesis
    proof (cases "relatedInformation (heap st ! d)")
      case None
      with c "2.prems" show ?thesis by simp
    next
      case (Some related)
      with c "2.prems" obtain st' results where
        t: "transformRelated fuel files srd (reserveSlot st d) related = Some (st', results)"
        by (auto split: option.splits)
      from "2.IH" [OF c Some t]
      have "transformRelated (Suc fuel) files srd (reserveSlot st d) related = Some (st', results)" .
      with c Some t "2.prems" show ?thesis by simp
    qed
  qed
next
  case (3 fuel files srd st)
  then show ?case by simp
next
  case (4 fuel files srd st d ds)
  from "4.prems" obtain st' r where h: "transformDiagnostic fuel files srd st d = Some (st', r)"
    by (auto split: option.splits)
  with "4.prems" obtain st'' rs where t: "transformRelated fuel files srd st' ds = Some (st'', rs)"
    and y: "y = (st'', r # rs)"
    by (auto split: option.splits)
  have h': "transformDiagnostic (Suc fuel) files srd st d = Some (st', r)"
    by (rule "4.IH"(1) [OF h])
  have t': "transformRelated (Suc fuel) files srd st' ds = Some (st'', rs)"
    by (rule "4.IH"(2) [OF h _ t]) simp
  from h' t' y show ?case by (simp del: transformDiagnostic.simps)
qed

lemma fuel_add:
  "transformDiagnostic n files srd st d = Some x \<Longrightarrow>
     transformDiagnostic (n + k) files srd st d = Some x"
  by (induction k) (auto dest: fuel_Suc(1) simp del: transformDiagnostic.simps)

lemma transformDiagnostic_frame:
  assumes wf: "wellFormed st" and d: "d < length (heap st)"
    and run: "transformDiagnostic fuel files srd st d = Some (st', r)"
  shows "frameOk st st'" and "transformedDiagnostics st' d = Some r"
proof -
  from transformDiagnostic_ok [OF wf d, of "fuel + pending st" files srd]
  obtain st2 r2 where
    ok: "transformDiagnostic (Suc (fuel + pending st)) files srd st d = Some (st2, r2)"
      "frameOk st st2" "transformedDiagnostics st2 d = Some r2"
    by auto
  from fuel_add [OF run, of "Suc (pending st)"]
  have "transformDiagnostic (Suc (fuel + pending st)) files srd st d = Some (st', r)"
    by (simp del: transformDiagnostic.simps)
  with ok show "frameOk st st'" "transformedDiagnostics st' d = Some r" by simp_all
qed


lemma exampleRanges:
  "transformRange \<lparr>snapshotLength = 100\<rparr> exampleMap 110 (110 + 2) (\<lambda>v. v) = None"
  "transformRange \<lparr>snapshotLength = 100\<rparr> exampleMap 101 (101 + 3) (\<lambda>v. v) = Some (11, 14)"
  by (simp_all add: transformRange_def getSourceOffsets_def findMatching_def exampleMap_def)

lemma relatedState_run:
  "\<exists>st'. transformDiagnostic 2 exampleFiles (\<lambda>v. v) relatedState 0 = Some (st', Some 0)
     \<and> heap st' =
        [\<lparr>diag_file = None, diag_start = None, diag_length = None,
          messageText = ''global'', relatedInformation = Some []\<rparr>,
         \<lparr>diag_file = Some ''/a.vue'', diag_start = Some 110, diag_length = Some 2,
          messageText = ''related'', relatedInformation = None\<rparr>]
     \<and> computed st' = [0, 1]"
  by (simp add: relatedState_def numeral_2_eq_2 reserveSlot_def cacheSet_def cacheGet_def
      setRelatedInformation_def transformOwnSpan_def notEmpty_def getVirtualFileAndMap_def
      exampleFiles_def exampleRanges [simplified])

lemma cyclicState_run:
  "\<exists>st'. transformDiagnostic 3 exampleFiles (\<lambda>v. v) cyclicState 0 = Some (st', Some 2)
     \<and> heap st' =
        [\<lparr>diag_file = Some ''/a.vue'', diag_start = Some 101, diag_length = Some 3,
          messageText = ''first'', relatedInformation = Some [1]\<rparr>,
         \<lparr>diag_file = None, diag_start = None, diag_length = None,
          messageText = ''second'', relatedInformation = Some []\<rparr>,
         \<lparr>diag_file = Some ''/a.vue'', diag_start = Some 11, diag_length = Some 3,
          messageText = ''first'', relatedInformation = Some [1]\<rparr>]
     \<and> computed st' = [0, 1]"
  by (simp add: cyclicState_def numeral_3_eq_3 reserveSlot_def cacheSet_def cacheGet_def
      setRelatedInformation_def transformOwnSpan_def notEmpty_def getVirtualFileAndMap_def
      exampleFiles_def exampleRanges [simplified])

lemma example_states_wellFormed:
  "wellFormed relatedState" "wellFormed cyclicState" "pending cyclicState = 2"
  by (simp_all add: wellFormed_def refsValid_def cacheValid_def traceValid_def relatedOf_def
      relatedState_def cyclicState_def pending_def upt_rec)



lemma transformRelated_frame:
  "wellFormed st \<Longrightarrow> \<forall>x \<in> set xs. x < length (heap st) \<Longrightarrow>
   transformRelated fuel files srd st xs = Some (st', rs) \<Longrightarrow> frameOk st st'"
proof (induction xs arbitrary: st st' rs)
  case Nil
  then show ?case by (simp add: frameOk_refl)
next
  case (Cons x xs)
  from Cons.prems(3) obtain st1 r where h: "transformDiagnostic fuel files srd st x = Some (st1, r)"
    by (auto split: option.splits)
  with Cons.prems(3) obtain rs' where t: "transformRelated fuel files srd st1 xs = Some (st', rs')"
    by (auto split: option.splits)
  from Cons.prems(2) have x: "x < length (heap st)" by simp
  have f1: "frameOk st st1" by (rule transformDiagnostic_frame(1) [OF Cons.prems(1) x h])
  then have wf1: "wellFormed st1" and l: "length (heap st) \<le> length (heap st1)"
    by (simp_all add: frameOk_def)
  from Cons.prems(2) l have "\<forall>x \<in> set xs. x < length (heap st1)" by auto
  from Cons.IH [OF wf1 this t] have "frameOk st1 st'" .
  with f1 show ?case by (rule frameOk_trans)
qed

lemma transformRelated_results:
  "wellFormed st \<Longrightarrow> \<forall>x \<in> set xs. x < length (heap st) \<Longrightarrow>
   transformRelated fuel files srd st xs = Some (st', rs) \<Longrightarrow> rs = map (cacheGet st') xs"
proof (induction xs arbitrary: st st' rs)
  case Nil
  then show ?case by simp
next
  case (Cons x xs)
  from Cons.prems(3) obtain st1 r where h: "transformDiagnostic fuel files srd st x = Some (st1, r)"
    by (auto split: option.splits)
  with Cons.prems(3) obtain rs' where t: "transformRelated fuel files srd st1 xs = Some (st', rs')"
    and rs: "rs = r # rs'"
    by (auto split: option.splits)
  from Cons.prems(2) have x: "x < length (heap st)" by simp
  note f1 = transformDiagnostic_frame [OF Cons.prems(1) x h]
  from f1(1) have wf1: "wellFormed st1" and l: "length (heap st) \<le> length (heap st1)"
    by (simp_all add: frameOk_def)
  from Cons.prems(2) l have v: "\<forall>x \<in> set xs. x < length (heap st1)" by auto
  from Cons.IH [OF wf1 v t] have ih: "rs' = map (cacheGet st') xs" .
  from transformRelated_frame [OF wf1 v t] f1(2)
  have "transformedDiagnostics st' x = Some r" by (simp add: frameOk_def)
  then have "cacheGet st' x = r" by (simp add: cacheGet_def)
  with ih rs show ?case by simp
qed

lemma transformDiagnostic_decompose:
  assumes wf: "wellFormed st" and d: "d < length (heap st)"
    and c: "transformedDiagnostics st d = None"
    and run: "transformDiagnostic fuel files srd st d = Some (st', r)"
  shows "\<exists>st3. st' = transformOwnSpan files srd st3 d \<and> r = cacheGet st' d
          \<and> wellFormed st3 \<and> length (heap st) \<le> length (heap st3)
          \<and> transformedDiagnostics st3 d = Some None
          \<and> otherFields (heap st3 ! d) = otherFields (heap st ! d)
          \<and> relatedInformation (heap st3 ! d) =
               map_option (\<lambda>related. map the (filter notEmpty (map (cacheGet st3) related)))
                 (relatedInformation (heap st ! d))"
proof -
  from run obtain n where fuel: "fuel = Suc n" by (cases fuel) auto
  let ?st1 = "reserveSlot st d"
  have wf1: "wellFormed ?st1" by (rule reserveSlot_wellFormed [OF wf c])
  show ?thesis
  proof (cases "relatedInformation (heap st ! d)")
    case None
    with run d c have "st' = transformOwnSpan files srd ?st1 d" "r = cacheGet st' d"
      unfolding fuel by auto
    with wf1 None show ?thesis by (intro exI [of _ ?st1]) simp
  next
    case (Some related)
    with run d c obtain st2 rs where
      t: "transformRelated n files srd ?st1 related = Some (st2, rs)"
      and s: "st' = transformOwnSpan files srd
                (setRelatedInformation st2 d (map the (filter notEmpty rs))) d"
      and r: "r = cacheGet st' d"
      unfolding fuel by (auto split: option.splits)
    let ?st3 = "setRelatedInformation st2 d (map the (filter notEmpty rs))"
    from d have "heap st ! d \<in> set (heap st)" by simp
    with wf Some have rv: "\<forall>x \<in> set related. x < length (heap ?st1)"
      by (auto simp: wellFormed_def refsValid_def list_all_iff relatedOf_def)
    from transformRelated_frame [OF wf1 rv t] have f: "frameOk ?st1 st2" .
    from transformRelated_results [OF wf1 rv t] have rs: "rs = map (cacheGet st2) related" .
    from f have wf2: "wellFormed st2" and l2: "length (heap st) \<le> length (heap st2)"
      and c2: "transformedDiagnostics st2 d = Some None"
      and o2: "otherFields (heap st2 ! d) = otherFields (heap st ! d)"
      using d by (simp_all add: frameOk_def)
    have "\<forall>y \<in> set (map the (filter notEmpty rs)). y < length (heap st2)"
      using wf2 unfolding rs
      by (auto simp: notEmpty_def cacheGet_def wellFormed_def cacheValid_def split: option.splits)
    then have wf3: "wellFormed ?st3" by (rule setRelatedInformation_wellFormed [OF wf2])
    have d2: "d < length (heap st2)" using d l2 by simp
    have o3: "otherFields (heap ?st3 ! d) = otherFields (heap st ! d)"
      using setRelatedInformation_heap(2) [OF d2] o2 by simp
    have r3: "relatedInformation (heap ?st3 ! d) = Some (map the (filter notEmpty rs))"
      using d2 by (simp add: setRelatedInformation_def)
    have g3: "\<And>related'. cacheGet (setRelatedInformation st2 d related') = cacheGet st2"
      by (simp add: cacheGet_def fun_eq_iff)
    from s r wf3 l2 c2 o3 r3 Some show ?thesis
      by (intro exI [of _ ?st3]) (simp add: rs g3)
  qed
qed

lemma otherFields_fields:
  "otherFields a = otherFields b \<Longrightarrow>
     diag_file a = diag_file b \<and> diag_start a = diag_start b \<and> diag_length a = diag_length b
     \<and> messageText a = messageText b"
  by (cases a, cases b) (simp add: otherFields_def)

lemma transformDiagnostic_first_visit:
  assumes wf: "wellFormed st" and d: "d < length (heap st)"
    and c: "transformedDiagnostics st d = None"
    and run: "transformDiagnostic fuel files srd st d = Some (st', r)"
  shows "relatedInformation (heap st' ! d) =
           map_option (\<lambda>related. map the (filter notEmpty
               (map (\<lambda>x. if x = d then None else cacheGet st' x) related)))
             (relatedInformation (heap st ! d))"
    and "case ownSpanOf files srd (heap st ! d) of
           Unchanged \<Rightarrow> r = Some d
         | Untranslatable \<Rightarrow> r = None
         | Translated start' len \<Rightarrow>
             r = Some (length (heap st') - 1) \<and> length (heap st) < length (heap st')
             \<and> heap st' ! (length (heap st') - 1) =
                 (heap st' ! d)\<lparr>diag_start := Some start', diag_length := Some len\<rparr>"
proof -
  from transformDiagnostic_decompose [OF wf d c run] obtain st3 where
    s: "st' = transformOwnSpan files srd st3 d" and r: "r = cacheGet st' d"
    and wf3: "wellFormed st3" and l3: "length (heap st) \<le> length (heap st3)"
    and c3: "transformedDiagnostics st3 d = Some None"
    and o3: "otherFields (heap st3 ! d) = otherFields (heap st ! d)"
    and r3: "relatedInformation (heap st3 ! d) =
               map_option (\<lambda>related. map the (filter notEmpty (map (cacheGet st3) related)))
                 (relatedInformation (heap st ! d))"
    by blast
  have d3: "d < length (heap st3)" using d l3 by simp
  have c3': "transformedDiagnostics st3 d \<noteq> None" using c3 by simp
  note own = transformOwnSpan_props [OF wf3 d3 c3', where files = files and srd = srd]
  have hd: "heap st' ! d = heap st3 ! d" unfolding s by (rule own(4) [OF d3])
  have g: "cacheGet st3 x = (if x = d then None else cacheGet st' x)" for x
    using own(5) [of x] c3 unfolding s by (auto simp: cacheGet_def)
  show "relatedInformation (heap st' ! d) =
           map_option (\<lambda>related. map the (filter notEmpty
               (map (\<lambda>x. if x = d then None else cacheGet st' x) related)))
             (relatedInformation (heap st ! d))"
    unfolding hd r3 using g by (simp cong: map_cong)
  note f = otherFields_fields [OF o3]
  show "case ownSpanOf files srd (heap st ! d) of
           Unchanged \<Rightarrow> r = Some d
         | Untranslatable \<Rightarrow> r = None
         | Translated start' len \<Rightarrow>
             r = Some (length (heap st') - 1) \<and> length (heap st) < length (heap st')
             \<and> heap st' ! (length (heap st') - 1) =
                 (heap st' ! d)\<lparr>diag_start := Some start', diag_length := Some len\<rparr>"
    unfolding r s using f c3 d3 l3
    by (auto simp: ownSpanOf_def transformOwnSpan_def Let_def cacheGet_def nth_append
        split: option.splits)
qed

text \<open>
  C4, as stated, fails. The diagnostic passed in lists one related diagnostic, which has
  no translation; after the call its \<^verbatim>\<open>relatedInformation\<close> is the empty list, and the
  result is that same object, not a new one.
\<close>

theorem transformDiagnostic_overwrites_relatedInformation:
  "relatedInformation (heap relatedState ! 0) = Some [1]
   \<and> map_option snd (transformDiagnostic 2 exampleFiles (\<lambda>v. v) relatedState 0) = Some (Some 0)
   \<and> map_option (\<lambda>res. relatedInformation (heap (fst res) ! 0))
        (transformDiagnostic 2 exampleFiles (\<lambda>v. v) relatedState 0) = Some (Some [])"
proof -
  from relatedState_run obtain st' where
    "transformDiagnostic 2 exampleFiles (\<lambda>v. v) relatedState 0 = Some (st', Some 0)"
    "heap st' =
        [\<lparr>diag_file = None, diag_start = None, diag_length = None,
          messageText = ''global'', relatedInformation = Some []\<rparr>,
         \<lparr>diag_file = Some ''/a.vue'', diag_start = Some 110, diag_length = Some 2,
          messageText = ''related'', relatedInformation = None\<rparr>]"
    by blast
  then show ?thesis by (simp add: relatedState_def del: transformDiagnostic.simps)
qed

text \<open>
  C4, amended. \<open>transformDiagnostic\<close> never removes an object and changes no field of
  an existing diagnostic other than \<^verbatim>\<open>relatedInformation\<close>; a diagnostic that had a memo
  entry before the call is not changed at all, no memo entry that was there is changed,
  and a call on a diagnostic with a memo entry changes nothing and returns the entry. The
  first call on a diagnostic does write to it: its \<^verbatim>\<open>relatedInformation\<close>, when it has
  one, becomes the list of the translations its elements have in the memo table, in
  order, an element without translation and the diagnostic itself left out. The result
  of such a call is the diagnostic itself when it has no file or span or its file is no
  generated document, nothing when its span has no translation, and otherwise a new
  object, the diagnostic (as rewritten) with the translated span. The other
  transformations write to no existing object: \<open>transformFileTextChanges\<close> returns the
  batch passed in for a file that is no generated document and a new object otherwise;
  \<open>transformDocumentSpan\<close> returns a new object or nothing; \<open>transformCallHierarchyItem\<close>
  returns a new object.
\<close>

theorem transformDiagnostic_frame_fields:
  "(wellFormed st \<and> d < length (heap st)
      \<and> transformDiagnostic fuel files srd st d = Some (st', r) \<longrightarrow>
       length (heap st) \<le> length (heap st')
       \<and> (\<forall>a < length (heap st). otherFields (heap st' ! a) = otherFields (heap st ! a))
       \<and> (\<forall>a < length (heap st). transformedDiagnostics st a \<noteq> None \<longrightarrow> heap st' ! a = heap st ! a)
       \<and> (\<forall>a. transformedDiagnostics st a \<noteq> None \<longrightarrow>
             transformedDiagnostics st' a = transformedDiagnostics st a)
       \<and> (transformedDiagnostics st d \<noteq> None \<longrightarrow> st' = st \<and> r = cacheGet st d)
       \<and> (transformedDiagnostics st d = None \<longrightarrow>
             relatedInformation (heap st' ! d) =
               map_option (\<lambda>related. map the (filter notEmpty
                   (map (\<lambda>x. if x = d then None else cacheGet st' x) related)))
                 (relatedInformation (heap st ! d))
             \<and> (case ownSpanOf files srd (heap st ! d) of
                  Unchanged \<Rightarrow> r = Some d
                | Untranslatable \<Rightarrow> r = None
                | Translated start' len \<Rightarrow>
                    r = Some (length (heap st') - 1) \<and> length (heap st) < length (heap st')
                    \<and> heap st' ! (length (heap st') - 1) =
                        (heap st' ! d)\<lparr>diag_start := Some start', diag_length := Some len\<rparr>)))
   \<and> take (length changesStore)
        (fst (transformFileTextChangesAt files changesStore changes flt)) = changesStore
   \<and> (getVirtualFileAndMap files (ftc_fileName (changesStore ! changes)) = None \<longrightarrow>
        transformFileTextChangesAt files changesStore changes flt = (changesStore, changes))
   \<and> (getVirtualFileAndMap files (ftc_fileName (changesStore ! changes)) \<noteq> None \<longrightarrow>
        transformFileTextChangesAt files changesStore changes flt =
          (changesStore @ [transformFileTextChanges files (changesStore ! changes) flt],
           length changesStore))
   \<and> take (length spanStore)
        (fst (transformDocumentSpanAt files spanStore documentSpan flt shouldFallback)) = spanStore
   \<and> snd (transformDocumentSpanAt files spanStore documentSpan flt shouldFallback) =
        map_option (\<lambda>_. length spanStore)
          (transformDocumentSpan files (spanStore ! documentSpan) flt shouldFallback)
   \<and> take (length itemStore)
        (fst (transformCallHierarchyItemAt files itemStore item flt)) = itemStore
   \<and> snd (transformCallHierarchyItemAt files itemStore item flt) = length itemStore"
proof -
  have diag: "length (heap st) \<le> length (heap st')
       \<and> (\<forall>a < length (heap st). otherFields (heap st' ! a) = otherFields (heap st ! a))
       \<and> (\<forall>a < length (heap st). transformedDiagnostics st a \<noteq> None \<longrightarrow> heap st' ! a = heap st ! a)
       \<and> (\<forall>a. transformedDiagnostics st a \<noteq> None \<longrightarrow>
             transformedDiagnostics st' a = transformedDiagnostics st a)
       \<and> (transformedDiagnostics st d \<noteq> None \<longrightarrow> st' = st \<and> r = cacheGet st d)
       \<and> (transformedDiagnostics st d = None \<longrightarrow>
             relatedInformation (heap st' ! d) =
               map_option (\<lambda>related. map the (filter notEmpty
                   (map (\<lambda>x. if x = d then None else cacheGet st' x) related)))
                 (relatedInformation (heap st ! d))
             \<and> (case ownSpanOf files srd (heap st ! d) of
                  Unchanged \<Rightarrow> r = Some d
                | Untranslatable \<Rightarrow> r = None
                | Translated start' len \<Rightarrow>
                    r = Some (length (heap st') - 1) \<and> length (heap st) < length (heap st')
                    \<and> heap st' ! (length (heap st') - 1) =
                        (heap st' ! d)\<lparr>diag_start := Some start', diag_length := Some len\<rparr>))"
    if wf: "wellFormed st" and d: "d < length (heap st)"
      and run: "transformDiagnostic fuel files srd st d = Some (st', r)"
  proof -
    have hit: "st' = st \<and> r = cacheGet st d" if "transformedDiagnostics st d \<noteq> None"
    proof -
      from run obtain n where "fuel = Suc n" by (cases fuel) auto
      with run d that show ?thesis by auto
    qed
    from transformDiagnostic_frame(1) [OF wf d run] hit
      transformDiagnostic_first_visit [OF wf d _ run]
    show ?thesis by (simp add: frameOk_def)
  qed
  have others: "take (length changesStore)
        (fst (transformFileTextChangesAt files changesStore changes flt)) = changesStore"
    "getVirtualFileAndMap files (ftc_fileName (changesStore ! changes)) = None \<longrightarrow>
        transformFileTextChangesAt files changesStore changes flt = (changesStore, changes)"
    "getVirtualFileAndMap files (ftc_fileName (changesStore ! changes)) \<noteq> None \<longrightarrow>
        transformFileTextChangesAt files changesStore changes flt =
          (changesStore @ [transformFileTextChanges files (changesStore ! changes) flt],
           length changesStore)"
    "take (length spanStore)
        (fst (transformDocumentSpanAt files spanStore documentSpan flt shouldFallback)) = spanStore"
    "snd (transformDocumentSpanAt files spanStore documentSpan flt shouldFallback) =
        map_option (\<lambda>_. length spanStore)
          (transformDocumentSpan files (spanStore ! documentSpan) flt shouldFallback)"
    "take (length itemStore)
        (fst (transformCallHierarchyItemAt files itemStore item flt)) = itemStore"
    "snd (transformCallHierarchyItemAt files itemStore item flt) = length itemStore"
    by (auto simp: transformFileTextChangesAt_def transformDocumentSpanAt_def
        transformCallHierarchyItemAt_def split: option.splits)
  from diag others show ?thesis by blast
qed

lemma relatedState_cache:
  "\<exists>st'. transformDiagnostic 2 exampleFiles (\<lambda>v. v) relatedState 0 = Some (st', Some 0)
     \<and> heap st' =
        [\<lparr>diag_file = None, diag_start = None, diag_length = None,
          messageText = ''global'', relatedInformation = Some []\<rparr>,
         \<lparr>diag_file = Some ''/a.vue'', diag_start = Some 110, diag_length = Some 2,
          messageText = ''related'', relatedInformation = None\<rparr>]
     \<and> cacheGet st' 1 = None"
  by (simp add: relatedState_def numeral_2_eq_2 reserveSlot_def cacheSet_def cacheGet_def
      setRelatedInformation_def transformOwnSpan_def notEmpty_def getVirtualFileAndMap_def
      exampleFiles_def exampleRanges [simplified])

theorem transformDiagnostic_frame_fields_witness:
  "wellFormed relatedState \<and> 0 < length (heap relatedState)
   \<and> transformedDiagnostics relatedState 0 = None
   \<and> relatedInformation (heap relatedState ! 0) = Some [1]
   \<and> ownSpanOf exampleFiles (\<lambda>v. v) (heap relatedState ! 0) = Unchanged
   \<and> ownSpanOf exampleFiles (\<lambda>v. v) (heap relatedState ! 1) = Untranslatable
   \<and> map_option snd (transformDiagnostic 2 exampleFiles (\<lambda>v. v) relatedState 0) = Some (Some 0)
   \<and> map_option (\<lambda>res. relatedInformation (heap (fst res) ! 0))
        (transformDiagnostic 2 exampleFiles (\<lambda>v. v) relatedState 0) = Some (Some [])
   \<and> map_option (\<lambda>res. map otherFields (heap (fst res)))
        (transformDiagnostic 2 exampleFiles (\<lambda>v. v) relatedState 0)
       = Some (map otherFields (heap relatedState))
   \<and> wellFormed cyclicState \<and> 0 < length (heap cyclicState)
   \<and> transformedDiagnostics cyclicState 0 = None
   \<and> ownSpanOf exampleFiles (\<lambda>v. v) (heap cyclicState ! 0) = Translated 11 3
   \<and> map_option snd (transformDiagnostic 3 exampleFiles (\<lambda>v. v) cyclicState 0) = Some (Some 2)
   \<and> map_option (\<lambda>res. heap (fst res) ! 2)
        (transformDiagnostic 3 exampleFiles (\<lambda>v. v) cyclicState 0)
       = Some \<lparr>diag_file = Some ''/a.vue'', diag_start = Some 11, diag_length = Some 3,
               messageText = ''first'', relatedInformation = Some [1]\<rparr>
   \<and> map_option (\<lambda>res. map otherFields (take 2 (heap (fst res))))
        (transformDiagnostic 3 exampleFiles (\<lambda>v. v) cyclicState 0)
       = Some (map otherFields (heap cyclicState))
   \<and> transformFileTextChangesAt exampleFiles
        [exampleChanges, exampleChanges\<lparr>ftc_fileName := ''/b.ts''\<rparr>] 0 (\<lambda>_. True)
       = ([exampleChanges, exampleChanges\<lparr>ftc_fileName := ''/b.ts''\<rparr>,
           transformFileTextChanges exampleFiles exampleChanges (\<lambda>_. True)], 2)
   \<and> transformFileTextChangesAt exampleFiles
        [exampleChanges, exampleChanges\<lparr>ftc_fileName := ''/b.ts''\<rparr>] 1 (\<lambda>_. True)
       = ([exampleChanges, exampleChanges\<lparr>ftc_fileName := ''/b.ts''\<rparr>], 1)
   \<and> snd (transformDocumentSpanAt exampleFiles [exampleDocumentSpan] 0 (\<lambda>_. True) (Some True))
       = Some 1
   \<and> snd (transformDocumentSpanAt exampleFiles [exampleDocumentSpan] 0 (\<lambda>_. True) None) = None
   \<and> snd (transformCallHierarchyItemAt exampleFiles [exampleItem] 0 (\<lambda>_. True)) = 1
   \<and> take 1 (fst (transformCallHierarchyItemAt exampleFiles [exampleItem] 0 (\<lambda>_. True)))
       = [exampleItem]"
proof -
  note wf = example_states_wellFormed(1,2)
  have d: "0 < length (heap relatedState)" "0 < length (heap cyclicState)"
    and c: "transformedDiagnostics relatedState 0 = None"
      "transformedDiagnostics cyclicState 0 = None"
    and rel: "relatedInformation (heap relatedState ! 0) = Some [1]"
    and n1: "length (heap relatedState) = 2" and n2: "length (heap cyclicState) = 2"
    by (simp_all add: relatedState_def cyclicState_def)
  have own: "ownSpanOf exampleFiles (\<lambda>v. v) (heap relatedState ! 0) = Unchanged"
    "ownSpanOf exampleFiles (\<lambda>v. v) (heap relatedState ! 1) = Untranslatable"
    "ownSpanOf exampleFiles (\<lambda>v. v) (heap cyclicState ! 0) = Translated 11 3"
    by (simp_all add: ownSpanOf_def relatedState_def cyclicState_def getVirtualFileAndMap_def
        exampleFiles_def exampleRanges [simplified])
  from relatedState_cache obtain st1 where
    r1: "transformDiagnostic 2 exampleFiles (\<lambda>v. v) relatedState 0 = Some (st1, Some 0)"
    and l1: "length (heap st1) = 2" and g1: "cacheGet st1 1 = None"
    by auto
  from cyclicState_run obtain st2 where
    r2: "transformDiagnostic 3 exampleFiles (\<lambda>v. v) cyclicState 0 = Some (st2, Some 2)"
    and h2: "heap st2 =
        [\<lparr>diag_file = Some ''/a.vue'', diag_start = Some 101, diag_length = Some 3,
          messageText = ''first'', relatedInformation = Some [1]\<rparr>,
         \<lparr>diag_file = None, diag_start = None, diag_length = None,
          messageText = ''second'', relatedInformation = Some []\<rparr>,
         \<lparr>diag_file = Some ''/a.vue'', diag_start = Some 11, diag_length = Some 3,
          messageText = ''first'', relatedInformation = Some [1]\<rparr>]"
    by auto
  note t1 = transformDiagnostic_frame_fields [where st = relatedState and d = 0 and fuel = 2
      and files = exampleFiles and srd = "\<lambda>v. v" and st' = st1 and r = "Some 0"
      and changesStore = "[exampleChanges, exampleChanges\<lparr>ftc_fileName := ''/b.ts''\<rparr>]"
      and changes = 0 and flt = "\<lambda>_. True" and spanStore = "[exampleDocumentSpan]"
      and documentSpan = 0 and shouldFallback = "Some True" and itemStore = "[exampleItem]"
      and item = 0]
  note t2 = transformDiagnostic_frame_fields [where st = cyclicState and d = 0 and fuel = 3
      and files = exampleFiles and srd = "\<lambda>v. v" and st' = st2 and r = "Some 2"
      and changesStore = "[exampleChanges, exampleChanges\<lparr>ftc_fileName := ''/b.ts''\<rparr>]"
      and changes = 1 and flt = "\<lambda>_. True" and spanStore = "[exampleDocumentSpan]"
      and documentSpan = 0 and shouldFallback = None and itemStore = "[exampleItem]"
      and item = 0]
  note t1d = t1 [THEN conjunct1, THEN mp, OF conjI [OF wf(1) conjI [OF d(1) r1]]]
  note t2d = t2 [THEN conjunct1, THEN mp, OF conjI [OF wf(2) conjI [OF d(2) r2]]]
  note t1o = t1 [THEN conjunct2]
  note t2o = t2 [THEN conjunct2]
  have reg: "getVirtualFileAndMap exampleFiles (ftc_fileName exampleChanges) \<noteq> None"
    "getVirtualFileAndMap exampleFiles ''/b.ts'' = None"
    by (simp_all add: getVirtualFileAndMap_def exampleFiles_def exampleChanges_def)
  have o1: "map otherFields (heap st1) = map otherFields (heap relatedState)"
    using t1d l1 n1 by (auto simp: list_eq_iff_nth_eq)
  have o2: "map otherFields (take 2 (heap st2)) = map otherFields (heap cyclicState)"
    using t2d h2 n2 by (auto simp: list_eq_iff_nth_eq)
  have ri: "relatedInformation (heap st1 ! 0) = Some []"
    using t1d c(1) rel g1 by (simp add: notEmpty_def)
  have f0: "transformFileTextChangesAt exampleFiles
        [exampleChanges, exampleChanges\<lparr>ftc_fileName := ''/b.ts''\<rparr>] 0 (\<lambda>_. True)
       = ([exampleChanges, exampleChanges\<lparr>ftc_fileName := ''/b.ts''\<rparr>,
           transformFileTextChanges exampleFiles exampleChanges (\<lambda>_. True)], 2)"
    using t1o reg(1) by (simp add: exampleChanges_def)
  have f1: "transformFileTextChangesAt exampleFiles
        [exampleChanges, exampleChanges\<lparr>ftc_fileName := ''/b.ts''\<rparr>] 1 (\<lambda>_. True)
       = ([exampleChanges, exampleChanges\<lparr>ftc_fileName := ''/b.ts''\<rparr>], 1)"
    using t2o reg(2) by simp
  have sp: "transformDocumentSpan exampleFiles exampleDocumentSpan (\<lambda>_. True) (Some True) \<noteq> None"
    "transformDocumentSpan exampleFiles exampleDocumentSpan (\<lambda>_. True) None = None"
    by (simp_all add: transformDocumentSpan_def transformSpan_def getVirtualFileAndMap_def
        exampleFiles_def exampleMap_def exampleDocumentSpan_def transformRange_def
        getSourceOffsets_def findMatching_def Let_def)
  have s1: "snd (transformDocumentSpanAt exampleFiles [exampleDocumentSpan] 0 (\<lambda>_. True) (Some True))
       = Some 1"
    using t1o sp(1) by auto
  have s2: "snd (transformDocumentSpanAt exampleFiles [exampleDocumentSpan] 0 (\<lambda>_. True) None) = None"
    using t2o sp(2) by simp
  have i1: "snd (transformCallHierarchyItemAt exampleFiles [exampleItem] 0 (\<lambda>_. True)) = 1"
    "take 1 (fst (transformCallHierarchyItemAt exampleFiles [exampleItem] 0 (\<lambda>_. True)))
       = [exampleItem]"
    using t1o by simp_all
  show ?thesis
    using wf d c rel own o1 o2 ri f0 f1 s1 s2 i1
    by (simp add: r1 r2 h2 del: transformDiagnostic.simps)
qed

end
